(* ===== verification/Prelude.thy ===== *)
theory Prelude
  imports Complex_Main "HOL-Library.AList" "HOL-Library.Product_Lexorder"
    "HOL-Library.List_Lexorder" "HOL-Library.Char_ord"
begin

text \<open>
  Shared vocabulary of the development: the errors the service throws, JSON values, asynchronous
  methods as state-passing actions that may throw, SQL tables as lists of rows, and a small logic
  of relational steps that the component theories instantiate.

  An action runs from a store to a result and the store it leaves. A thrown exception keeps the
  writes made before it, as auto-committed statements do; only \<open>transaction\<close> undoes them.
\<close>

named_theorems action_defs
named_theorems keeps_intros

section \<open>Errors and JSON\<close>

type_synonym uuid = string

text \<open>
  \<open>BackendNotFound\<close> and \<open>SubmissionRejected\<close> are the two subclasses of the adapter errors that
  callers distinguish; \<open>OtherAdapter\<close> stands for every other subclass with its stable code.
\<close>

datatype adapter_error =
    BackendNotFound string
  | SubmissionRejected string
  | OtherAdapter string string

fun adapter_code :: "adapter_error \<Rightarrow> string" where
  "adapter_code (BackendNotFound _) = ''BACKEND_NOT_FOUND''"
| "adapter_code (SubmissionRejected _) = ''SUBMISSION_REJECTED''"
| "adapter_code (OtherAdapter c _) = c"

fun adapter_message :: "adapter_error \<Rightarrow> string" where
  "adapter_message (BackendNotFound m) = m"
| "adapter_message (SubmissionRejected _) = ''Credential issue was not submitted''"
| "adapter_message (OtherAdapter _ m) = m"

datatype err =
    NotFoundException string
  | ConflictException string
  | BadRequestException string
  | ForbiddenException string
  | BadGatewayException string
  | ServiceUnavailableException string
  | UnprocessableEntityException string
  | TenantAccessDeniedException string
  | TenantNotActiveException string string
  | AuthenticationRequiredException string string
  | InsufficientScopeException string "string list" "string list"
  | BadRequestBody string string
  | ThrottlerException
  | QueryFailed string string
  | EnqueueFailed string
  | AdapterErr adapter_error
  | JsError string

datatype json =
    JNull
  | JBool bool
  | JNum rat
  | JStr string
  | JArr "json list"
  | JObj "(string \<times> json) list"

definition jget :: "json \<Rightarrow> string \<Rightarrow> json option" where
  "jget j k = (case j of JObj kvs \<Rightarrow> map_of kvs k | _ \<Rightarrow> None)"

definition jnat :: "nat \<Rightarrow> json" where
  "jnat n = JNum (of_nat n)"

lemma jget_simps [simp]:
  "jget (JObj kvs) k = map_of kvs k" "jget JNull k = None"
  by (simp_all add: jget_def)

section \<open>Actions\<close>

type_synonym ('s, 'a) act = "'s \<Rightarrow> (err + 'a) \<times> 's"

definition ret :: "'a \<Rightarrow> ('s, 'a) act" where
  "ret x = (\<lambda>s. (Inr x, s))"

definition throw :: "err \<Rightarrow> ('s, 'a) act" where
  "throw e = (\<lambda>s. (Inl e, s))"

definition bindA :: "('s, 'a) act \<Rightarrow> ('a \<Rightarrow> ('s, 'b) act) \<Rightarrow> ('s, 'b) act" where
  "bindA m f = (\<lambda>s. case m s of (Inl e, s') \<Rightarrow> (Inl e, s') | (Inr x, s') \<Rightarrow> f x s')"

definition catchA :: "('s, 'a) act \<Rightarrow> (err \<Rightarrow> ('s, 'a) act) \<Rightarrow> ('s, 'a) act" where
  "catchA m h = (\<lambda>s. case m s of (Inl e, s') \<Rightarrow> h e s' | (Inr x, s') \<Rightarrow> (Inr x, s'))"

definition reads :: "('s \<Rightarrow> 'a) \<Rightarrow> ('s, 'a) act" where
  "reads f = (\<lambda>s. (Inr (f s), s))"

definition modifies :: "('s \<Rightarrow> 's) \<Rightarrow> ('s, unit) act" where
  "modifies f = (\<lambda>s. (Inr (), f s))"

definition lift :: "err + 'a \<Rightarrow> ('s, 'a) act" where
  "lift r = (\<lambda>s. (r, s))"

definition found :: "err \<Rightarrow> 'a option \<Rightarrow> ('s, 'a) act" where
  "found e x = (case x of None \<Rightarrow> throw e | Some y \<Rightarrow> ret y)"

definition require :: "bool \<Rightarrow> err \<Rightarrow> ('s, unit) act" where
  "require b e = (if b then ret () else throw e)"

definition whenA :: "bool \<Rightarrow> ('s, unit) act \<Rightarrow> ('s, unit) act" where
  "whenA b m = (if b then m else ret ())"

text \<open>
  A database transaction: a throw rolls every write back. The body may still read outside its own
  connection, so it is given the committed store as well.
\<close>

definition transaction :: "('s \<Rightarrow> ('s, 'a) act) \<Rightarrow> ('s, 'a) act" where
  "transaction body = (\<lambda>s. case body s s of (Inl e, _) \<Rightarrow> (Inl e, s) | (Inr x, s') \<Rightarrow> (Inr x, s'))"

lemmas [action_defs] = ret_def throw_def bindA_def catchA_def reads_def modifies_def lift_def
  found_def require_def whenA_def transaction_def

lemma bindA_Inr_iff:
  "bindA m f s = (Inr y, s'') \<longleftrightarrow> (\<exists>x s'. m s = (Inr x, s') \<and> f x s' = (Inr y, s''))"
  by (auto simp: bindA_def split: prod.splits sum.splits)

lemma bindA_ret [simp]: "bindA (ret x) f = f x"
  by (simp add: bindA_def ret_def)

lemma bindA_throw [simp]: "bindA (throw e) f = throw e"
  by (simp add: bindA_def throw_def)

lemma bindA_reads [simp]: "bindA (reads f) g s = g (f s) s"
  by (simp add: bindA_def reads_def)

lemma bindA_lift [simp]: "bindA (lift (Inr x)) f = f x" "bindA (lift (Inl e)) f = throw e"
  by (auto simp: bindA_def lift_def throw_def)

lemma bindA_assoc: "bindA (bindA m f) g = bindA m (\<lambda>x. bindA (f x) g)"
  by (rule ext) (simp add: bindA_def split: prod.split sum.split)

lemma bindA_ret_snd: "snd (bindA m (\<lambda>x. ret (g x)) s) = snd (m s)"
  by (cases "m s"; cases "fst (m s)") (auto simp: bindA_def ret_def)

lemma reads_Inr: "reads f s = (Inr x, s') \<longleftrightarrow> x = f s \<and> s' = s"
  by (auto simp: reads_def)

lemma found_Inr: "found e x s = (Inr y, s') \<longleftrightarrow> x = Some y \<and> s' = s"
  by (auto simp: found_def ret_def throw_def split: option.splits)

lemma ret_Inr: "ret x s = (Inr y, s') \<longleftrightarrow> y = x \<and> s' = s"
  by (auto simp: ret_def)

lemma throw_Inr: "throw e s \<noteq> (Inr y, s')"
  by (simp add: throw_def)

lemma lift_Inr: "lift r s = (Inr y, s') \<longleftrightarrow> r = Inr y \<and> s' = s"
  by (auto simp: lift_def)

lemma require_Inr: "require b e s = (Inr u, s') \<longleftrightarrow> b \<and> s' = s"
  by (auto simp: require_def ret_def throw_def)

lemmas action_Inr = bindA_Inr_iff reads_Inr found_Inr ret_Inr throw_Inr lift_Inr require_Inr

lemma throw_run: "throw e s = (r, s') \<longleftrightarrow> r = Inl e \<and> s' = s"
  by (auto simp: throw_def)

lemma catchA_throw_snd: "snd (catchA m (\<lambda>e. throw (g e)) s) = snd (m s)"
  by (simp add: catchA_def throw_def split: prod.split sum.split)

lemma ret_apply: "ret x s = (Inr x, s)"
  by (simp add: ret_def)

lemma bindA_run: "m s = (Inr x, t) \<Longrightarrow> bindA m k s = k x t"
  by (simp add: bindA_def)

lemma catchA_throw_Inr: "catchA m (\<lambda>e. throw (g e)) s = (Inr x, s') \<longleftrightarrow> m s = (Inr x, s')"
  by (auto simp: catchA_def throw_run split: prod.splits sum.splits)

lemma ret_run: "ret x s = (r, s') \<longleftrightarrow> r = Inr x \<and> s' = s"
  by (auto simp: ret_def)

lemma transaction_error_rolls_back:
  "transaction body s = (Inl e, s') \<Longrightarrow> s' = s"
  by (auto simp: transaction_def split: prod.splits sum.splits)

lemma transaction_Inr_iff:
  "transaction body s = (Inr x, s') \<longleftrightarrow> body s s = (Inr x, s')"
  by (auto simp: transaction_def split: prod.splits sum.splits)

text \<open>Whether a run returned, as a computable test.\<close>

definition returned :: "(err + 'a) \<times> 's \<Rightarrow> bool" where
  "returned p = (case p of (Inl _, _) \<Rightarrow> False | (Inr _, _) \<Rightarrow> True)"

lemma returnedE:
  assumes "returned p"
  obtains x s where "p = (Inr x, s)"
  using assms by (cases p; cases "fst p") (auto simp: returned_def)

section \<open>Steps that respect a preorder on stores\<close>

text \<open>
  Safety properties of the handlers are preorders between the store before and the store after (no
  state moves backwards, no row of another tenant changes). An action keeps such a relation when
  every run of it, thrown or not, ends in a related store.
\<close>

definition keeps :: "('s \<Rightarrow> 's \<Rightarrow> bool) \<Rightarrow> ('s, 'a) act \<Rightarrow> bool" where
  "keeps R m \<longleftrightarrow> (\<forall>s. R s (snd (m s)))"

lemma keepsI: "(\<And>s. R s (snd (m s))) \<Longrightarrow> keeps R m"
  by (simp add: keeps_def)

lemma keepsD: "keeps R m \<Longrightarrow> m s = (r, s') \<Longrightarrow> R s s'"
  by (metis keeps_def snd_conv)

locale store_preorder =
  fixes R :: "'s \<Rightarrow> 's \<Rightarrow> bool"
  assumes step_refl: "R s s"
    and step_trans: "R s t \<Longrightarrow> R t u \<Longrightarrow> R s u"
begin

lemma keeps_ret: "keeps R (ret x)"
  by (simp add: keeps_def ret_def step_refl)

lemma keeps_throw: "keeps R (throw e)"
  by (simp add: keeps_def throw_def step_refl)

lemma keeps_reads: "keeps R (reads f)"
  by (simp add: keeps_def reads_def step_refl)

lemma keeps_lift: "keeps R (lift r)"
  by (simp add: keeps_def lift_def step_refl)

lemma keeps_found: "keeps R (found e x)"
  by (cases x) (simp_all add: found_def keeps_ret keeps_throw)

lemma keeps_require: "keeps R (require b e)"
  by (simp add: require_def keeps_ret keeps_throw)

lemma keeps_modifies: "(\<And>s. R s (f s)) \<Longrightarrow> keeps R (modifies f)"
  by (simp add: keeps_def modifies_def)

lemma keeps_bindA:
  assumes "keeps R m" and "\<And>x. keeps R (f x)"
  shows "keeps R (bindA m f)"
proof (rule keepsI)
  fix s
  obtain r s' where m: "m s = (r, s')" by (cases "m s")
  with assms(1) have step: "R s s'" by (rule keepsD)
  show "R s (snd (bindA m f s))"
  proof (cases r)
    case (Inl e)
    with m step show ?thesis by (simp add: bindA_def)
  next
    case (Inr x)
    have "R s' (snd (f x s'))" using assms(2) by (simp add: keeps_def)
    with step have "R s (snd (f x s'))" by (rule step_trans)
    with m Inr show ?thesis by (simp add: bindA_def)
  qed
qed

lemma keeps_catchA:
  assumes "keeps R m" and "\<And>e. keeps R (h e)"
  shows "keeps R (catchA m h)"
proof (rule keepsI)
  fix s
  obtain r s' where m: "m s = (r, s')" by (cases "m s")
  with assms(1) have step: "R s s'" by (rule keepsD)
  show "R s (snd (catchA m h s))"
  proof (cases r)
    case (Inr x)
    with m step show ?thesis by (simp add: catchA_def)
  next
    case (Inl e)
    have "R s' (snd (h e s'))" using assms(2) by (simp add: keeps_def)
    with step have "R s (snd (h e s'))" by (rule step_trans)
    with m Inl show ?thesis by (simp add: catchA_def)
  qed
qed

lemma keeps_whenA: "keeps R m \<Longrightarrow> keeps R (whenA b m)"
  by (simp add: whenA_def keeps_ret)

lemma keeps_transaction:
  assumes "\<And>c. keeps R (body c)"
  shows "keeps R (transaction body)"
proof (rule keepsI)
  fix s
  have "R s (snd (body s s))" using assms by (simp add: keeps_def)
  then show "R s (snd (transaction body s))"
    by (auto simp: transaction_def step_refl split: prod.splits sum.splits)
qed

lemmas keeps_rules = keeps_ret keeps_throw keeps_reads keeps_lift keeps_found
  keeps_require keeps_bindA keeps_catchA keeps_whenA keeps_transaction

end

lemma keeps_snd: "keeps R m \<Longrightarrow> R s (snd (m s))"
  by (simp add: keeps_def)

lemma keeps_if [keeps_intros]:
  "(b \<Longrightarrow> keeps R m) \<Longrightarrow> (\<not> b \<Longrightarrow> keeps R n) \<Longrightarrow> keeps R (if b then m else n)"
  by simp

lemma keeps_option [keeps_intros]:
  "(x = None \<Longrightarrow> keeps R m) \<Longrightarrow> (\<And>y. x = Some y \<Longrightarrow> keeps R (f y)) \<Longrightarrow>
   keeps R (case x of None \<Rightarrow> m | Some y \<Rightarrow> f y)"
  by (cases x) simp_all

lemma keeps_let [keeps_intros]:
  "keeps R (f x) \<Longrightarrow> keeps R (Let x f)"
  by simp

lemma keeps_pair [keeps_intros]:
  "(\<And>a b. p = (a, b) \<Longrightarrow> keeps R (f a b)) \<Longrightarrow> keeps R (case p of (a, b) \<Rightarrow> f a b)"
  by (cases p) simp

section \<open>Tables\<close>

text \<open>
  A table is the list of its rows in insertion order. The combinators are the statements the
  repositories issue: \<open>SELECT ... LIMIT 1\<close>, the same with \<open>ORDER BY key DESC\<close>,
  \<open>UPDATE ... WHERE\<close>, and \<open>DELETE ... WHERE\<close>; \<open>count_where\<close> is the affected row count.
\<close>

definition find_latest :: "('r \<Rightarrow> int) \<Rightarrow> ('r \<Rightarrow> bool) \<Rightarrow> 'r list \<Rightarrow> 'r option" where
  "find_latest key P t = (case sort_key (\<lambda>r. - key r) (filter P t) of [] \<Rightarrow> None | r # _ \<Rightarrow> Some r)"

definition update_where :: "('r \<Rightarrow> bool) \<Rightarrow> ('r \<Rightarrow> 'r) \<Rightarrow> 'r list \<Rightarrow> 'r list" where
  "update_where P f t = map (\<lambda>r. if P r then f r else r) t"

definition count_where :: "('r \<Rightarrow> bool) \<Rightarrow> 'r list \<Rightarrow> nat" where
  "count_where P t = length (filter P t)"

text \<open>Saving an entity: the row with its key is overwritten, or the entity is inserted.\<close>

definition save_row :: "('r \<Rightarrow> uuid) \<Rightarrow> 'r \<Rightarrow> 'r list \<Rightarrow> 'r list" where
  "save_row key e t =
     (if \<exists>r \<in> set t. key r = key e then map (\<lambda>r. if key r = key e then e else r) t else t @ [e])"

definition key_table :: "('r \<Rightarrow> uuid) \<Rightarrow> 'r list \<Rightarrow> bool" where
  "key_table key t \<longleftrightarrow> distinct (map key t)"

lemma find_Some: "List.find P t = Some r \<Longrightarrow> r \<in> set t \<and> P r"
  by (induction t) (auto split: if_splits)

lemma find_None: "List.find P t = None \<longleftrightarrow> (\<forall>r \<in> set t. \<not> P r)"
  by (induction t) auto

lemma find_append:
  "List.find P (xs @ ys) = (case List.find P xs of None \<Rightarrow> List.find P ys | Some x \<Rightarrow> Some x)"
  by (induction xs) auto

lemma find_latest_Some:
  "find_latest key P t = Some r \<Longrightarrow>
   r \<in> set t \<and> P r \<and> (\<forall>r' \<in> set t. P r' \<longrightarrow> key r' \<le> key r)"
proof -
  assume "find_latest key P t = Some r"
  then obtain rs where srt: "sort_key (\<lambda>r. - key r) (filter P t) = r # rs"
    by (auto simp: find_latest_def split: list.splits)
  have s: "sorted (map (\<lambda>r. - key r) (r # rs))"
    using sorted_sort_key [of "\<lambda>r. - key r" "filter P t"] by (simp only: srt)
  have e: "set (r # rs) = {x \<in> set t. P x}"
    using set_sort [of "\<lambda>r. - key r" "filter P t"] by (simp only: srt set_filter)
  then have "r \<in> set t \<and> P r" by auto
  moreover have "key r' \<le> key r" if "r' \<in> set t" "P r'" for r'
  proof -
    from that e have "r' = r \<or> r' \<in> set rs" by auto
    with s show ?thesis by auto
  qed
  ultimately show ?thesis by blast
qed

lemma find_latest_None: "find_latest key P t = None \<longleftrightarrow> (\<forall>r \<in> set t. \<not> P r)"
proof -
  have "find_latest key P t = None \<longleftrightarrow> sort_key (\<lambda>r. - key r) (filter P t) = []"
    by (simp add: find_latest_def split: list.split)
  also have "\<dots> \<longleftrightarrow> set (sort_key (\<lambda>r. - key r) (filter P t)) = {}"
    by (simp only: set_empty)
  also have "\<dots> \<longleftrightarrow> (\<forall>r \<in> set t. \<not> P r)" by (auto simp: filter_empty_conv)
  finally show ?thesis .
qed

lemma length_update_where [simp]: "length (update_where P f t) = length t"
  by (simp add: update_where_def)

lemma nth_update_where:
  "i < length t \<Longrightarrow> update_where P f t ! i = (if P (t ! i) then f (t ! i) else t ! i)"
  by (simp add: update_where_def)

lemma update_where_no_match: "count_where P t = 0 \<Longrightarrow> update_where P f t = t"
  by (auto simp: count_where_def update_where_def filter_empty_conv intro: map_idI)

lemma count_where_pos: "0 < count_where P t \<longleftrightarrow> (\<exists>r \<in> set t. P r)"
  by (auto simp: count_where_def length_greater_0_conv filter_empty_conv)

lemma map_key_update_where:
  "(\<And>r. key (f r) = key r) \<Longrightarrow> map key (update_where P f t) = map key t"
  by (simp add: update_where_def)

lemma key_table_update_where:
  "(\<And>r. key (f r) = key r) \<Longrightarrow> key_table key (update_where P f t) = key_table key t"
  by (simp add: key_table_def map_key_update_where)

lemma key_table_unique:
  "key_table key t \<Longrightarrow> r \<in> set t \<Longrightarrow> r' \<in> set t \<Longrightarrow> key r = key r' \<Longrightarrow> r = r'"
  by (auto simp: key_table_def distinct_map dest: inj_onD)

lemma find_key:
  assumes "key_table key t" and "r \<in> set t" and "P r" and "\<And>x. P x \<Longrightarrow> key x = key r"
  shows "List.find P t = Some r"
proof (cases "List.find P t")
  case None
  with assms(2,3) show ?thesis by (simp add: find_None)
next
  case (Some x)
  then have "x \<in> set t" and "P x" by (auto dest: find_Some)
  with assms have "x = r" by (blast intro: key_table_unique)
  with Some show ?thesis by simp
qed

lemma find_update_where:
  "(\<And>r. P r \<Longrightarrow> Q (f r) = Q r) \<Longrightarrow>
   List.find Q (update_where P f t) = map_option (\<lambda>r. if P r then f r else r) (List.find Q t)"
  by (induction t) (auto simp: update_where_def)

lemma map_key_overwrite: "map key (map (\<lambda>r. if key r = key e then e else r) t) = map key t"
  by simp

lemma key_table_save_row: "key_table key t \<Longrightarrow> key_table key (save_row key e t)"
proof (cases "\<exists>r \<in> set t. key r = key e")
  case True
  assume "key_table key t"
  with True show ?thesis by (simp only: save_row_def key_table_def map_key_overwrite if_True)
next
  case False
  assume "key_table key t"
  with False show ?thesis by (auto simp: save_row_def key_table_def)
qed

lemma find_save_row:
  "List.find (\<lambda>r. key r = key e) (save_row key e t) = Some e"
proof (cases "\<exists>r \<in> set t. key r = key e")
  case True
  then have "List.find (\<lambda>r. key r = key e) (map (\<lambda>r. if key r = key e then e else r) t) = Some e"
    by (induction t) auto
  with True show ?thesis by (simp add: save_row_def)
next
  case False
  then have "List.find (\<lambda>r. key r = key e) (t @ [e]) = Some e"
    by (induction t) auto
  with False show ?thesis by (simp add: save_row_def)
qed

lemma find_unique:
  assumes "r \<in> set t" and "P r" and "\<And>x. x \<in> set t \<Longrightarrow> P x \<Longrightarrow> x = r"
  shows "List.find P t = Some r"
proof (cases "List.find P t")
  case None
  with assms(1,2) show ?thesis by (simp add: find_None)
next
  case (Some x)
  with assms(3) find_Some show ?thesis by metis
qed

lemma overwrite_is_update:
  assumes "key_table key t" and "c \<in> set t"
  shows "update_where (\<lambda>x. key x = key c) f t = save_row key (f c) t \<or> key (f c) \<noteq> key c"
proof -
  have "x = c" if "x \<in> set t" "key x = key c" for x using key_table_unique [OF assms(1) that(1) assms(2) that(2)] .
  then show ?thesis using assms(2) by (auto simp: update_where_def save_row_def)
qed

section \<open>Steps of one table\<close>

text \<open>
  A step of a table: rows keep their place and each is related to what it was; new rows come last
  and satisfy \<open>fresh\<close>. Where the relation on rows is a preorder that keeps \<open>fresh\<close>, the step is a
  preorder.
\<close>

definition rows_step ::
    "('r \<Rightarrow> 'r \<Rightarrow> bool) \<Rightarrow> ('r \<Rightarrow> bool) \<Rightarrow> ('s \<Rightarrow> 'r list) \<Rightarrow> 's \<Rightarrow> 's \<Rightarrow> bool" where
  "rows_step rel fresh rows s s' \<longleftrightarrow>
     length (rows s) \<le> length (rows s')
     \<and> (\<forall>i < length (rows s). rel (rows s ! i) (rows s' ! i))
     \<and> (\<forall>i < length (rows s'). length (rows s) \<le> i \<longrightarrow> fresh (rows s' ! i))"

lemma rows_step_update_where:
  assumes "rows s' = update_where P f (rows s)"
    and "\<And>r. r \<in> set (rows s) \<Longrightarrow> P r \<Longrightarrow> rel r (f r)" and "\<And>r. rel r r"
  shows "rows_step rel fresh rows s s'"
  using assms by (auto simp: rows_step_def nth_update_where)

lemma rows_step_overwrite:
  assumes "rows s' = save_row key e (rows s)" and "r \<in> set (rows s)" and "key r = key e"
    and "\<And>r. r \<in> set (rows s) \<Longrightarrow> key r = key e \<Longrightarrow> rel r e" and "\<And>r. rel r r"
  shows "rows_step rel fresh rows s s'"
proof -
  have "rows s' = map (\<lambda>r. if key r = key e then e else r) (rows s)"
    using assms(1-3) by (auto simp: save_row_def)
  with assms(4,5) show ?thesis by (auto simp: rows_step_def)
qed

lemma rows_step_append:
  assumes "rows s' = rows s @ new" and "\<And>r. rel r r" and "\<And>r. r \<in> set new \<Longrightarrow> fresh r"
  shows "rows_step rel fresh rows s s'"
  using assms by (auto simp: rows_step_def nth_append)

lemma rows_step_row:
  "rows_step rel fresh rows s s' \<Longrightarrow> r \<in> set (rows s) \<Longrightarrow> \<exists>r' \<in> set (rows s'). rel r r'"
  by (metis in_set_conv_nth order_less_le_trans rows_step_def)

lemma rows_step_origin:
  assumes "rows_step rel fresh rows s s'" and "r' \<in> set (rows s')"
  shows "(\<exists>r \<in> set (rows s). rel r r') \<or> fresh r'"
proof -
  from assms(2) obtain i where i: "i < length (rows s')" "r' = rows s' ! i"
    by (auto simp: in_set_conv_nth)
  then show ?thesis
    using assms(1) by (cases "i < length (rows s)") (auto simp: rows_step_def)
qed

lemma rows_step_same: "(\<And>r. rel r r) \<Longrightarrow> rows s' = rows s \<Longrightarrow> rows_step rel fresh rows s s'"
  by (simp add: rows_step_def)

locale table_step =
  fixes rows :: "'s \<Rightarrow> 'r list" and rel :: "'r \<Rightarrow> 'r \<Rightarrow> bool" and fresh :: "'r \<Rightarrow> bool"
  assumes rel_refl: "rel r r"
    and rel_trans: "rel r r' \<Longrightarrow> rel r' r'' \<Longrightarrow> rel r r''"
    and fresh_rel: "fresh r \<Longrightarrow> rel r r' \<Longrightarrow> fresh r'"
begin

lemma rows_step_preorder: "store_preorder (rows_step rel fresh rows)"
proof
  fix s show "rows_step rel fresh rows s s" by (simp add: rows_step_def rel_refl)
next
  fix s t u assume a: "rows_step rel fresh rows s t" "rows_step rel fresh rows t u"
  show "rows_step rel fresh rows s u"
    unfolding rows_step_def
  proof (intro conjI allI impI)
    show "length (rows s) \<le> length (rows u)" using a by (simp add: rows_step_def)
  next
    fix i assume "i < length (rows s)"
    with a have "rel (rows s ! i) (rows t ! i)" "rel (rows t ! i) (rows u ! i)"
      by (auto simp: rows_step_def)
    then show "rel (rows s ! i) (rows u ! i)" by (rule rel_trans)
  next
    fix i assume i: "i < length (rows u)" "length (rows s) \<le> i"
    show "fresh (rows u ! i)"
    proof (cases "i < length (rows t)")
      case True
      with a i have "fresh (rows t ! i)" "rel (rows t ! i) (rows u ! i)" by (auto simp: rows_step_def)
      then show ?thesis by (rule fresh_rel)
    next
      case False
      with a i show ?thesis by (simp add: rows_step_def)
    qed
  qed
qed

end

sublocale table_step \<subseteq> store_preorder "rows_step rel fresh rows"
  by (rule rows_step_preorder)

text \<open>
  Entities are saved by key: while keys are unique, a step keeps them unique and is a step of the
  table, and saving an entity related to the row it was loaded from is such a step.
\<close>

definition keyed_step ::
    "('r \<Rightarrow> uuid) \<Rightarrow> ('r \<Rightarrow> 'r \<Rightarrow> bool) \<Rightarrow> ('r \<Rightarrow> bool) \<Rightarrow> ('s \<Rightarrow> 'r list) \<Rightarrow> 's \<Rightarrow> 's \<Rightarrow> bool" where
  "keyed_step key rel fresh rows s s' \<longleftrightarrow>
     (key_table key (rows s) \<longrightarrow> key_table key (rows s') \<and> rows_step rel fresh rows s s')"

locale keyed_table = table_step +
  fixes key :: "'b \<Rightarrow> uuid"
  assumes rel_key: "rel r r' \<Longrightarrow> key r' = key r"
begin

lemma keyed_preorder: "store_preorder (keyed_step key rel fresh rows)"
  using rows_step_preorder by (auto simp: keyed_step_def store_preorder_def)

lemma keyed_same: "rows s' = rows s \<Longrightarrow> keyed_step key rel fresh rows s s'"
  by (simp add: keyed_step_def rows_step_same rel_refl)

lemma keyed_update:
  assumes "rows s' = update_where P f (rows s)" and "\<And>r. P r \<Longrightarrow> rel r (f r)"
  shows "keyed_step key rel fresh rows s s'"
proof -
  have "map key (rows s') = map key (rows s)"
    unfolding assms(1) update_where_def using rel_key [OF assms(2)] by simp
  then have "key_table key (rows s') = key_table key (rows s)" by (simp add: key_table_def)
  with rows_step_update_where [where rel = rel and fresh = fresh and rows = rows, OF assms(1)] assms(2) show ?thesis
    by (simp add: keyed_step_def rel_refl)
qed

lemma keyed_save:
  assumes "rows s' = save_row key e (rows s)" and "r \<in> set (rows s)" and "rel r e"
  shows "keyed_step key rel fresh rows s s'"
proof -
  have "key r = key e" using rel_key [OF assms(3)] by simp
  moreover have "rel r' e" if "key_table key (rows s)" "r' \<in> set (rows s)" "key r' = key e" for r'
    using key_table_unique [OF that(1,2) assms(2)] that(3) calculation assms(3) by simp
  ultimately show ?thesis
    using assms(1,2) rel_refl
    by (auto simp: keyed_step_def key_table_save_row intro!: rows_step_overwrite [where r = r and e = e and key = key])
qed

lemma keyed_append:
  assumes "rows s' = rows s @ [e]" and "\<forall>r \<in> set (rows s). key r \<noteq> key e" and "fresh e"
  shows "keyed_step key rel fresh rows s s'"
  using assms rel_refl by (auto simp: keyed_step_def key_table_def intro!: rows_step_append [where new = "[e]"])

end

sublocale keyed_table \<subseteq> keyed: store_preorder "keyed_step key rel fresh rows"
  by (rule keyed_preorder)

section \<open>Guarded writes\<close>

text \<open>
  \<open>UPDATE ... WHERE state IN (...)\<close> used as a compare-and-set: the statement reports whether it
  matched a row, and a row it wrote no longer matches. Callers repeat such a write freely, because
  a queue delivers at least once.
\<close>

fun repeatA :: "nat \<Rightarrow> ('s, 'a) act \<Rightarrow> ('s, 'a list) act" where
  "repeatA 0 m = ret []"
| "repeatA (Suc n) m = bindA m (\<lambda>x. bindA (repeatA n m) (\<lambda>xs. ret (x # xs)))"

locale guarded_write =
  fixes rows :: "'s \<Rightarrow> 'r list" and hit :: "'p \<Rightarrow> 'r \<Rightarrow> bool" and upd :: "'p \<Rightarrow> 'r \<Rightarrow> 'r"
    and ready :: "'p \<Rightarrow> bool" and attempt :: "'p \<Rightarrow> ('s, bool) act"
  assumes writes: "attempt p s = (Inr b, s') \<Longrightarrow>
      b = (\<exists>r \<in> set (rows s). hit p r) \<and> rows s' = update_where (hit p) (upd p) (rows s)"
    and fails: "attempt p s = (Inl e, s') \<Longrightarrow> s' = s"
    and leaves: "ready p \<Longrightarrow> \<not> hit p (upd p r)"
begin

lemma no_hit_after:
  assumes "ready p" and "attempt p s = (Inr b, s')"
  shows "\<not> (\<exists>r \<in> set (rows s'). hit p r)"
  using writes [OF assms(2)] leaves [OF assms(1)] by (auto simp: update_where_def)

lemma all_lose:
  assumes "\<not> (\<exists>r \<in> set (rows s). hit p r)" and "repeatA n (attempt p) s = (Inr bs, s')"
  shows "bs = replicate n False \<and> rows s' = rows s"
  using assms
proof (induction n arbitrary: s bs)
  case 0
  then show ?case by (simp add: ret_def)
next
  case (Suc n)
  then obtain b s1 bs1 where w: "attempt p s = (Inr b, s1)" "repeatA n (attempt p) s1 = (Inr bs1, s')"
    "bs = b # bs1"
    by (auto simp: bindA_Inr_iff ret_def)
  have same: "\<not> b" "rows s1 = rows s"
    using writes [OF w(1)] Suc.prems(1) by (auto simp: count_where_pos [symmetric] update_where_no_match)
  with Suc.IH [OF _ w(2)] Suc.prems(1) w(3) show ?case by simp
qed

text \<open>Of any number of deliveries of one write, exactly the first wins, and only if a row matched.\<close>

lemma one_winner:
  assumes "ready p" and "repeatA (Suc n) (attempt p) s = (Inr bs, s')"
  shows "bs = (\<exists>r \<in> set (rows s). hit p r) # replicate n False
    \<and> rows s' = update_where (hit p) (upd p) (rows s)"
proof -
  obtain b s1 bs1 where w: "attempt p s = (Inr b, s1)" "repeatA n (attempt p) s1 = (Inr bs1, s')"
    "bs = b # bs1"
    using assms(2) by (auto simp: bindA_Inr_iff ret_def)
  from all_lose [OF no_hit_after [OF assms(1) w(1)] w(2)] writes [OF w(1)] w(3)
  show ?thesis by simp
qed

end

section \<open>Strings\<close>

text \<open>
  Character classes of the patterns the code uses, on ASCII text, and the string methods:
  \<open>replace(/a/g, b)\<close> for one-character patterns, \<open>startsWith\<close>, \<open>endsWith\<close>, \<open>includes\<close>, \<open>trim\<close>,
  \<open>toLowerCase\<close>, \<open>split(/\<backslash>s+/)\<close> and the \<open>join\<close> of an array.
\<close>

definition js_digit :: "char \<Rightarrow> bool" where
  "js_digit c = (48 \<le> (of_char c :: nat) \<and> (of_char c :: nat) \<le> 57)"

definition js_lower :: "char \<Rightarrow> char" where
  "js_lower c = (let n = (of_char c :: nat) in if 65 \<le> n \<and> n \<le> 90 then char_of (n + 32) else c)"

definition hex_digit :: "char \<Rightarrow> bool" where
  "hex_digit ch = (js_digit ch \<or> (let n = (of_char (js_lower ch) :: nat) in 97 \<le> n \<and> n \<le> 102))"

text \<open>The pattern of a UUID, upper or lower case, that several modules spell out.\<close>

definition uuid_shape :: "string \<Rightarrow> bool" where
  "uuid_shape s =
     (length s = 36
      \<and> list_all (\<lambda>(k, ch). if k \<in> {8, 13, 18, 23} then ch = CHR ''-'' else hex_digit ch) (zip [0..<36] s))"

definition replace_char :: "char \<Rightarrow> char \<Rightarrow> string \<Rightarrow> string" where
  "replace_char a b s = map (\<lambda>c. if c = a then b else c) s"

definition starts_with :: "string \<Rightarrow> string \<Rightarrow> bool" where
  "starts_with s pre \<longleftrightarrow> take (length pre) s = pre"

definition js_includes :: "string \<Rightarrow> string \<Rightarrow> bool" where
  "js_includes s k \<longleftrightarrow> list_ex (\<lambda>i. starts_with (drop i s) k) [0..<Suc (length s)]"

definition replace_all :: "char \<Rightarrow> string \<Rightarrow> string \<Rightarrow> string" where
  "replace_all a by s = concat (map (\<lambda>c. if c = a then by else [c]) s)"

definition js_toLowerCase :: "string \<Rightarrow> string" where
  "js_toLowerCase s = map js_lower s"

definition js_space :: "char \<Rightarrow> bool" where
  "js_space c = ((of_char c :: nat) \<in> {9, 10, 11, 12, 13, 32})"

definition js_trim :: "string \<Rightarrow> string" where
  "js_trim s = rev (dropWhile js_space (rev (dropWhile js_space s)))"

definition quoted :: "string \<Rightarrow> string" where
  "quoted x = [CHR 0x27] @ x @ [CHR 0x27]"

fun js_join :: "string \<Rightarrow> string list \<Rightarrow> string" where
  "js_join sep [] = []"
| "js_join sep [x] = x"
| "js_join sep (x # y # ys) = x @ sep @ js_join sep (y # ys)"

text \<open>The decimal text of a natural number.\<close>

fun js_nat :: "nat \<Rightarrow> string" where
  "js_nat n = (if n < 10 then [char_of (48 + n)] else js_nat (n div 10) @ [char_of (48 + n mod 10)])"

declare js_nat.simps [simp del]

definition ends_with :: "string \<Rightarrow> string \<Rightarrow> bool" where
  "ends_with s suf \<longleftrightarrow> (length suf \<le> length s \<and> drop (length s - length suf) s = suf)"

lemma replace_char_idem [simp]: "a \<noteq> b \<Longrightarrow> replace_char a b (replace_char a b s) = replace_char a b s"
  by (simp add: replace_char_def)

lemma replace_char_absent: "a \<notin> set s \<Longrightarrow> replace_char a b s = s"
  by (auto simp: replace_char_def intro: map_idI)

lemma ends_with_append [simp]: "ends_with (s @ suf) suf"
  by (simp add: ends_with_def)

text \<open>\<open>split(/\<backslash>s+/)\<close>: the pieces between maximal runs of white space, the outer ones possibly empty.\<close>

function split_ws :: "string \<Rightarrow> string list" where
  "split_ws s =
     (case dropWhile (\<lambda>c. \<not> js_space c) s of
        [] \<Rightarrow> [s]
      | rest \<Rightarrow> takeWhile (\<lambda>c. \<not> js_space c) s # split_ws (dropWhile js_space rest))"
  by pat_completeness auto
termination
proof (relation "measure length")
  show "wf (measure length)" by simp
next
  fix s :: string and c cs
  assume d: "dropWhile (\<lambda>c. \<not> js_space c) s = c # cs"
  have "length (c # cs) \<le> length s" unfolding d [symmetric] by (rule length_dropWhile_le)
  moreover have "js_space c" using hd_dropWhile [of "\<lambda>c. \<not> js_space c" s] d by simp
  moreover have "length (dropWhile js_space cs) \<le> length cs" by (rule length_dropWhile_le)
  ultimately show "(dropWhile js_space (c # cs), s) \<in> measure length" by simp
qed

declare split_ws.simps [simp del]

lemma split_ws_pieces: "w \<in> set (split_ws s) \<Longrightarrow> list_all (\<lambda>c. \<not> js_space c) w"
proof (induction s arbitrary: w rule: split_ws.induct)
  case (1 s)
  show ?case
  proof (cases "dropWhile (\<lambda>c. \<not> js_space c) s")
    case Nil
    have "split_ws s = [s]" by (subst split_ws.simps, subst Nil) simp
    with 1(2) Nil show ?thesis by (simp add: list_all_iff dropWhile_eq_Nil_conv)
  next
    case (Cons c cs)
    then have "split_ws s = takeWhile (\<lambda>c. \<not> js_space c) s # split_ws (dropWhile js_space (c # cs))"
      by (subst split_ws.simps) simp
    with 1(2) have "w = takeWhile (\<lambda>c. \<not> js_space c) s \<or> w \<in> set (split_ws (dropWhile js_space (c # cs)))"
      by simp
    then show ?thesis
    proof
      assume "w = takeWhile (\<lambda>c. \<not> js_space c) s"
      then show ?thesis by (auto simp: list_all_iff dest: set_takeWhileD)
    next
      assume "w \<in> set (split_ws (dropWhile js_space (c # cs)))"
      then show ?thesis by (rule 1(1) [OF Cons])
    qed
  qed
qed

end
