(* ===== verification/Operation_Ttl.thy ===== *)
theory Operation_Ttl
  imports Prelude
begin

text \<open>
  Operation states, operation types and the expiry of an operation:
  \<open>operation.entity.ts\<close> (the enum), \<open>operation-type.constants.ts\<close> and
  \<open>operation-ttl.util.ts\<close>.

  JavaScript numbers are rationals here: every value the code computes with is a millisecond count
  or a decimal read from the tenant's configuration, and rounding of the last binary digit is not
  modelled. Finiteness is: a decimal that rounds to infinity as a double is not finite. A
  \<open>Date\<close> is an integral millisecond count, or \<open>None\<close> for an invalid date.
\<close>

section \<open>Operation states and types\<close>

datatype OperationState = OpPending | OpProcessing | OpCompleted | OpFailed

fun operationState_value :: "OperationState \<Rightarrow> string" where
  "operationState_value OpPending = ''pending''"
| "operationState_value OpProcessing = ''processing''"
| "operationState_value OpCompleted = ''completed''"
| "operationState_value OpFailed = ''failed''"

definition OperationState_values :: "OperationState list" where
  "OperationState_values = [OpPending, OpProcessing, OpCompleted, OpFailed]"

abbreviation CREDENTIAL_DEFINITION_REGISTER :: string where
  "CREDENTIAL_DEFINITION_REGISTER \<equiv> ''credential-definition.register''"
abbreviation CREDENTIAL_OFFER :: string where
  "CREDENTIAL_OFFER \<equiv> ''credential.offer''"
abbreviation CREDENTIAL_ISSUE :: string where
  "CREDENTIAL_ISSUE \<equiv> ''credential.issue''"
abbreviation CREDENTIAL_OFFER_BATCH :: string where
  "CREDENTIAL_OFFER_BATCH \<equiv> ''credential.offer-batch''"
abbreviation CREDENTIAL_ACCEPT :: string where
  "CREDENTIAL_ACCEPT \<equiv> ''credential.accept''"
abbreviation CREDENTIAL_REJECT :: string where
  "CREDENTIAL_REJECT \<equiv> ''credential.reject''"
abbreviation CREDENTIAL_REVOKE :: string where
  "CREDENTIAL_REVOKE \<equiv> ''credential.revoke''"
abbreviation CREDENTIAL_REVOKE_BATCH :: string where
  "CREDENTIAL_REVOKE_BATCH \<equiv> ''credential.revoke-batch''"
abbreviation PRESENTATION_REQUEST :: string where
  "PRESENTATION_REQUEST \<equiv> ''presentation.request''"
abbreviation CONNECTION_CREATE :: string where
  "CONNECTION_CREATE \<equiv> ''connection.create''"

definition OPERATION_TYPE :: "string list" where
  "OPERATION_TYPE =
     [CREDENTIAL_DEFINITION_REGISTER, CREDENTIAL_OFFER, CREDENTIAL_ISSUE, CREDENTIAL_OFFER_BATCH,
      CREDENTIAL_ACCEPT, CREDENTIAL_REJECT, CREDENTIAL_REVOKE, CREDENTIAL_REVOKE_BATCH,
      PRESENTATION_REQUEST, CONNECTION_CREATE]"

definition isBatchOperationType :: "string \<Rightarrow> bool" where
  "isBatchOperationType type = ends_with type ''-batch''"

definition isKnownOperationType :: "string \<Rightarrow> bool" where
  "isKnownOperationType type = (type \<in> set OPERATION_TYPE)"

definition isTerminalOperationState :: "OperationState \<Rightarrow> bool" where
  "isTerminalOperationState state = (state = OpCompleted \<or> state = OpFailed)"

section \<open>Durations\<close>

definition HOUR_MS :: int where "HOUR_MS = 60 * 60 * 1000"
definition DAY_MS :: int where "DAY_MS = 24 * HOUR_MS"
definition DEFAULT_CREATED_TTL_MS :: int where "DEFAULT_CREATED_TTL_MS = 72 * HOUR_MS"

record ttl_config =
  completedViewed :: rat
  completedUnviewed :: rat
  failedViewed :: rat
  failedUnviewed :: rat
  pendingStale :: rat

definition DEFAULT_OPERATION_TTL_MS :: ttl_config where
  "DEFAULT_OPERATION_TTL_MS =
     \<lparr>completedViewed = of_int (1 * HOUR_MS), completedUnviewed = of_int (72 * HOUR_MS),
      failedViewed = of_int (24 * HOUR_MS), failedUnviewed = of_int (7 * DAY_MS),
      pendingStale = of_int (24 * HOUR_MS)\<rparr>"

text \<open>\<open>Number.isFinite\<close> of a decimal: the doubles end at the value that rounds up to \<open>2 ^ 1024\<close>.\<close>

definition js_isFinite :: "rat \<Rightarrow> bool" where
  "js_isFinite r = (\<bar>r\<bar> < 2 ^ 1024 - 2 ^ 970)"

definition js_space :: "char \<Rightarrow> bool" where
  "js_space c = ((of_char c :: nat) \<in> {9, 10, 11, 12, 13, 32, 160})"

definition js_trim :: "string \<Rightarrow> string" where
  "js_trim s = rev (dropWhile js_space (rev (dropWhile js_space s)))"

definition digits_value :: "string \<Rightarrow> nat" where
  "digits_value ds = foldl (\<lambda>n c. 10 * n + ((of_char c :: nat) - 48)) 0 ds"

text \<open>
  The capture groups of \<open>/^(\d+(?:\.\d+)?)(ms|s|m|h|d)$/i\<close>: the amount, as \<open>parseFloat\<close> reads it,
  and the unit in lower case. Digits, the point and the unit letters are disjoint, so the match is
  unique and one pass finds it.
\<close>

definition UNIT_TO_MS :: "string \<Rightarrow> int option" where
  "UNIT_TO_MS u = map_of [(''ms'', 1), (''s'', 1000), (''m'', 60 * 1000), (''h'', HOUR_MS), (''d'', DAY_MS)] u"

definition fraction_part :: "string \<Rightarrow> (rat \<times> string) option" where
  "fraction_part s =
     (case s of
        [] \<Rightarrow> Some (0, s)
      | c # cs \<Rightarrow>
          if c = CHR ''.'' then
            (let ds = takeWhile js_digit cs
             in if ds = [] then None
                else Some (of_nat (digits_value ds) / 10 ^ length ds, dropWhile js_digit cs))
          else Some (0, s))"

definition DURATION_PATTERN :: "string \<Rightarrow> (rat \<times> string) option" where
  "DURATION_PATTERN s =
     (let ds = takeWhile js_digit s
      in if ds = [] then None
         else case fraction_part (dropWhile js_digit s) of
                None \<Rightarrow> None
              | Some (fractional, rest) \<Rightarrow>
                  (let unit = map js_lower rest
                   in if unit \<in> {''ms'', ''s'', ''m'', ''h'', ''d''}
                      then Some (of_nat (digits_value ds) + fractional, unit) else None))"

definition parseDurationMs :: "json \<Rightarrow> rat option" where
  "parseDurationMs value =
     (case value of
        JNum n \<Rightarrow> if js_isFinite n \<and> n > 0 then Some n else None
      | JStr s \<Rightarrow>
          (case DURATION_PATTERN (js_trim s) of
             None \<Rightarrow> None
           | Some (amount, unit) \<Rightarrow>
               (case UNIT_TO_MS unit of
                  None \<Rightarrow> None
                | Some multiplier \<Rightarrow>
                    if \<not> js_isFinite amount \<or> amount \<le> 0 then None
                    else Some (amount * of_int multiplier)))
      | _ \<Rightarrow> None)"

section \<open>Expiry\<close>

definition ttl_override :: "json \<Rightarrow> string \<Rightarrow> rat \<Rightarrow> rat" where
  "ttl_override rawOverrides configKey dflt =
     (case jget rawOverrides configKey of
        None \<Rightarrow> dflt
      | Some rawValue \<Rightarrow> (case parseDurationMs rawValue of None \<Rightarrow> dflt | Some parsed \<Rightarrow> parsed))"

definition resolveOperationTtlMs :: "json \<Rightarrow> ttl_config" where
  "resolveOperationTtlMs tenantConfig =
     (let raw = (case jget tenantConfig ''operation_ttl'' of None \<Rightarrow> JObj [] | Some j \<Rightarrow> j);
          d = DEFAULT_OPERATION_TTL_MS
      in \<lparr>completedViewed = ttl_override raw ''completed_viewed'' (completedViewed d),
          completedUnviewed = ttl_override raw ''completed_unviewed'' (completedUnviewed d),
          failedViewed = ttl_override raw ''failed_viewed'' (failedViewed d),
          failedUnviewed = ttl_override raw ''failed_unviewed'' (failedUnviewed d),
          pendingStale = ttl_override raw ''pending_stale'' (pendingStale d)\<rparr>)"

text \<open>\<open>new Date(t)\<close>: truncation to an integer, and the range a \<open>Date\<close> can hold.\<close>

definition js_Date :: "rat \<Rightarrow> int option" where
  "js_Date t = (if \<bar>t\<bar> \<le> 8640000000000000 then Some (if 0 \<le> t then \<lfloor>t\<rfloor> else \<lceil>t\<rceil>) else None)"

definition computeOperationExpiresAt ::
    "OperationState \<Rightarrow> int \<Rightarrow> int option \<Rightarrow> json \<Rightarrow> int option" where
  "computeOperationExpiresAt state createdAt viewedAt tenantConfig =
     (let ttl = resolveOperationTtlMs tenantConfig
      in case state of
           OpPending \<Rightarrow> js_Date (of_int createdAt + pendingStale ttl)
         | OpProcessing \<Rightarrow> js_Date (of_int (createdAt + DEFAULT_CREATED_TTL_MS))
         | OpCompleted \<Rightarrow>
             (case viewedAt of
                Some v \<Rightarrow> js_Date (of_int v + completedViewed ttl)
              | None \<Rightarrow> js_Date (of_int createdAt + completedUnviewed ttl))
         | OpFailed \<Rightarrow>
             (case viewedAt of
                Some v \<Rightarrow> js_Date (of_int v + failedViewed ttl)
              | None \<Rightarrow> js_Date (of_int createdAt + failedUnviewed ttl)))"

section \<open>Properties of durations and expiry\<close>

lemma parseDurationMs_pos: "parseDurationMs v = Some d \<Longrightarrow> 0 < d"
proof -
  assume h: "parseDurationMs v = Some d"
  have unit_pos: "0 < m" if "UNIT_TO_MS u = Some m" for u m
    using that by (auto simp: UNIT_TO_MS_def HOUR_MS_def DAY_MS_def split: if_splits)
  from h show ?thesis
    by (cases v)
       (auto simp: parseDurationMs_def not_le split: if_splits option.splits prod.splits
          dest: unit_pos)
qed

lemma ttl_override_pos: "0 < dflt \<Longrightarrow> 0 < ttl_override raw k dflt"
  by (auto simp: ttl_override_def split: option.split dest: parseDurationMs_pos)

lemma ttl_override_invalid:
  "jget raw k = None \<or> (\<exists>v. jget raw k = Some v \<and> parseDurationMs v = None) \<Longrightarrow>
   ttl_override raw k dflt = dflt"
  by (auto simp: ttl_override_def)

lemma default_ttl_pos:
  "0 < completedViewed DEFAULT_OPERATION_TTL_MS" "0 < completedUnviewed DEFAULT_OPERATION_TTL_MS"
  "0 < failedViewed DEFAULT_OPERATION_TTL_MS" "0 < failedUnviewed DEFAULT_OPERATION_TTL_MS"
  "0 < pendingStale DEFAULT_OPERATION_TTL_MS"
  by (simp_all add: DEFAULT_OPERATION_TTL_MS_def HOUR_MS_def DAY_MS_def)

lemma resolved_ttl_pos:
  "0 < completedViewed (resolveOperationTtlMs cfg)" "0 < completedUnviewed (resolveOperationTtlMs cfg)"
  "0 < failedViewed (resolveOperationTtlMs cfg)" "0 < failedUnviewed (resolveOperationTtlMs cfg)"
  "0 < pendingStale (resolveOperationTtlMs cfg)"
  by (simp_all add: resolveOperationTtlMs_def Let_def ttl_override_pos default_ttl_pos)

lemma js_Date_ge: "js_Date (of_int a + d) = Some e \<Longrightarrow> 0 < d \<Longrightarrow> a \<le> e"
proof -
  assume h: "js_Date (of_int a + d) = Some e" and d: "0 < d"
  have "a \<le> \<lfloor>of_int a + d\<rfloor>" using d by (simp add: le_floor_iff)
  moreover have "a \<le> \<lceil>of_int a + d\<rceil>"
    using d by (metis add.right_neutral add_le_cancel_left ceiling_mono ceiling_of_int less_imp_le)
  ultimately show ?thesis using h by (auto simp: js_Date_def split: if_splits)
qed

lemma js_Date_of_int: "\<bar>a\<bar> \<le> 8640000000000000 \<Longrightarrow> js_Date (of_int a) = Some a"
proof -
  assume h: "\<bar>a\<bar> \<le> 8640000000000000"
  have "\<bar>of_int a :: rat\<bar> = of_int \<bar>a\<bar>" by simp
  also have "\<dots> \<le> of_int 8640000000000000" using h by (simp only: of_int_le_iff)
  finally show ?thesis by (simp add: js_Date_def)
qed

lemma computeOperationExpiresAt_viewed_irrelevant:
  "\<not> isTerminalOperationState state \<Longrightarrow>
   computeOperationExpiresAt state c v cfg = computeOperationExpiresAt state c v' cfg"
  by (cases state) (auto simp: computeOperationExpiresAt_def isTerminalOperationState_def)

text \<open>
  The expiry of an operation never precedes the instant it is counted from: the first view
  of a viewed terminal operation, the creation otherwise, whatever the tenant configured.
\<close>

theorem expires_after_reference:
  assumes "computeOperationExpiresAt state createdAt viewedAt tenantConfig = Some e"
  shows "(case viewedAt of
            Some v \<Rightarrow> if isTerminalOperationState state then v \<le> e else createdAt \<le> e
          | None \<Rightarrow> createdAt \<le> e)"
  using assms
  by (cases state; cases viewedAt)
     (auto simp: computeOperationExpiresAt_def isTerminalOperationState_def Let_def resolved_ttl_pos
        DEFAULT_CREATED_TTL_MS_def HOUR_MS_def dest: js_Date_ge)

theorem expires_after_reference_witness:
  "computeOperationExpiresAt OpFailed 100 (Some 200) (JObj []) = Some 86400200 \<and> (200::int) \<le> 86400200"
proof -
  have e: "computeOperationExpiresAt OpFailed 100 (Some 200) (JObj []) = Some 86400200" by code_simp
  from expires_after_reference [OF e] e show ?thesis by (simp add: isTerminalOperationState_def)
qed

end
