(* ===== verification/State_Mapping.thy ===== *)
theory State_Mapping
  imports Operation_Ttl
begin

text \<open>
  The agent's protocol states and what they mean for the service's own records:
  \<open>protocol-state-change/state-mapping.ts\<close>, with the enumerations of
  \<open>libs/credential-ports/src/enums\<close>, \<open>connection.entity.ts\<close> and \<open>credential.entity.ts\<close>.

  The lookup tables of the source are plain objects, so indexing one with a string also finds the
  members every object inherits. A lookup therefore has three outcomes: an own entry, an inherited
  member, or \<open>undefined\<close>. Every property the code reads off an inherited member is \<open>undefined\<close>.
\<close>

section \<open>Enumerations\<close>

datatype ConnectionState =
  ConnInvited | ConnRequested | ConnResponded | ConnActive | ConnCompleted | ConnAbandoned

fun connectionState_value :: "ConnectionState \<Rightarrow> string" where
  "connectionState_value ConnInvited = ''invited''"
| "connectionState_value ConnRequested = ''requested''"
| "connectionState_value ConnResponded = ''responded''"
| "connectionState_value ConnActive = ''active''"
| "connectionState_value ConnCompleted = ''completed''"
| "connectionState_value ConnAbandoned = ''abandoned''"

definition ConnectionState_values :: "ConnectionState list" where
  "ConnectionState_values =
     [ConnInvited, ConnRequested, ConnResponded, ConnActive, ConnCompleted, ConnAbandoned]"

datatype CredentialState = CredOffered | CredIssued | CredRevoked | CredExpired | CredFailed

datatype AgentConnectionState =
  AgentInvitation | AgentRequest | AgentResponse | AgentActive | AgentCompleted | AgentError

fun agentConnectionState_value :: "AgentConnectionState \<Rightarrow> string" where
  "agentConnectionState_value AgentInvitation = ''invitation''"
| "agentConnectionState_value AgentRequest = ''request''"
| "agentConnectionState_value AgentResponse = ''response''"
| "agentConnectionState_value AgentActive = ''active''"
| "agentConnectionState_value AgentCompleted = ''completed''"
| "agentConnectionState_value AgentError = ''error''"

datatype CredentialExchangeState =
    ProposalSent | OfferSent | OfferReceived | RequestSent | RequestReceived
  | CredentialIssued | CredentialReceived | ExchangeDone | ExchangeAbandoned

fun credentialExchangeState_value :: "CredentialExchangeState \<Rightarrow> string" where
  "credentialExchangeState_value ProposalSent = ''proposal-sent''"
| "credentialExchangeState_value OfferSent = ''offer-sent''"
| "credentialExchangeState_value OfferReceived = ''offer-received''"
| "credentialExchangeState_value RequestSent = ''request-sent''"
| "credentialExchangeState_value RequestReceived = ''request-received''"
| "credentialExchangeState_value CredentialIssued = ''credential-issued''"
| "credentialExchangeState_value CredentialReceived = ''credential-received''"
| "credentialExchangeState_value ExchangeDone = ''done''"
| "credentialExchangeState_value ExchangeAbandoned = ''abandoned''"

definition CredentialExchangeState_values :: "CredentialExchangeState list" where
  "CredentialExchangeState_values =
     [ProposalSent, OfferSent, OfferReceived, RequestSent, RequestReceived, CredentialIssued,
      CredentialReceived, ExchangeDone, ExchangeAbandoned]"

datatype PresentationExchangeState =
    PresRequestSent | PresRequestReceived | PresentationSent | PresentationReceived
  | PresVerified | PresAbandoned | PresDone

fun presentationExchangeState_value :: "PresentationExchangeState \<Rightarrow> string" where
  "presentationExchangeState_value PresRequestSent = ''request-sent''"
| "presentationExchangeState_value PresRequestReceived = ''request-received''"
| "presentationExchangeState_value PresentationSent = ''presentation-sent''"
| "presentationExchangeState_value PresentationReceived = ''presentation-received''"
| "presentationExchangeState_value PresVerified = ''verified''"
| "presentationExchangeState_value PresAbandoned = ''abandoned''"
| "presentationExchangeState_value PresDone = ''done''"

definition PresentationExchangeState_values :: "PresentationExchangeState list" where
  "PresentationExchangeState_values =
     [PresRequestSent, PresRequestReceived, PresentationSent, PresentationReceived, PresVerified,
      PresAbandoned, PresDone]"

datatype ProtocolTopic = issue_credential | present_proof | connections_topic | revocation_registry

fun topic_value :: "ProtocolTopic \<Rightarrow> string" where
  "topic_value issue_credential = ''issue_credential''"
| "topic_value present_proof = ''present_proof''"
| "topic_value connections_topic = ''connections''"
| "topic_value revocation_registry = ''revocation_registry''"

fun TOPIC_OPERATION_TYPES :: "ProtocolTopic \<Rightarrow> string list" where
  "TOPIC_OPERATION_TYPES issue_credential =
     [CREDENTIAL_OFFER, CREDENTIAL_ISSUE, CREDENTIAL_OFFER_BATCH, CREDENTIAL_ACCEPT, CREDENTIAL_REJECT]"
| "TOPIC_OPERATION_TYPES revocation_registry = [CREDENTIAL_REVOKE, CREDENTIAL_REVOKE_BATCH]"
| "TOPIC_OPERATION_TYPES present_proof = [PRESENTATION_REQUEST]"
| "TOPIC_OPERATION_TYPES connections_topic = [CONNECTION_CREATE]"

section \<open>Ranks and transition matrices\<close>

fun OPERATION_STATE_RANK :: "OperationState \<Rightarrow> nat" where
  "OPERATION_STATE_RANK OpPending = 0"
| "OPERATION_STATE_RANK OpProcessing = 1"
| "OPERATION_STATE_RANK OpCompleted = 2"
| "OPERATION_STATE_RANK OpFailed = 2"

fun CREDENTIAL_ALLOWED_FROM_STATES :: "CredentialState \<Rightarrow> CredentialState list" where
  "CREDENTIAL_ALLOWED_FROM_STATES CredOffered = []"
| "CREDENTIAL_ALLOWED_FROM_STATES CredIssued = [CredOffered]"
| "CREDENTIAL_ALLOWED_FROM_STATES CredFailed = [CredOffered]"
| "CREDENTIAL_ALLOWED_FROM_STATES CredRevoked = [CredIssued]"
| "CREDENTIAL_ALLOWED_FROM_STATES CredExpired = [CredOffered]"

fun CONNECTION_STATE_RANK :: "ConnectionState \<Rightarrow> nat" where
  "CONNECTION_STATE_RANK ConnInvited = 0"
| "CONNECTION_STATE_RANK ConnRequested = 1"
| "CONNECTION_STATE_RANK ConnResponded = 2"
| "CONNECTION_STATE_RANK ConnActive = 3"
| "CONNECTION_STATE_RANK ConnCompleted = 4"
| "CONNECTION_STATE_RANK ConnAbandoned = 4"

definition isForwardOperationTransition :: "OperationState \<Rightarrow> OperationState \<Rightarrow> bool" where
  "isForwardOperationTransition from to = (OPERATION_STATE_RANK to > OPERATION_STATE_RANK from)"

definition isForwardCredentialTransition :: "CredentialState \<Rightarrow> CredentialState \<Rightarrow> bool" where
  "isForwardCredentialTransition from to = (from \<in> set (CREDENTIAL_ALLOWED_FROM_STATES to))"

definition isForwardConnectionTransition :: "ConnectionState \<Rightarrow> ConnectionState \<Rightarrow> bool" where
  "isForwardConnectionTransition from to = (CONNECTION_STATE_RANK to > CONNECTION_STATE_RANK from)"

definition operationStatesBelow :: "OperationState \<Rightarrow> OperationState list" where
  "operationStatesBelow target =
     (let targetRank = OPERATION_STATE_RANK target
      in filter (\<lambda>state. OPERATION_STATE_RANK state < targetRank) OperationState_values)"

definition credentialStatesBelow :: "CredentialState \<Rightarrow> CredentialState list" where
  "credentialStatesBelow target = CREDENTIAL_ALLOWED_FROM_STATES target"

definition connectionStatesBelow :: "ConnectionState \<Rightarrow> ConnectionState list" where
  "connectionStatesBelow target =
     (let targetRank = CONNECTION_STATE_RANK target
      in filter (\<lambda>state. CONNECTION_STATE_RANK state < targetRank) ConnectionState_values)"

section \<open>Outcomes\<close>

datatype 'a js_prop = Own 'a | Inherited | Undefined

definition OBJECT_PROTOTYPE :: "string list" where
  "OBJECT_PROTOTYPE =
     [''constructor'', ''__defineGetter__'', ''__defineSetter__'', ''hasOwnProperty'',
      ''__lookupGetter__'', ''__lookupSetter__'', ''isPrototypeOf'', ''propertyIsEnumerable'',
      ''toString'', ''valueOf'', ''__proto__'', ''toLocaleString'']"

definition js_get :: "(string \<times> 'a) list \<Rightarrow> string \<Rightarrow> 'a js_prop" where
  "js_get t k =
     (case map_of t k of
        Some v \<Rightarrow> Own v
      | None \<Rightarrow> if k \<in> set OBJECT_PROTOTYPE then Inherited else Undefined)"

record ProtocolOutcome =
  out_operationState :: "OperationState option"
  out_credentialState :: "CredentialState option"
  out_connectionState :: "ConnectionState js_prop"
  out_event :: "string option"

definition inherited_outcome :: ProtocolOutcome where
  "inherited_outcome =
     \<lparr>out_operationState = None, out_credentialState = None, out_connectionState = Undefined,
      out_event = None\<rparr>"

definition ISSUE_CREDENTIAL_OUTCOMES :: "(string \<times> ProtocolOutcome) list" where
  "ISSUE_CREDENTIAL_OUTCOMES =
     [(credentialExchangeState_value CredentialIssued,
       \<lparr>out_operationState = Some OpCompleted, out_credentialState = Some CredIssued,
        out_connectionState = Undefined, out_event = Some ''credential.issued''\<rparr>),
      (credentialExchangeState_value ExchangeDone,
       \<lparr>out_operationState = Some OpCompleted, out_credentialState = Some CredIssued,
        out_connectionState = Undefined, out_event = Some ''credential.issued''\<rparr>),
      (credentialExchangeState_value ExchangeAbandoned,
       \<lparr>out_operationState = Some OpFailed, out_credentialState = Some CredFailed,
        out_connectionState = Undefined, out_event = Some ''credential.rejected''\<rparr>)]"

definition PRESENT_PROOF_OUTCOMES :: "(string \<times> ProtocolOutcome) list" where
  "PRESENT_PROOF_OUTCOMES =
     [(presentationExchangeState_value PresVerified,
       \<lparr>out_operationState = Some OpCompleted, out_credentialState = None,
        out_connectionState = Undefined, out_event = Some ''credential.verified''\<rparr>),
      (presentationExchangeState_value PresDone,
       \<lparr>out_operationState = Some OpCompleted, out_credentialState = None,
        out_connectionState = Undefined, out_event = Some ''credential.verified''\<rparr>),
      (presentationExchangeState_value PresAbandoned,
       \<lparr>out_operationState = Some OpFailed, out_credentialState = None,
        out_connectionState = Undefined, out_event = None\<rparr>)]"

definition AGENT_TO_CONNECTION_STATE :: "(string \<times> ConnectionState) list" where
  "AGENT_TO_CONNECTION_STATE =
     [(agentConnectionState_value AgentInvitation, ConnInvited),
      (agentConnectionState_value AgentRequest, ConnRequested),
      (agentConnectionState_value AgentResponse, ConnResponded),
      (agentConnectionState_value AgentActive, ConnActive),
      (agentConnectionState_value AgentCompleted, ConnCompleted),
      (agentConnectionState_value AgentError, ConnAbandoned)]"

definition resolveFromTable ::
    "(string \<times> ProtocolOutcome) list \<Rightarrow> string list \<Rightarrow> string \<Rightarrow> ProtocolOutcome option" where
  "resolveFromTable table knownStates protocolState =
     (case js_get table protocolState of
        Own outcome \<Rightarrow> Some outcome
      | Inherited \<Rightarrow> Some inherited_outcome
      | Undefined \<Rightarrow>
          if protocolState \<notin> set knownStates then None
          else Some \<lparr>out_operationState = Some OpProcessing, out_credentialState = None,
                     out_connectionState = Undefined, out_event = None\<rparr>)"

definition resolveConnectionsOutcome :: "string \<Rightarrow> ProtocolOutcome option" where
  "resolveConnectionsOutcome protocolState =
     (let mapped = js_get AGENT_TO_CONNECTION_STATE protocolState
      in if mapped = Undefined then None
         else if mapped = Own ConnAbandoned then
           Some \<lparr>out_operationState = Some OpFailed, out_credentialState = None,
                 out_connectionState = mapped, out_event = None\<rparr>
         else if mapped = Own ConnActive \<or> mapped = Own ConnCompleted then
           Some \<lparr>out_operationState = Some OpCompleted, out_credentialState = None,
                 out_connectionState = mapped,
                 out_event = (if mapped = Own ConnActive then Some ''connection.established'' else None)\<rparr>
         else
           Some \<lparr>out_operationState = Some OpProcessing, out_credentialState = None,
                 out_connectionState = mapped, out_event = None\<rparr>)"

definition resolveProtocolOutcome :: "ProtocolTopic \<Rightarrow> string \<Rightarrow> ProtocolOutcome option" where
  "resolveProtocolOutcome topic protocolState =
     (let normalizedState = replace_char (CHR ''_'') (CHR ''-'') protocolState
      in case topic of
           issue_credential \<Rightarrow>
             resolveFromTable ISSUE_CREDENTIAL_OUTCOMES
               (map credentialExchangeState_value CredentialExchangeState_values) normalizedState
         | present_proof \<Rightarrow>
             resolveFromTable PRESENT_PROOF_OUTCOMES
               (map presentationExchangeState_value PresentationExchangeState_values) normalizedState
         | connections_topic \<Rightarrow> resolveConnectionsOutcome normalizedState
         | revocation_registry \<Rightarrow>
             if normalizedState = ''revoked'' then
               Some \<lparr>out_operationState = Some OpCompleted, out_credentialState = Some CredRevoked,
                     out_connectionState = Undefined, out_event = Some ''credential.revoked''\<rparr>
             else None)"

section \<open>Properties of the transition tables\<close>

lemma operationStatesBelow_iff:
  "from \<in> set (operationStatesBelow to) \<longleftrightarrow> isForwardOperationTransition from to"
  by (cases "from"; cases to)
     (simp_all add: operationStatesBelow_def isForwardOperationTransition_def OperationState_values_def)

lemma connectionStatesBelow_iff:
  "from \<in> set (connectionStatesBelow to) \<longleftrightarrow> isForwardConnectionTransition from to"
  by (cases "from"; cases to)
     (simp_all add: connectionStatesBelow_def isForwardConnectionTransition_def
        ConnectionState_values_def)

lemma credentialStatesBelow_iff:
  "from \<in> set (credentialStatesBelow to) \<longleftrightarrow> isForwardCredentialTransition from to"
  by (simp add: credentialStatesBelow_def isForwardCredentialTransition_def)

text \<open>
  C29 No record cycles. Operations, credentials and connections move along acyclic relations, and a
  settled operation, a failed, revoked or expired credential and a completed or abandoned connection
  have no successor at all.
\<close>

theorem state_moves_acyclic:
  "acyclic {(a, b). isForwardOperationTransition a b}
   \<and> acyclic {(a, b). isForwardCredentialTransition a b}
   \<and> acyclic {(a, b). isForwardConnectionTransition a b}
   \<and> (\<forall>b. \<not> isForwardOperationTransition OpCompleted b \<and> \<not> isForwardOperationTransition OpFailed b)
   \<and> (\<forall>b. \<not> isForwardCredentialTransition CredFailed b \<and> \<not> isForwardCredentialTransition CredRevoked b
        \<and> \<not> isForwardCredentialTransition CredExpired b)
   \<and> (\<forall>b. \<not> isForwardConnectionTransition ConnCompleted b \<and> \<not> isForwardConnectionTransition ConnAbandoned b)"
proof -
  have acyc: "acyclic {(a, b). P a b}" if "\<And>a b. P a b \<Longrightarrow> f a < (f b :: nat)" for P and f :: "'s \<Rightarrow> nat"
  proof (rule wf_acyclic [OF wf_subset])
    show "wf (inv_image less_than f)" by simp
  qed (auto dest: that)
  let ?rank = "\<lambda>c. case c of CredOffered \<Rightarrow> 0 | CredIssued \<Rightarrow> 1 | _ \<Rightarrow> (2 :: nat)"
  have "isForwardCredentialTransition a b \<Longrightarrow> ?rank a < ?rank b" for a b
    by (cases a; cases b) (simp_all add: isForwardCredentialTransition_def)
  then have "acyclic {(a, b). isForwardCredentialTransition a b}" by (rule acyc)
  moreover have "acyclic {(a, b). isForwardOperationTransition a b}"
    by (rule acyc [of _ OPERATION_STATE_RANK]) (simp add: isForwardOperationTransition_def)
  moreover have "acyclic {(a, b). isForwardConnectionTransition a b}"
    by (rule acyc [of _ CONNECTION_STATE_RANK]) (simp add: isForwardConnectionTransition_def)
  moreover have "\<not> isForwardOperationTransition a b" if "a \<in> {OpCompleted, OpFailed}" for a b
    using that by (cases b) (auto simp: isForwardOperationTransition_def)
  moreover have "\<not> isForwardCredentialTransition a b" if "a \<in> {CredFailed, CredRevoked, CredExpired}" for a b
    using that by (cases b) (auto simp: isForwardCredentialTransition_def)
  moreover have "\<not> isForwardConnectionTransition a b" if "a \<in> {ConnCompleted, ConnAbandoned}" for a b
    using that by (cases b) (auto simp: isForwardConnectionTransition_def)
  ultimately show ?thesis by simp
qed

section \<open>Which protocol states are recognised\<close>

fun recognised_states :: "ProtocolTopic \<Rightarrow> string list" where
  "recognised_states issue_credential = map credentialExchangeState_value CredentialExchangeState_values"
| "recognised_states present_proof = map presentationExchangeState_value PresentationExchangeState_values"
| "recognised_states connections_topic =
     [''invitation'', ''request'', ''response'', ''active'', ''completed'', ''error'']"
| "recognised_states revocation_registry = [''revoked'']"

lemma js_get_iff:
  "js_get t k \<noteq> Undefined \<longleftrightarrow> k \<in> fst ` set t \<or> k \<in> set OBJECT_PROTOTYPE"
  using map_of_eq_None_iff [of t k] by (auto simp: js_get_def split: option.splits)

lemma resolveFromTable_iff:
  "fst ` set table \<subseteq> set known \<Longrightarrow>
   resolveFromTable table known p \<noteq> None \<longleftrightarrow> p \<in> set known \<or> p \<in> set OBJECT_PROTOTYPE"
  using js_get_iff [of table p] by (auto simp: resolveFromTable_def split: js_prop.splits)

lemma resolveConnectionsOutcome_iff:
  "resolveConnectionsOutcome p \<noteq> None \<longleftrightarrow> js_get AGENT_TO_CONNECTION_STATE p \<noteq> Undefined"
  by (auto simp: resolveConnectionsOutcome_def Let_def)


text \<open>
  A member name is not a state of any topic, and yet it resolves: an issuance event in the state
  \<open>constructor\<close> yields an outcome without any state, and a connection event in that state yields one
  that moves the operation on and carries a connection state that is no state at all.
\<close>

theorem inherited_name_resolves:
  "''constructor'' \<notin> set (recognised_states topic)
   \<and> resolveProtocolOutcome issue_credential ''constructor'' = Some inherited_outcome
   \<and> map_option out_operationState (resolveProtocolOutcome connections_topic ''constructor'') = Some (Some OpProcessing)
   \<and> map_option out_connectionState (resolveProtocolOutcome connections_topic ''constructor'') = Some Inherited"
proof -
  have "''constructor'' \<notin> set (recognised_states topic)"
    by (cases topic) (simp_all add: CredentialExchangeState_values_def PresentationExchangeState_values_def)
  moreover have "resolveProtocolOutcome issue_credential ''constructor'' = Some inherited_outcome" by code_simp
  moreover have "map_option out_operationState (resolveProtocolOutcome connections_topic ''constructor'') = Some (Some OpProcessing)"
    by code_simp
  moreover have "map_option out_connectionState (resolveProtocolOutcome connections_topic ''constructor'') = Some Inherited"
    by code_simp
  ultimately show ?thesis by blast
qed

end
