(* ===== verification/Database.thy ===== *)
theory Database
  imports State_Mapping
begin

text \<open>
  The rows the services share and the store that holds them: the TypeORM entities
  \<open>operation\<close>, \<open>credential\<close>, \<open>connection\<close>, \<open>credential_exchange\<close>, \<open>tenant\<close>, \<open>tenant_user\<close>,
  \<open>oauth_client\<close>, \<open>connector_credential\<close>, \<open>oidc_model\<close>, \<open>rate_limit_hits\<close>, the credential definitions
  and the issuance and verification profiles, the scope tables, the jobs put into the queue, the audit
  rows, and the in-process events, counters and cache.

  Database timestamps are microseconds; a \<open>Date\<close> read from one keeps whole milliseconds. A write
  that would break a unique index of the migrations is refused with SQL state 23505 and changes
  nothing. A queue insert may fail; the environment says which.
\<close>

section \<open>Entities\<close>

record OperationRequest =
  req_method :: string
  req_path :: string
  req_body :: json

record operation =
  op_id :: uuid
  op_tenantId :: uuid
  op_batchId :: "uuid option"
  op_type :: string
  op_state :: OperationState
  op_request :: OperationRequest
  op_result :: json
  op_externalId :: "string option"
  op_exchangeId :: "uuid option"
  op_viewedAt :: "int option"
  op_expiresAt :: int
  op_createdAt :: int
  op_updatedAt :: int

datatype CredentialDefinitionFormat = FmtAnoncreds | FmtSdJwt | FmtMdl | FmtW3cVc

fun format_value :: "CredentialDefinitionFormat \<Rightarrow> string" where
  "format_value FmtAnoncreds = ''anoncreds''"
| "format_value FmtSdJwt = ''sd-jwt''"
| "format_value FmtMdl = ''mdl''"
| "format_value FmtW3cVc = ''w3c-vc''"

record credential =
  cred_id :: uuid
  cred_tenantId :: uuid
  cred_issuanceProfileId :: "uuid option"
  cred_connectionId :: "uuid option"
  cred_connectorId :: uuid
  cred_externalId :: "string option"
  cred_format :: CredentialDefinitionFormat
  cred_state :: CredentialState
  cred_operationId :: uuid
  cred_exchangeId :: "uuid option"
  cred_metadata :: "(string \<times> json) list"
  cred_issuedAt :: "int option"
  cred_revokedAt :: "int option"
  cred_createdAt :: int
  cred_updatedAt :: int

datatype ConnectorType = Traction | Credo

datatype ConnectionProtocol = DidcommV1 | DidcommV2 | Openid4vc

record connection =
  conn_id :: uuid
  conn_tenantId :: uuid
  conn_externalConnectionId :: "string option"
  conn_theirLabel :: "string option"
  conn_theirDid :: "string option"
  conn_state :: ConnectionState
  conn_connectorType :: ConnectorType
  conn_connectorId :: "uuid option"
  conn_protocol :: ConnectionProtocol
  conn_metadata :: "(string \<times> json) list"
  conn_createdAt :: int
  conn_updatedAt :: int

datatype IssueSubmission = NotSubmitted | Submitting | Submitted | Uncertain

datatype ExchangeState = ExPending | Ex CredentialExchangeState | ExFailed

datatype ExchangeRole = Issuer | Holder

record exchange =
  exch_id :: uuid
  exch_tenantId :: uuid
  exch_connectorId :: uuid
  exch_connectionId :: "uuid option"
  exch_role :: ExchangeRole
  exch_protocol :: string
  exch_format :: CredentialDefinitionFormat
  exch_state :: ExchangeState
  exch_externalId :: "string option"
  exch_issueSubmission :: IssueSubmission
  exch_issueOperationId :: "uuid option"
  exch_createdAt :: int
  exch_updatedAt :: int

datatype TenantStatus = TenActive | TenPendingApproval | TenRejected | TenSuspended | TenDeactivated

record tenant =
  ten_id :: uuid
  ten_name :: string
  ten_slug :: string
  ten_description :: "string option"
  ten_status :: TenantStatus
  ten_config :: json
  ten_createdAt :: int
  ten_updatedAt :: int
  ten_deletedAt :: "int option"
  ten_deactivatedAt :: "int option"

datatype TenantUserRole = RoleOwner | RoleAdmin | RoleMember | RoleReadonly

datatype TenantUserStatus = UserActive | UserInvited | UserDisabled

record tenant_user =
  tu_id :: uuid
  tu_tenantId :: uuid
  tu_externalUserId :: "string option"
  tu_email :: string
  tu_displayName :: "string option"
  tu_role :: TenantUserRole
  tu_status :: TenantUserStatus
  tu_isPlatformOperator :: bool
  tu_createdAt :: int
  tu_updatedAt :: int

datatype OAuthClientRevokedReason = TENANT_DEACTIVATION

record oauth_client =
  oc_id :: uuid
  oc_tenantId :: uuid
  oc_clientId :: string
  oc_clientSecretHash :: "string option"
  oc_isPublic :: bool
  oc_name :: string
  oc_scopes :: "string list"
  oc_roles :: "string list"
  oc_redirectUris :: "string list"
  oc_postLogoutRedirectUris :: "string list"
  oc_grantTypes :: "string list"
  oc_createdBy :: "uuid option"
  oc_createdAt :: int
  oc_refreshTokenTtlSeconds :: "int option"
  oc_revokedAt :: "int option"
  oc_revokedReason :: "OAuthClientRevokedReason option"

record connector_row =
  ctr_id :: uuid
  ctr_tenantId :: uuid
  ctr_connectorType :: ConnectorType
  ctr_credentialsEncrypted :: string
  ctr_endpointUrl :: string
  ctr_active :: bool
  ctr_keyVersion :: nat
  ctr_agentLogIdHash :: "string option"
  ctr_createdAt :: int
  ctr_updatedAt :: int

record oidc_model =
  om_id :: uuid
  om_modelName :: string
  om_oidcId :: string
  om_payload :: json
  om_grantId :: "string option"
  om_userCode :: "string option"
  om_uid :: "string option"
  om_accountId :: "string option"
  om_expiresAt :: "int option"
  om_consumedAt :: "int option"
  om_createdAt :: int

record rate_hit =
  rh_tracker :: string
  rh_routeKey :: string
  rh_hitAt :: int

datatype RegistrationState = RegUnverified | RegPending | RegReady | RegFailed

datatype ProfileStatus = StatusDraft | StatusPublished | StatusDeprecated

record credential_definition =
  cd_id :: uuid
  cd_tenantId :: uuid
  cd_name :: string
  cd_format :: CredentialDefinitionFormat
  cd_schemaDefinition :: json
  cd_externalId :: "string option"
  cd_connectorId :: "uuid option"
  cd_registrationState :: RegistrationState
  cd_registrationOperationId :: "uuid option"
  cd_options :: json
  cd_registration :: json
  cd_connectorType :: ConnectorType
  cd_version :: string
  cd_status :: ProfileStatus
  cd_metadata :: json
  cd_isActive :: bool
  cd_createdAt :: int
  cd_updatedAt :: int

record issuance_profile =
  ip_id :: uuid
  ip_tenantId :: uuid
  ip_name :: string
  ip_version :: string
  ip_description :: "string option"
  ip_credentialDefinitionId :: uuid
  ip_attributeSchema :: json
  ip_defaults :: json
  ip_display :: json
  ip_metadata :: json
  ip_protocolHint :: string
  ip_status :: ProfileStatus
  ip_createdAt :: int
  ip_updatedAt :: int

record verification_profile =
  vp_id :: uuid
  vp_tenantId :: uuid
  vp_name :: string
  vp_version :: string
  vp_description :: "string option"
  vp_presentationDefinition :: json
  vp_requestedAttributes :: "string list"
  vp_predicates :: json
  vp_metadata :: json
  vp_isPublic :: bool
  vp_protocolHint :: string
  vp_status :: ProfileStatus
  vp_createdAt :: int
  vp_updatedAt :: int

text \<open>The agent partitions cached in memory, by tenant, in the order of insertion, and the count of invalidations.\<close>

record PartitionCache =
  pc_entries :: "(uuid \<times> string list \<times> int) list"
  pc_generation :: nat

datatype AuditAction =
    AuditRead | AuditIssue | AuditVerify | AuditHold | AuditRevoke | AuditCreate | AuditUpdate
  | AuditDelete | AuditLogin | AuditTokenGrant

datatype AuditActorType = ActorUser | ActorSystem | ActorClient

record audit_row =
  aud_tenantId :: uuid
  aud_actorId :: string
  aud_actorType :: AuditActorType
  aud_action :: AuditAction
  aud_resourceType :: string
  aud_resourceId :: string
  aud_operationId :: "uuid option"
  aud_metadata :: "(string \<times> json) list"

datatype job =
    WebhookDispatch (wd_tenantId: uuid) (wd_event: string) (wd_resourceId: string) (wd_occurredAt: int)
  | AuditWrite (aw_tenantId: uuid) (aw_action: AuditAction) (aw_resourceType: string)
      (aw_resourceId: string) (aw_metadata: "(string \<times> json) list")
  | TenantStatusChange (tsc_tenantId: uuid) (tsc_previousStatus: TenantStatus) (tsc_status: TenantStatus)
  | TenantConfigChange (tcc_tenantId: uuid) (tcc_config: json)

record domain_event =
  ev_name :: string
  ev_tenantId :: uuid
  ev_externalId :: string

section \<open>The store\<close>

record db =
  operations :: "operation list"
  credentials :: "credential list"
  connections :: "connection list"
  exchanges :: "exchange list"
  tenants :: "tenant list"
  jobs :: "job list"
  audit_log :: "audit_row list"
  events :: "domain_event list"
  metrics :: "(string \<times> string) list"
  tenant_users :: "tenant_user list"
  oauth_clients :: "oauth_client list"
  connectors :: "connector_row list"
  oidc_models :: "oidc_model list"
  role_scopes :: "(TenantUserRole \<times> string) list"
  tenant_role_scopes :: "((uuid \<times> TenantUserRole) \<times> string list) list"
  rate_limit_hits :: "rate_hit list"
  credential_definitions :: "credential_definition list"
  issuance_profiles :: "issuance_profile list"
  verification_profiles :: "verification_profile list"
  partition_cache :: PartitionCache

type_synonym 'a service = "(db, 'a) act"

record env =
  js_now :: int
  db_now :: int
  enqueue_ok :: "job \<Rightarrow> bool"

definition to_js :: "int \<Rightarrow> int" where
  "to_js t = t div 1000"

definition of_js :: "int \<Rightarrow> int" where
  "of_js m = m * 1000"

lemma to_js_of_js [simp]: "to_js (of_js m) = m"
  by (simp add: to_js_def of_js_def)

lemma of_js_eq [simp]: "of_js a = of_js b \<longleftrightarrow> a = b"
  by (simp add: of_js_def)

lemma of_js_to_js_le: "of_js (to_js t) \<le> t"
  by (simp add: to_js_def of_js_def)

text \<open>An invalid \<open>Date\<close> is not a timestamp: the statement that carries it fails.\<close>

definition to_timestamp :: "int option \<Rightarrow> int service" where
  "to_timestamp d = (case d of None \<Rightarrow> throw (QueryFailed ''22007'' '''') | Some m \<Rightarrow> ret (of_js m))"

section \<open>Constrained writes\<close>

definition in_flight :: "operation \<Rightarrow> bool" where
  "in_flight op = (op_state op = OpPending \<or> op_state op = OpProcessing)"

definition holder_action_key :: "operation \<Rightarrow> bool" where
  "holder_action_key op =
     (op_type op \<in> {CREDENTIAL_ACCEPT, CREDENTIAL_REJECT} \<and> in_flight op \<and> op_externalId op \<noteq> None)"

definition revoke_key :: "operation \<Rightarrow> bool" where
  "revoke_key op = (op_type op = CREDENTIAL_REVOKE \<and> in_flight op \<and> op_externalId op \<noteq> None)"

definition index_ok :: "('r \<Rightarrow> bool) \<Rightarrow> ('r \<Rightarrow> 'k) \<Rightarrow> 'r list \<Rightarrow> bool" where
  "index_ok P key t = distinct (map key (filter P t))"

definition op_key :: "operation \<Rightarrow> uuid \<times> string option" where
  "op_key op = (op_tenantId op, op_externalId op)"

definition put_operations :: "operation list \<Rightarrow> unit service" where
  "put_operations t =
     (if \<not> index_ok holder_action_key op_key t
      then throw (QueryFailed ''23505'' ''uq_operation_inflight_holder_action'')
      else if \<not> index_ok revoke_key op_key t
      then throw (QueryFailed ''23505'' ''uq_operation_inflight_revoke'')
      else modifies (\<lambda>s. s\<lparr>operations := t\<rparr>))"

definition put_credentials :: "credential list \<Rightarrow> unit service" where
  "put_credentials t =
     (if \<not> index_ok (\<lambda>c. cred_externalId c \<noteq> None) (\<lambda>c. (cred_tenantId c, cred_externalId c)) t
      then throw (QueryFailed ''23505'' ''uq_credential_tenant_external_id'')
      else if \<not> index_ok (\<lambda>c. cred_exchangeId c \<noteq> None) cred_exchangeId t
      then throw (QueryFailed ''23505'' ''uq_credential_exchange'')
      else modifies (\<lambda>s. s\<lparr>credentials := t\<rparr>))"

definition put_connections :: "connection list \<Rightarrow> unit service" where
  "put_connections t =
     (if \<not> index_ok (\<lambda>c. conn_externalConnectionId c \<noteq> None) conn_externalConnectionId t
      then throw (QueryFailed ''23505'' ''idx_connection_external_connection_id'')
      else modifies (\<lambda>s. s\<lparr>connections := t\<rparr>))"

definition put_exchanges :: "exchange list \<Rightarrow> unit service" where
  "put_exchanges t =
     (if \<not> index_ok (\<lambda>e. exch_externalId e \<noteq> None)
              (\<lambda>e. (exch_tenantId e, exch_connectorId e, exch_externalId e)) t
      then throw (QueryFailed ''23505'' ''uq_credential_exchange_backend'')
      else modifies (\<lambda>s. s\<lparr>exchanges := t\<rparr>))"

lemmas put_defs = put_operations_def put_credentials_def put_connections_def put_exchanges_def

lemma index_ok_update_where:
  assumes "index_ok P key t"
    and "\<And>r. r \<in> set t \<Longrightarrow> Q r \<Longrightarrow> P (f r) \<Longrightarrow> P r \<and> key (f r) = key r"
  shows "index_ok P key (update_where Q f t)"
  using assms
proof (induction t)
  case Nil
  then show ?case by (simp add: index_ok_def update_where_def)
next
  case (Cons a t)
  let ?g = "\<lambda>r. if Q r then f r else r"
  have ih: "distinct (map key (filter P (map ?g t)))"
    using Cons by (auto simp: index_ok_def update_where_def split: if_splits)
  have sub: "key ` {r \<in> set (map ?g t). P r} \<subseteq> key ` {r \<in> set t. P r}"
  proof
    fix k assume "k \<in> key ` {r \<in> set (map ?g t). P r}"
    then obtain r where r: "r \<in> set t" "P (?g r)" "k = key (?g r)" by auto
    with Cons.prems(2) [of r] have "P r \<and> k = key r" by (auto split: if_splits)
    with r(1) show "k \<in> key ` {r \<in> set t. P r}" by blast
  qed
  show ?case
  proof (cases "P (?g a)")
    case False
    with ih show ?thesis by (simp add: index_ok_def update_where_def)
  next
    case True
    with Cons.prems(2) [of a] have a: "P a" "key (?g a) = key a" by (auto split: if_splits)
    with Cons.prems(1) have "key a \<notin> key ` {r \<in> set t. P r}" by (auto simp: index_ok_def)
    with sub a have "key (?g a) \<notin> key ` {r \<in> set (map ?g t). P r}" by auto
    with ih True show ?thesis by (auto simp: index_ok_def update_where_def)
  qed
qed

text \<open>A constrained write either succeeds and replaces its table, or throws and changes nothing.\<close>

lemma put_operations_Inr:
  "put_operations t s = (Inr u, s') \<longleftrightarrow>
   index_ok holder_action_key op_key t \<and> index_ok revoke_key op_key t \<and> s' = s\<lparr>operations := t\<rparr>"
  by (auto simp: put_operations_def throw_def modifies_def)

lemma put_operations_Inl: "put_operations t s = (Inl e, s') \<Longrightarrow> s' = s"
  by (auto simp: put_operations_def throw_def modifies_def split: if_splits)

lemma put_credentials_Inr:
  "put_credentials t s = (Inr u, s') \<longleftrightarrow>
   index_ok (\<lambda>c. cred_externalId c \<noteq> None) (\<lambda>c. (cred_tenantId c, cred_externalId c)) t
   \<and> index_ok (\<lambda>c. cred_exchangeId c \<noteq> None) cred_exchangeId t \<and> s' = s\<lparr>credentials := t\<rparr>"
  by (auto simp: put_credentials_def throw_def modifies_def)

lemma put_credentials_Inl: "put_credentials t s = (Inl e, s') \<Longrightarrow> s' = s"
  by (auto simp: put_credentials_def throw_def modifies_def split: if_splits)

lemma put_connections_Inr:
  "put_connections t s = (Inr u, s') \<longleftrightarrow>
   index_ok (\<lambda>c. conn_externalConnectionId c \<noteq> None) conn_externalConnectionId t
   \<and> s' = s\<lparr>connections := t\<rparr>"
  by (auto simp: put_connections_def throw_def modifies_def)

lemma put_connections_Inl: "put_connections t s = (Inl e, s') \<Longrightarrow> s' = s"
  by (auto simp: put_connections_def throw_def modifies_def split: if_splits)

lemma put_exchanges_Inr:
  "put_exchanges t s = (Inr u, s') \<longleftrightarrow>
   index_ok (\<lambda>e. exch_externalId e \<noteq> None)
     (\<lambda>e. (exch_tenantId e, exch_connectorId e, exch_externalId e)) t
   \<and> s' = s\<lparr>exchanges := t\<rparr>"
  by (auto simp: put_exchanges_def throw_def modifies_def)

lemma put_exchanges_Inl: "put_exchanges t s = (Inl e, s') \<Longrightarrow> s' = s"
  by (auto simp: put_exchanges_def throw_def modifies_def split: if_splits)

lemmas put_Inr = put_operations_Inr put_credentials_Inr put_connections_Inr put_exchanges_Inr
lemmas put_Inl = put_operations_Inl put_credentials_Inl put_connections_Inl put_exchanges_Inl

lemma bindA_Inl_cases:
  assumes "bindA m f s = (Inl e, s')"
  obtains "m s = (Inl e, s')" | x t where "m s = (Inr x, t)" "f x t = (Inl e, s')"
  using assms by (auto simp: bindA_def split: prod.splits sum.splits)

lemma to_timestamp_Inr: "to_timestamp d s = (Inr x, s') \<longleftrightarrow> (\<exists>m. d = Some m \<and> x = of_js m) \<and> s' = s"
  by (auto simp: to_timestamp_def throw_def ret_def split: option.splits)

lemma to_timestamp_store: "to_timestamp d s = (r, s') \<Longrightarrow> s' = s"
  by (auto simp: to_timestamp_def throw_def ret_def split: option.splits)

section \<open>Queue, audit and events\<close>

text \<open>
  \<open>JobsService.sendInTransaction\<close> inserts into the queue over the caller's transaction.
  \<open>DomainAuditService.emit\<close> is fail-open: a failed enqueue is logged and swallowed.
\<close>

definition sendInTransaction :: "env \<Rightarrow> job \<Rightarrow> unit service" where
  "sendInTransaction E j =
     (if enqueue_ok E j then modifies (\<lambda>s. s\<lparr>jobs := jobs s @ [j]\<rparr>) else throw (EnqueueFailed ''pg-boss''))"

definition domainAudit_emit ::
    "env \<Rightarrow> uuid \<Rightarrow> AuditAction \<Rightarrow> string \<Rightarrow> string \<Rightarrow> (string \<times> json) list \<Rightarrow> unit service" where
  "domainAudit_emit E tenantId action resourceType resourceId metadata =
     catchA (sendInTransaction E (AuditWrite tenantId action resourceType resourceId metadata))
       (\<lambda>_. ret ())"

definition eventEmitter_emit :: "string \<Rightarrow> uuid \<Rightarrow> string \<Rightarrow> unit service" where
  "eventEmitter_emit name tenantId externalId =
     modifies (\<lambda>s. s\<lparr>events := events s @
       [\<lparr>ev_name = name, ev_tenantId = tenantId, ev_externalId = externalId\<rparr>]\<rparr>)"

section \<open>Tenants\<close>

text \<open>\<open>TenantService.findById\<close>: soft-deleted tenants are not found.\<close>

definition tenants_findById :: "uuid \<Rightarrow> tenant service" where
  "tenants_findById tenantId =
     (\<lambda>s. found (NotFoundException ''Tenant not found'')
            (List.find (\<lambda>t. ten_id t = tenantId \<and> ten_deletedAt t = None) (tenants s)) s)"

section \<open>Concrete stores\<close>

text \<open>Small stores on which the theorems are applied to concrete inputs.\<close>

definition sample_tenant :: tenant where
  "sample_tenant =
     \<lparr>ten_id = ''t1'', ten_name = ''Acme'', ten_slug = ''acme'', ten_description = None,
      ten_status = TenActive, ten_config = JObj [], ten_createdAt = 1, ten_updatedAt = 1,
      ten_deletedAt = None, ten_deactivatedAt = None\<rparr>"

definition empty_db :: db where
  "empty_db = \<lparr>operations = [], credentials = [], connections = [], exchanges = [],
     tenants = [sample_tenant], jobs = [], audit_log = [], events = [], metrics = [],
     tenant_users = [], oauth_clients = [], connectors = [], oidc_models = [], role_scopes = [],
     tenant_role_scopes = [], rate_limit_hits = [], credential_definitions = [], issuance_profiles = [],
     verification_profiles = [], partition_cache = \<lparr>pc_entries = [], pc_generation = 0\<rparr>\<rparr>"

definition sample_env :: env where
  "sample_env = \<lparr>js_now = 1000000, db_now = 1000000000, enqueue_ok = (\<lambda>_. True)\<rparr>"

definition sample_operation :: "uuid \<Rightarrow> string \<Rightarrow> OperationState \<Rightarrow> operation" where
  "sample_operation i type state =
     \<lparr>op_id = i, op_tenantId = ''t1'', op_batchId = None, op_type = type, op_state = state,
      op_request = \<lparr>req_method = ''POST'', req_path = ''/'', req_body = JObj []\<rparr>, op_result = JNull,
      op_externalId = Some ''x1'', op_exchangeId = None, op_viewedAt = None, op_expiresAt = 5,
      op_createdAt = 3, op_updatedAt = 3\<rparr>"

definition sample_credential :: "uuid \<Rightarrow> CredentialState \<Rightarrow> uuid \<Rightarrow> credential" where
  "sample_credential i state op =
     \<lparr>cred_id = i, cred_tenantId = ''t1'', cred_issuanceProfileId = None, cred_connectionId = None,
      cred_connectorId = ''k1'', cred_externalId = Some ''x1'', cred_format = FmtAnoncreds,
      cred_state = state, cred_operationId = op, cred_exchangeId = None, cred_metadata = [],
      cred_issuedAt = None, cred_revokedAt = None, cred_createdAt = 3, cred_updatedAt = 3\<rparr>"

end
