(* ===== verification/Pagination.thy ===== *)
theory Pagination
  imports Database
begin

text \<open>
  Cursor pagination: the opaque cursor of \<open>common/cursor-pagination.ts\<close>, and the contract of a
  keyset page (newest row first, ties broken by id) from which following the cursors is shown to
  list every row exactly once.

  The base64url and JSON codecs, the validators of class-validator, \<open>Date.parse\<close> and the timestamp
  text of the database are parameters, gathered in \<open>cursor_lib\<close>; \<open>cursor_lib_ok\<close> states what
  is relied on.
\<close>

section \<open>The cursor\<close>

record Cursor =
  cur_createdAt :: string
  cur_id :: string

record cursor_lib =
  base64url_encode :: "string \<Rightarrow> string"
  base64url_decode :: "string \<Rightarrow> string"
  JSON_stringify :: "json \<Rightarrow> string"
  JSON_parse :: "string \<Rightarrow> json option"
  isRFC3339 :: "string \<Rightarrow> bool"
  isISO8601 :: "string \<Rightarrow> bool"
  Date_parse :: "string \<Rightarrow> int option"
  isUUID :: "string \<Rightarrow> bool"
  to_char :: "int \<Rightarrow> string"
  toISOString :: "int \<Rightarrow> string"
  cast_timestamptz :: "string \<Rightarrow> int option"

definition starts_with :: "string \<Rightarrow> string \<Rightarrow> bool" where
  "starts_with s pre = (take (length pre) s = pre)"

definition encodeCursor :: "cursor_lib \<Rightarrow> Cursor \<Rightarrow> string" where
  "encodeCursor L cursor = base64url_encode L (JSON_stringify L
     (JObj [(''createdAt'', JStr (cur_createdAt cursor)), (''id'', JStr (cur_id cursor))]))"

definition decodeCursor :: "cursor_lib \<Rightarrow> string \<Rightarrow> err + Cursor" where
  "decodeCursor L raw =
     (let invalid = Inl (BadRequestException ''Invalid pagination cursor.'') in
      case JSON_parse L (base64url_decode L raw) of
        None \<Rightarrow> invalid
      | Some parsed \<Rightarrow>
          (case (jget parsed ''createdAt'', jget parsed ''id'') of
             (Some (JStr createdAt), Some (JStr cursorId)) \<Rightarrow>
               (if \<not> isRFC3339 L createdAt \<or> \<not> isISO8601 L createdAt
                   \<or> starts_with createdAt ''0000-'' \<or> Date_parse L createdAt = None
                   \<or> \<not> isUUID L cursorId
                then invalid
                else Inr \<lparr>cur_createdAt = createdAt, cur_id = cursorId\<rparr>)
           | _ \<Rightarrow> invalid))"

definition cursor_valid :: "cursor_lib \<Rightarrow> Cursor \<Rightarrow> bool" where
  "cursor_valid L cursor =
     (isRFC3339 L (cur_createdAt cursor) \<and> isISO8601 L (cur_createdAt cursor)
      \<and> \<not> starts_with (cur_createdAt cursor) ''0000-''
      \<and> Date_parse L (cur_createdAt cursor) \<noteq> None \<and> isUUID L (cur_id cursor))"

text \<open>Documented behaviour of the codecs, on the objects encoded here: decoding inverts encoding.\<close>

definition codec_ok :: "cursor_lib \<Rightarrow> bool" where
  "codec_ok L = ((\<forall>s. base64url_decode L (base64url_encode L s) = s)
                 \<and> (\<forall>a b. let j = JObj [(''createdAt'', JStr a), (''id'', JStr b)]
                          in JSON_parse L (JSON_stringify L j) = Some j))"

lemma decode_encode:
  "codec_ok L \<Longrightarrow> cursor_valid L c \<Longrightarrow> decodeCursor L (encodeCursor L c) = Inr c"
  by (simp add: codec_ok_def cursor_valid_def decodeCursor_def encodeCursor_def Let_def)

lemma decode_valid: "decodeCursor L raw = Inr c \<Longrightarrow> cursor_valid L c"
  by (auto simp: decodeCursor_def cursor_valid_def Let_def
        split: option.splits json.splits if_splits)

lemma decode_error:
  "decodeCursor L raw = Inl e \<Longrightarrow> e = BadRequestException ''Invalid pagination cursor.''"
  by (auto simp: decodeCursor_def Let_def split: option.splits json.splits if_splits)

section \<open>Keyset pages\<close>

text \<open>
  \<open>ORDER BY key DESC\<close> and the row comparison \<open>key < cursor\<close>. \<open>walk\<close> is a client that follows
  \<open>nextCursor\<close>; it gives up with \<open>None\<close> when its fuel is spent.
\<close>

definition order_desc :: "('r \<Rightarrow> 'k::linorder) \<Rightarrow> 'r list \<Rightarrow> 'r list" where
  "order_desc key t = rev (sort_key key t)"

definition beyond :: "('r \<Rightarrow> 'k::linorder) \<Rightarrow> 'k option \<Rightarrow> 'r \<Rightarrow> bool" where
  "beyond key k r = (case k of None \<Rightarrow> True | Some c \<Rightarrow> key r < c)"

fun walk :: "nat \<Rightarrow> ('c option \<Rightarrow> 'r list \<times> 'c option) \<Rightarrow> 'c option \<Rightarrow> 'r list option" where
  "walk 0 fetch cur = None"
| "walk (Suc n) fetch cur =
     (case fetch cur of
        (items, None) \<Rightarrow> Some items
      | (items, Some c) \<Rightarrow> map_option (\<lambda>rest. items @ rest) (walk n fetch (Some c)))"

lemma set_order_desc [simp]: "set (order_desc key t) = set t"
  by (simp add: order_desc_def)

lemma length_order_desc [simp]: "length (order_desc key t) = length t"
  by (simp add: order_desc_def)

lemma distinct_order_desc [simp]: "distinct (order_desc key t) = distinct t"
  by (simp add: order_desc_def)

lemma order_desc_filter: "order_desc key (filter P t) = filter P (order_desc key t)"
  by (simp add: order_desc_def filter_sort rev_filter [symmetric])

definition strictly_desc :: "('r \<Rightarrow> 'k::linorder) \<Rightarrow> 'r list \<Rightarrow> bool" where
  "strictly_desc key t = sorted_wrt (\<lambda>a b. key b < key a) t"

lemma strictly_desc_order_desc:
  assumes "distinct (map key t)"
  shows "strictly_desc key (order_desc key t)"
proof -
  have "distinct (map key (sort_key key t))" using assms by (simp add: distinct_map)
  then have "sorted_wrt (<) (map key (sort_key key t))"
    by (simp add: strict_sorted_iff)
  then show ?thesis
    by (simp add: strictly_desc_def order_desc_def sorted_wrt_rev sorted_wrt_map)
qed

text \<open>In a strictly descending list the rows beyond its n-th row are exactly the rest.\<close>

lemma strictly_desc_beyond:
  assumes "strictly_desc key t" and "0 < n" and "n < length t"
  shows "filter (beyond key (Some (key (last (take n t))))) t = drop n t"
proof -
  have l: "last (take n t) = t ! (n - 1)"
    using assms(2,3) by (subst last_conv_nth) (auto simp: min_def)
  have less: "key (t ! j) < key (t ! i)" if "i < j" "j < length t" for i j
    using assms(1) that by (simp add: strictly_desc_def sorted_wrt_iff_nth_less)
  have "\<not> key r < key (t ! (n - 1))" if r: "r \<in> set (take n t)" for r
  proof -
    from r obtain i where i: "i < n" "i < length t" "r = t ! i"
      by (auto simp: in_set_conv_nth)
    then consider "i = n - 1" | "i < n - 1" by linarith
    then show ?thesis
    proof cases
      case 2
      with less [of i "n - 1"] assms(3) i show ?thesis by (simp add: not_less less_imp_le)
    qed (simp add: i)
  qed
  then have f1: "filter (beyond key (Some (key (t ! (n - 1))))) (take n t) = []"
    by (simp add: filter_empty_conv beyond_def)
  have "key r < key (t ! (n - 1))" if r: "r \<in> set (drop n t)" for r
  proof -
    from r obtain j where j: "j < length t - n" "r = t ! (n + j)"
      by (auto simp: in_set_conv_nth)
    with less [of "n - 1" "n + j"] assms(2) show ?thesis by simp
  qed
  then have f2: "filter (beyond key (Some (key (t ! (n - 1))))) (drop n t) = drop n t"
    by (simp add: filter_id_conv beyond_def)
  have "filter (beyond key (Some (key (t ! (n - 1))))) (take n t @ drop n t) = drop n t"
    by (simp only: filter_append f1 f2 append_Nil)
  then show ?thesis by (simp add: l)
qed

lemma beyond_below:
  assumes "case k of None \<Rightarrow> True | Some c \<Rightarrow> c' \<le> c"
  shows "filter (beyond key (Some c')) (filter (beyond key k) t) = filter (beyond key (Some c')) t"
proof -
  have "beyond key k r" if "beyond key (Some c') r" for r
    using that assms by (auto simp: beyond_def split: option.splits)
  then have "filter (\<lambda>r. beyond key (Some c') r \<and> beyond key k r) t = filter (beyond key (Some c')) t"
    by (auto intro: filter_cong)
  then show ?thesis by (simp add: conj_commute)
qed

text \<open>
  The contract of a paged list. An instance \<open>i\<close> fixes the table, the filters and the page size;
  \<open>issued\<close> holds of the cursors the pages hand out and \<open>pos\<close> is the key a cursor denotes.
\<close>

locale keyset =
  fixes ok :: "'i \<Rightarrow> bool"
    and rows :: "'i \<Rightarrow> 'r list"
    and key :: "'r \<Rightarrow> 'k::linorder"
    and lim :: "'i \<Rightarrow> nat"
    and issued :: "'i \<Rightarrow> 'c \<Rightarrow> bool"
    and pos :: "'i \<Rightarrow> 'c \<Rightarrow> 'k"
    and fetch :: "'i \<Rightarrow> 'c option \<Rightarrow> 'r list \<times> 'c option"
  assumes keys_distinct: "ok i \<Longrightarrow> distinct (map key (rows i))"
    and lim_pos: "ok i \<Longrightarrow> 0 < lim i"
    and items: "ok i \<Longrightarrow> pred_option (issued i) cur \<Longrightarrow>
       fst (fetch i cur) =
         take (lim i) (filter (beyond key (map_option (pos i) cur)) (order_desc key (rows i)))"
    and next_cursor: "ok i \<Longrightarrow> pred_option (issued i) cur \<Longrightarrow>
       (let more = filter (beyond key (map_option (pos i) cur)) (order_desc key (rows i)) in
        if lim i < length more
        then \<exists>c. snd (fetch i cur) = Some c \<and> issued i c \<and> pos i c = key (last (take (lim i) more))
        else snd (fetch i cur) = None)"
begin

lemma walk_from:
  assumes "ok i"
    and "pred_option (issued i) cur"
    and "left = filter (beyond key (map_option (pos i) cur)) (order_desc key (rows i))"
    and "length left < n"
  shows "walk n (fetch i) cur = Some left"
  using assms(2-)
proof (induction n arbitrary: cur left)
  case 0
  then show ?case by simp
next
  case (Suc n)
  note fst_eq = items [OF assms(1) Suc.prems(1), folded Suc.prems(2)]
  note snd_eq = next_cursor [OF assms(1) Suc.prems(1), folded Suc.prems(2)]
  show ?case
  proof (cases "lim i < length left")
    case False
    with fst_eq snd_eq show ?thesis by (cases "fetch i cur") simp
  next
    case True
    then obtain c where c: "snd (fetch i cur) = Some c" "pos i c = key (last (take (lim i) left))"
      "issued i c"
      using snd_eq by (auto simp: Let_def)
    have ne: "take (lim i) left \<noteq> []" using True lim_pos [OF assms(1)] by auto
    then have lin: "last (take (lim i) left) \<in> set left"
      by (meson in_set_takeD last_in_set)
    then have lpos: "beyond key (map_option (pos i) cur) (last (take (lim i) left))"
      by (auto simp: Suc.prems(2))
    have desc: "strictly_desc key left"
      using strictly_desc_order_desc [OF keys_distinct [OF assms(1)]]
      by (simp add: Suc.prems(2) strictly_desc_def sorted_wrt_filter)
    have "filter (beyond key (Some (pos i c))) (order_desc key (rows i)) =
          filter (beyond key (Some (pos i c))) left"
      unfolding Suc.prems(2)
      by (rule beyond_below [symmetric])
        (use lpos c(2) in \<open>auto simp: beyond_def split: option.splits intro: less_imp_le\<close>)
    also have "\<dots> = drop (lim i) left"
      using strictly_desc_beyond [OF desc lim_pos [OF assms(1)] True] c(2) by simp
    finally have rest: "drop (lim i) left =
        filter (beyond key (map_option (pos i) (Some c))) (order_desc key (rows i))"
      by simp
    have "walk n (fetch i) (Some c) = Some (drop (lim i) left)"
      by (rule Suc.IH [OF _ rest])
        (use Suc.prems(3) c(3) True lim_pos [OF assms(1)] in auto)
    then show ?thesis using c fst_eq by (cases "fetch i cur") simp
  qed
qed

lemma walk_all:
  assumes "ok i" and "length (rows i) < n"
  shows "walk n (fetch i) None = Some (order_desc key (rows i))"
  by (rule walk_from [OF assms(1)]) (use assms(2) in \<open>auto simp: beyond_def\<close>)

end

section \<open>Concrete codecs\<close>

text \<open>
  An instance of the parameters: a length-prefixed text for the two fields of a cursor, the identity
  for base64url, and one character per microsecond as the text of a timestamp.
\<close>

definition sample_stringify :: "json \<Rightarrow> string" where
  "sample_stringify j =
     (case (jget j ''createdAt'', jget j ''id'') of
        (Some (JStr a), Some (JStr b)) \<Rightarrow> replicate (length a) (CHR ''1'') @ CHR ''0'' # a @ b
      | _ \<Rightarrow> [])"

definition sample_parse :: "string \<Rightarrow> json option" where
  "sample_parse s =
     (let n = length (takeWhile (\<lambda>c. c = CHR ''1'') s); rest = drop (Suc n) s
      in if s = [] then None
         else Some (JObj [(''createdAt'', JStr (take n rest)), (''id'', JStr (drop n rest))]))"

definition sample_lib :: cursor_lib where
  "sample_lib =
     \<lparr>base64url_encode = (\<lambda>s. s), base64url_decode = (\<lambda>s. s),
      JSON_stringify = sample_stringify, JSON_parse = sample_parse,
      isRFC3339 = (\<lambda>_. True), isISO8601 = (\<lambda>_. True), Date_parse = (\<lambda>s. Some (int (length s))),
      isUUID = (\<lambda>_. True), to_char = (\<lambda>t. replicate (nat t) (CHR ''T'')),
      toISOString = (\<lambda>m. replicate (nat (m * 1000)) (CHR ''T'')),
      cast_timestamptz = (\<lambda>s. Some (int (length s)))\<rparr>"

lemma takeWhile_ones: "takeWhile (\<lambda>c. c = CHR ''1'') (replicate n (CHR ''1'') @ CHR ''0'' # xs) = replicate n (CHR ''1'')"
  by (induction n) auto

lemma sample_codec_ok: "codec_ok sample_lib"
  by (simp add: codec_ok_def sample_lib_def sample_stringify_def sample_parse_def takeWhile_ones)

text \<open>
  C31 A cursor handed to a client comes back as it was sent, and nothing else gets past the decoder:
  what decodes is a valid cursor, and every other input is answered with the one bad-request error.
\<close>

theorem cursor_round_trip:
  assumes "codec_ok L"
  shows "(cursor_valid L c \<longrightarrow> decodeCursor L (encodeCursor L c) = Inr c)
    \<and> (case decodeCursor L raw of
         Inr c' \<Rightarrow> cursor_valid L c'
       | Inl e \<Rightarrow> e = BadRequestException ''Invalid pagination cursor.'')"
  using decode_encode [OF assms] decode_valid [of L raw] decode_error [of L raw]
  by (auto split: sum.split)

theorem cursor_round_trip_witness:
  "codec_ok sample_lib \<and> decodeCursor sample_lib (encodeCursor sample_lib \<lparr>cur_createdAt = ''2026'', cur_id = ''a''\<rparr>)
     = Inr \<lparr>cur_createdAt = ''2026'', cur_id = ''a''\<rparr>"
  using cursor_round_trip [OF sample_codec_ok, of "\<lparr>cur_createdAt = ''2026'', cur_id = ''a''\<rparr>"] sample_codec_ok
  by (simp add: cursor_valid_def sample_lib_def starts_with_def)

end
