(* ===== verification/Operation_Repository.thy ===== *)
theory Operation_Repository
  imports Pagination
begin

text \<open>
  \<open>operation.repository.ts\<close>: every query and statement on the operation table. A read is a function
  of the store it is issued against; a write is an action. A \<open>manager\<close> argument is the choice of
  that store: inside a transaction a read without a manager is applied to the committed store.
\<close>

section \<open>Lookups\<close>

definition op_findById :: "uuid \<Rightarrow> db \<Rightarrow> operation option" where
  "op_findById i s = List.find (\<lambda>op. op_id op = i) (operations s)"

definition op_findByIdForTenant :: "uuid \<Rightarrow> uuid \<Rightarrow> db \<Rightarrow> operation option" where
  "op_findByIdForTenant i tenantId s =
     List.find (\<lambda>op. op_id op = i \<and> op_tenantId op = tenantId) (operations s)"

definition op_findByExternalIdForTenant ::
    "uuid \<Rightarrow> string \<Rightarrow> string list \<Rightarrow> db \<Rightarrow> operation option" where
  "op_findByExternalIdForTenant tenantId externalId types s =
     find_latest op_createdAt
       (\<lambda>op. op_tenantId op = tenantId \<and> op_externalId op = Some externalId
             \<and> op_type op \<in> set types \<and> op_state op \<in> {OpPending, OpProcessing})
       (operations s)"

definition op_existsByExternalIdForTenant :: "uuid \<Rightarrow> string \<Rightarrow> string list \<Rightarrow> db \<Rightarrow> bool" where
  "op_existsByExternalIdForTenant tenantId externalId types s =
     (count_where (\<lambda>op. op_tenantId op = tenantId \<and> op_externalId op = Some externalId
                        \<and> op_type op \<in> set types) (operations s) > 0)"

definition op_findLatestByExternalIdAndTypeForTenant ::
    "uuid \<Rightarrow> string \<Rightarrow> string list \<Rightarrow> db \<Rightarrow> operation option" where
  "op_findLatestByExternalIdAndTypeForTenant tenantId externalId types s =
     find_latest op_createdAt
       (\<lambda>op. op_tenantId op = tenantId \<and> op_externalId op = Some externalId \<and> op_type op \<in> set types)
       (operations s)"

definition op_findByExternalId :: "string \<Rightarrow> db \<Rightarrow> operation option" where
  "op_findByExternalId externalId s =
     List.find (\<lambda>op. op_externalId op = Some externalId) (operations s)"

section \<open>Writes\<close>

text \<open>
  \<open>save\<close> of a new entity is an insert under an id the database generates, which the primary key
  refuses if it is taken. \<open>save\<close> of a loaded entity writes its row back; when something changed,
  \<open>updated_at\<close> moves.
\<close>

definition op_insert :: "operation \<Rightarrow> operation service" where
  "op_insert op = (\<lambda>s.
     if op_findById (op_id op) s \<noteq> None then throw (QueryFailed ''23505'' ''pk_operation'') s
     else bindA (put_operations (operations s @ [op])) (\<lambda>_. ret op) s)"

definition op_save :: "env \<Rightarrow> operation \<Rightarrow> operation service" where
  "op_save E op = (\<lambda>s.
     let row = (if op_findById (op_id op) s = Some op then op else op\<lparr>op_updatedAt := db_now E\<rparr>)
     in bindA (put_operations (save_row op_id row (operations s))) (\<lambda>_. ret row) s)"

definition op_markFirstView :: "uuid \<Rightarrow> int \<Rightarrow> int option \<Rightarrow> (int \<times> int) option service" where
  "op_markFirstView i viewedAt expiresAt =
     bindA (to_timestamp expiresAt) (\<lambda>expires s.
       let hit = (\<lambda>op. op_id op = i \<and> op_viewedAt op = None);
           rows = filter hit (operations s)
       in bindA (put_operations (update_where hit
                   (\<lambda>op. op\<lparr>op_viewedAt := Some (of_js viewedAt), op_expiresAt := expires\<rparr>) (operations s)))
            (\<lambda>_. ret (if rows = [] then None else Some (of_js viewedAt, expires))) s)"

definition op_updateState :: "env \<Rightarrow> uuid \<Rightarrow> OperationState \<Rightarrow> int option \<Rightarrow> unit service" where
  "op_updateState E i state expiresAt = (\<lambda>s.
     put_operations (update_where (\<lambda>op. op_id op = i)
       (\<lambda>op. op\<lparr>op_state := state,
                op_expiresAt := (case expiresAt of None \<Rightarrow> op_expiresAt op | Some m \<Rightarrow> of_js m),
                op_updatedAt := db_now E\<rparr>) (operations s)) s)"

text \<open>
  The patch of a guarded transition; \<open>None\<close> is a key left out of the patch. A driver that reports
  no affected count cannot occur here, so \<open>affected ?? 0\<close> is the count itself.
\<close>

record op_patch =
  pat_state :: OperationState
  pat_result :: "json option"
  pat_expiresAt :: "int option"
  pat_externalId :: "string option option"

definition apply_patch :: "env \<Rightarrow> int \<Rightarrow> op_patch \<Rightarrow> operation \<Rightarrow> operation" where
  "apply_patch E expires patch op =
     op\<lparr>op_state := pat_state patch,
        op_result := (case pat_result patch of None \<Rightarrow> op_result op | Some r \<Rightarrow> r),
        op_externalId := (case pat_externalId patch of None \<Rightarrow> op_externalId op | Some x \<Rightarrow> x),
        op_expiresAt := expires,
        op_updatedAt := db_now E\<rparr>"

definition op_transitionIfForward ::
    "env \<Rightarrow> uuid \<Rightarrow> uuid \<Rightarrow> OperationState list \<Rightarrow> op_patch \<Rightarrow> bool service" where
  "op_transitionIfForward E i tenantId fromStates patch =
     bindA (to_timestamp (pat_expiresAt patch)) (\<lambda>expires s.
       let hit = (\<lambda>op. op_id op = i \<and> op_tenantId op = tenantId \<and> op_state op \<in> set fromStates)
       in bindA (put_operations (update_where hit (apply_patch E expires patch) (operations s)))
            (\<lambda>_. ret (count_where hit (operations s) > 0)) s)"

definition op_updateResult :: "env \<Rightarrow> uuid \<Rightarrow> json \<Rightarrow> OperationState option \<Rightarrow> unit service" where
  "op_updateResult E i result state = (\<lambda>s.
     put_operations (update_where (\<lambda>op. op_id op = i)
       (\<lambda>op. op\<lparr>op_result := result,
                op_state := (case state of None \<Rightarrow> op_state op | Some st \<Rightarrow> st),
                op_updatedAt := db_now E\<rparr>) (operations s)) s)"

section \<open>Filtered lists and pages\<close>

record FindByTenantFilters =
  flt_tenantId :: uuid
  flt_state :: "OperationState option"
  flt_type :: "string option"
  flt_batchId :: "uuid option option"
  flt_limit :: "nat option"
  flt_cursor :: "Cursor option"

definition DEFAULT_LIMIT :: nat where "DEFAULT_LIMIT = 20"

definition op_sort_key :: "operation \<Rightarrow> int \<times> string" where
  "op_sort_key op = (op_createdAt op, op_id op)"

definition filter_matches :: "FindByTenantFilters \<Rightarrow> operation \<Rightarrow> bool" where
  "filter_matches f op =
     (op_tenantId op = flt_tenantId f
      \<and> (case flt_state f of None \<Rightarrow> True | Some st \<Rightarrow> op_state op = st)
      \<and> (case flt_type f of None \<Rightarrow> True | Some t \<Rightarrow> op_type op = t)
      \<and> (case flt_batchId f of None \<Rightarrow> True | Some b \<Rightarrow> op_batchId op = b))"

definition cursor_pos :: "cursor_lib \<Rightarrow> Cursor \<Rightarrow> err + (int \<times> string)" where
  "cursor_pos L c =
     (case cast_timestamptz L (cur_createdAt c) of
        None \<Rightarrow> Inl (QueryFailed ''22007'' '''')
      | Some t \<Rightarrow> Inr (t, cur_id c))"

definition buildFilteredQuery ::
    "cursor_lib \<Rightarrow> FindByTenantFilters \<Rightarrow> db \<Rightarrow> err + operation list" where
  "buildFilteredQuery L f s =
     (let run = (\<lambda>k. take (case flt_limit f of None \<Rightarrow> DEFAULT_LIMIT | Some n \<Rightarrow> n)
                   (order_desc op_sort_key
                     (filter (\<lambda>op. filter_matches f op \<and> beyond op_sort_key k op) (operations s))))
      in case flt_cursor f of
           None \<Rightarrow> Inr (run None)
         | Some c \<Rightarrow> (case cursor_pos L c of Inl e \<Rightarrow> Inl e | Inr k \<Rightarrow> Inr (run (Some k))))"

record OperationPage =
  page_items :: "operation list"
  page_nextCursor :: "Cursor option"
  page_hasMore :: bool

definition op_findPageForTenant ::
    "cursor_lib \<Rightarrow> FindByTenantFilters \<Rightarrow> db \<Rightarrow> err + OperationPage" where
  "op_findPageForTenant L f s =
     (let limit = (case flt_limit f of None \<Rightarrow> DEFAULT_LIMIT | Some n \<Rightarrow> n)
      in case buildFilteredQuery L (f\<lparr>flt_limit := Some (limit + 1)\<rparr>) s of
           Inl e \<Rightarrow> Inl e
         | Inr rows \<Rightarrow>
             (let hasMore = length rows > limit;
                  items = (if hasMore then take limit rows else rows)
              in Inr \<lparr>page_items = items,
                      page_nextCursor =
                        (if hasMore \<and> items \<noteq> []
                         then Some \<lparr>cur_createdAt = to_char L (op_createdAt (last items)),
                                    cur_id = op_id (last items)\<rparr>
                         else None),
                      page_hasMore = hasMore\<rparr>))"

definition op_findFailedBatchItemsForTenant :: "cursor_lib \<Rightarrow> uuid \<Rightarrow> uuid \<Rightarrow> db \<Rightarrow> err + operation list" where
  "op_findFailedBatchItemsForTenant L batchId tenantId s =
     buildFilteredQuery L
       \<lparr>flt_tenantId = tenantId, flt_state = Some OpFailed, flt_type = None,
        flt_batchId = Some (Some batchId), flt_limit = Some 100, flt_cursor = None\<rparr> s"

text \<open>
  The text whose digest is the fingerprint: \<open>id:state\<close> of every child in id order. The digest
  itself is computed in the database and is a parameter of the long poll.
\<close>

fun string_agg :: "string \<Rightarrow> string list \<Rightarrow> string" where
  "string_agg sep [] = ''''"
| "string_agg sep [x] = x"
| "string_agg sep (x # y # ys) = x @ sep @ string_agg sep (y # ys)"

definition op_batch_state_text :: "uuid \<Rightarrow> uuid \<Rightarrow> db \<Rightarrow> string" where
  "op_batch_state_text batchId tenantId s =
     string_agg '',''
       (map (\<lambda>op. op_id op @ '':'' @ operationState_value (op_state op))
         (sort_key op_id (filter (\<lambda>op. op_tenantId op = tenantId \<and> op_batchId op = Some batchId)
            (operations s))))"

section \<open>Batches\<close>

text \<open>
  \<open>SELECT ... FOR UPDATE\<close> of the parent: it reads the row and changes nothing; what it adds is
  that a second transaction waits, which the sequential composition of transactions expresses.
\<close>

definition op_lockBatchParent :: "uuid \<Rightarrow> uuid \<Rightarrow> unit service" where
  "op_lockBatchParent batchId tenantId =
     bindA (reads (op_findByIdForTenant batchId tenantId)) (\<lambda>_. ret ())"

type_synonym BatchStateCounts = "OperationState \<Rightarrow> nat"

definition group_counts :: "operation list \<Rightarrow> (OperationState \<times> nat) list" where
  "group_counts t =
     map (\<lambda>st. (st, count_where (\<lambda>op. op_state op = st) t)) (remdups (map op_state t))"

definition record_counts :: "(OperationState \<times> nat) list \<Rightarrow> BatchStateCounts" where
  "record_counts rows = fold (\<lambda>(st, n) counts. counts(st := n)) rows (\<lambda>_. 0)"

definition op_countByBatchGroupedByState :: "uuid \<Rightarrow> uuid \<Rightarrow> db \<Rightarrow> BatchStateCounts" where
  "op_countByBatchGroupedByState batchId tenantId s =
     record_counts (group_counts
       (filter (\<lambda>op. op_batchId op = Some batchId \<and> op_tenantId op = tenantId) (operations s)))"

definition op_claimBatchSettlement ::
    "env \<Rightarrow> uuid \<Rightarrow> uuid \<Rightarrow> OperationState \<Rightarrow> bool service" where
  "op_claimBatchSettlement E batchId tenantId state = (\<lambda>s.
     let hit = (\<lambda>op. op_id op = batchId \<and> op_tenantId op = tenantId \<and> op_state op = OpProcessing)
     in bindA (put_operations (update_where hit
                 (\<lambda>op. op\<lparr>op_state := state, op_updatedAt := db_now E\<rparr>) (operations s)))
          (\<lambda>_. ret (count_where hit (operations s) > 0)) s)"

section \<open>Purge and statistics\<close>

text \<open>
  The foreign keys into the operation table decide what a delete does: children of a deleted
  operation go with it (\<open>ON DELETE CASCADE\<close>), the links of exchanges and audit rows are cleared
  (\<open>SET NULL\<close>), and a credential that still refers to a deleted operation makes the statement
  fail (\<open>RESTRICT\<close>). The cascade is followed as often as the table has rows, which closes it.
\<close>

fun cascade_ids :: "nat \<Rightarrow> operation list \<Rightarrow> uuid list \<Rightarrow> uuid list" where
  "cascade_ids 0 t ids = ids"
| "cascade_ids (Suc n) t ids =
     cascade_ids n t (ids @ map op_id (filter (\<lambda>op. op_id op \<notin> set ids
        \<and> (case op_batchId op of None \<Rightarrow> False | Some b \<Rightarrow> b \<in> set ids)) t))"

definition delete_operations :: "uuid list \<Rightarrow> unit service" where
  "delete_operations ids = (\<lambda>s.
     let gone = cascade_ids (length (operations s)) (operations s) ids;
         clear = (\<lambda>l. case l of None \<Rightarrow> None | Some i \<Rightarrow> if i \<in> set gone then None else Some i)
     in if list_ex (\<lambda>c. cred_operationId c \<in> set gone) (credentials s)
        then throw (QueryFailed ''23503'' ''fk_credential_operation'') s
        else modifies (\<lambda>s. s\<lparr>
               operations := filter (\<lambda>op. op_id op \<notin> set gone) (operations s),
               exchanges := map (\<lambda>e. e\<lparr>exch_issueOperationId := clear (exch_issueOperationId e)\<rparr>)
                              (exchanges s),
               audit_log := map (\<lambda>a. a\<lparr>aud_operationId := clear (aud_operationId a)\<rparr>) (audit_log s)\<rparr>) s)"

definition op_purgeExpiredBatch :: "env \<Rightarrow> rat \<Rightarrow> (uuid \<times> nat) list service" where
  "op_purgeExpiredBatch E limit = (\<lambda>s.
     let safeLimit = nat (max 1 \<lfloor>limit\<rfloor>);
         doomed = take safeLimit
                    (sort_key op_expiresAt (filter (\<lambda>op. op_expiresAt op < db_now E) (operations s)))
     in bindA (delete_operations (map op_id doomed))
          (\<lambda>_. ret (map (\<lambda>t. (t, count_where (\<lambda>op. op_tenantId op = t) doomed))
                        (remdups (map op_tenantId doomed)))) s)"

record OperationStats =
  countsByState :: BatchStateCounts
  totalCount :: nat
  oldestPendingCreatedAt :: "int option"

definition op_getStats :: "db \<Rightarrow> OperationStats" where
  "op_getStats s =
     (let rows = group_counts (operations s)
      in \<lparr>countsByState = record_counts rows,
          totalCount = sum_list (map snd rows),
          oldestPendingCreatedAt =
            (case sort_key op_createdAt (filter (\<lambda>op. op_state op = OpPending) (operations s)) of
               [] \<Rightarrow> None | op # _ \<Rightarrow> Some (op_createdAt op))\<rparr>)"

section \<open>Guarded transitions\<close>

definition transition_hit :: "env \<times> uuid \<times> uuid \<times> OperationState list \<times> op_patch \<Rightarrow> operation \<Rightarrow> bool" where
  "transition_hit p op =
     (case p of (E, i, tenantId, fromStates, patch) \<Rightarrow>
        op_id op = i \<and> op_tenantId op = tenantId \<and> op_state op \<in> set fromStates)"

definition transition_upd :: "env \<times> uuid \<times> uuid \<times> OperationState list \<times> op_patch \<Rightarrow> operation \<Rightarrow> operation" where
  "transition_upd p op =
     (case p of (E, i, tenantId, fromStates, patch) \<Rightarrow>
        apply_patch E (of_js (the (pat_expiresAt patch))) patch op)"

lemma op_transitionIfForward_Inr:
  "op_transitionIfForward E i tenantId fromStates patch s = (Inr b, s') \<longleftrightarrow>
   (\<exists>m. pat_expiresAt patch = Some m \<and>
      put_operations (update_where (transition_hit (E, i, tenantId, fromStates, patch))
        (transition_upd (E, i, tenantId, fromStates, patch)) (operations s)) s = (Inr (), s')
      \<and> b = (\<exists>op \<in> set (operations s). transition_hit (E, i, tenantId, fromStates, patch) op))"
proof -
  have h: "transition_hit (E, i, tenantId, fromStates, patch) =
      (\<lambda>op. op_id op = i \<and> op_tenantId op = tenantId \<and> op_state op \<in> set fromStates)"
    by (rule ext) (simp add: transition_hit_def)
  have u: "transition_upd (E, i, tenantId, fromStates, patch) =
      apply_patch E (of_js (the (pat_expiresAt patch))) patch"
    by (rule ext) (simp add: transition_upd_def)
  show ?thesis
    by (auto simp: op_transitionIfForward_def bindA_Inr_iff to_timestamp_Inr Let_def ret_def
          count_where_pos h u)
qed

lemma op_transitionIfForward_Inl:
  "op_transitionIfForward E i tenantId fromStates patch s = (Inl e, s') \<Longrightarrow> s' = s"
  by (auto simp: op_transitionIfForward_def Let_def ret_def elim!: bindA_Inl_cases
        dest: put_operations_Inl to_timestamp_store)

interpretation transition_cas: guarded_write operations transition_hit transition_upd
  "\<lambda>(E, i, tenantId, fromStates, patch). pat_state patch \<notin> set fromStates"
  "\<lambda>(E, i, tenantId, fromStates, patch). op_transitionIfForward E i tenantId fromStates patch"
proof (unfold_locales, goal_cases)
  case (1 p s b s')
  then show ?case by (cases p) (auto simp: op_transitionIfForward_Inr put_operations_Inr)
next
  case (2 p s e s')
  then show ?case by (cases p) (auto dest: op_transitionIfForward_Inl)
next
  case (3 p r)
  then show ?case
    by (cases p) (auto simp: transition_hit_def transition_upd_def apply_patch_def)
qed

text \<open>
  C16 A guarded transition is applied exactly once however often it is delivered: of any number of
  identical attempts only the first can win, it wins exactly when the operation of that tenant was
  still in one of the allowed states, and the table is then as after that one update.
\<close>

theorem transition_exactly_once:
  assumes "pat_state patch \<notin> set fromStates"
    and "repeatA (Suc n) (op_transitionIfForward E i tenantId fromStates patch) s = (Inr bs, s')"
  shows "bs = (\<exists>op \<in> set (operations s). op_id op = i \<and> op_tenantId op = tenantId
                  \<and> op_state op \<in> set fromStates) # replicate n False
    \<and> operations s' = update_where
           (\<lambda>op. op_id op = i \<and> op_tenantId op = tenantId \<and> op_state op \<in> set fromStates)
           (apply_patch E (of_js (the (pat_expiresAt patch))) patch) (operations s)"
  using transition_cas.one_winner [of "(E, i, tenantId, fromStates, patch)" n s bs s'] assms
  by (simp_all add: transition_hit_def [abs_def] transition_upd_def [abs_def])

definition sample_patch :: op_patch where
  "sample_patch = \<lparr>pat_state = OpCompleted, pat_result = None, pat_expiresAt = Some 7, pat_externalId = None\<rparr>"

definition pending_db :: db where
  "pending_db = empty_db\<lparr>operations := [sample_operation ''o1'' CREDENTIAL_OFFER OpPending]\<rparr>"

theorem transition_exactly_once_witness:
  "\<exists>s'. repeatA (Suc 2) (op_transitionIfForward sample_env ''o1'' ''t1'' [OpPending, OpProcessing] sample_patch)
          pending_db = (Inr [True, False, False], s')
     \<and> operations s' = update_where
           (\<lambda>op. op_id op = ''o1'' \<and> op_tenantId op = ''t1'' \<and> op_state op \<in> set [OpPending, OpProcessing])
           (apply_patch sample_env (of_js (the (pat_expiresAt sample_patch))) sample_patch) (operations pending_db)"
proof -
  let ?run = "repeatA (Suc 2) (op_transitionIfForward sample_env ''o1'' ''t1'' [OpPending, OpProcessing] sample_patch) pending_db"
  have "fst ?run = Inr [True, False, False]" by code_simp
  then have run: "?run = (Inr [True, False, False], snd ?run)" by (simp add: prod_eq_iff)
  have "pat_state sample_patch \<notin> set [OpPending, OpProcessing]" by code_simp
  from transition_exactly_once [OF this run] run show ?thesis by blast
qed

section \<open>Pages\<close>

text \<open>The timestamp text of a cursor reads back as the row's own timestamp, to the microsecond.\<close>

definition time_text_ok :: "cursor_lib \<Rightarrow> db \<Rightarrow> bool" where
  "time_text_ok L s = (\<forall>op \<in> set (operations s). cast_timestamptz L (to_char L (op_createdAt op)) = Some (op_createdAt op))"

definition page_limit :: "FindByTenantFilters \<Rightarrow> nat" where
  "page_limit f = (case flt_limit f of None \<Rightarrow> DEFAULT_LIMIT | Some n \<Rightarrow> n)"

definition fetch_page ::
    "cursor_lib \<Rightarrow> FindByTenantFilters \<Rightarrow> db \<Rightarrow> Cursor option \<Rightarrow> operation list \<times> Cursor option" where
  "fetch_page L f s cur =
     (case op_findPageForTenant L (f\<lparr>flt_cursor := cur\<rparr>) s of
        Inl e \<Rightarrow> ([], None)
      | Inr page \<Rightarrow> (page_items page, page_nextCursor page))"

definition pos_of :: "cursor_lib \<Rightarrow> Cursor \<Rightarrow> int \<times> string" where
  "pos_of L c = (the (cast_timestamptz L (cur_createdAt c)), cur_id c)"

lemma fetch_page_eq:
  assumes "pred_option (\<lambda>c. cast_timestamptz L (cur_createdAt c) \<noteq> None) cur"
    and "left = filter (beyond op_sort_key (map_option (pos_of L) cur))
                  (order_desc op_sort_key (filter (filter_matches f) (operations s)))"
  shows "fetch_page L f s cur =
    (take (page_limit f) left,
     if page_limit f < length left \<and> 0 < page_limit f
     then Some \<lparr>cur_createdAt = to_char L (op_createdAt (last (take (page_limit f) left))),
                cur_id = op_id (last (take (page_limit f) left))\<rparr>
     else None)"
proof -
  have m: "filter_matches (f\<lparr>flt_cursor := c, flt_limit := l\<rparr>) = filter_matches f" for l c
    by (rule ext) (simp add: filter_matches_def)
  have "filter (\<lambda>op. filter_matches f op \<and> beyond op_sort_key k op) (operations s) =
      filter (beyond op_sort_key k) (filter (filter_matches f) (operations s))" for k
    by (simp add: conj_commute)
  then have rows: "buildFilteredQuery L (f\<lparr>flt_cursor := cur, flt_limit := Some (page_limit f + 1)\<rparr>) s =
      Inr (take (page_limit f + 1) left)"
    using assms by (cases cur)
      (auto simp: buildFilteredQuery_def cursor_pos_def pos_of_def m order_desc_filter)
  have "op_findPageForTenant L (f\<lparr>flt_cursor := cur\<rparr>) s =
     (let rows = take (page_limit f + 1) left; hasMore = length rows > page_limit f;
          items = (if hasMore then take (page_limit f) rows else rows)
      in Inr \<lparr>page_items = items,
              page_nextCursor = (if hasMore \<and> items \<noteq> []
                 then Some \<lparr>cur_createdAt = to_char L (op_createdAt (last items)), cur_id = op_id (last items)\<rparr>
                 else None),
              page_hasMore = hasMore\<rparr>)"
    using rows by (simp add: op_findPageForTenant_def page_limit_def Let_def)
  then show ?thesis
    by (auto simp: fetch_page_def Let_def min_def)
qed

interpretation op_pages: keyset
  "\<lambda>(L, f, s). time_text_ok L s \<and> key_table op_id (operations s) \<and> 0 < page_limit f"
  "\<lambda>(L, f, s). filter (filter_matches f) (operations s)"
  op_sort_key
  "\<lambda>(L, f, s). page_limit f"
  "\<lambda>(L, f, s) c. cast_timestamptz L (cur_createdAt c) \<noteq> None"
  "\<lambda>(L, f, s). pos_of L"
  "\<lambda>(L, f, s). fetch_page L f s"
proof (unfold_locales, goal_cases)
  case (1 i)
  then obtain L f s where i: "i = (L, f, s)" "distinct (map op_id (operations s))"
    by (cases i) (auto simp: key_table_def)
  have "distinct (map op_sort_key (filter (filter_matches f) (operations s)))"
    using i(2) by (auto simp: distinct_map op_sort_key_def inj_on_def)
  with i show ?case by simp
next
  case (2 i)
  then show ?case by (auto split: prod.splits)
next
  case (3 i cur)
  obtain L f s where i: "i = (L, f, s)" by (cases i)
  have "pred_option (\<lambda>c. cast_timestamptz L (cur_createdAt c) \<noteq> None) cur" using 3(2) by (simp add: i)
  from fetch_page_eq [OF this refl, of f s] show ?case by (simp add: i)
next
  case (4 i cur)
  obtain L f s where i: "i = (L, f, s)" by (cases i)
  define left where "left = filter (beyond op_sort_key (map_option (pos_of L) cur))
                  (order_desc op_sort_key (filter (filter_matches f) (operations s)))"
  have ok: "time_text_ok L s" "0 < page_limit f" using 4(1) by (auto simp: i)
  have "pred_option (\<lambda>c. cast_timestamptz L (cur_createdAt c) \<noteq> None) cur" using 4(2) by (simp add: i)
  note page = fetch_page_eq [OF this left_def]
  have "cast_timestamptz L (to_char L (op_createdAt (last (take n left)))) =
      Some (op_createdAt (last (take n left)))" if "n < length left" "0 < n" for n
  proof -
    have "take n left \<noteq> []" using that by auto
    then have "last (take n left) \<in> set left" by (meson in_set_takeD last_in_set)
    then have "last (take n left) \<in> set (operations s)" by (simp add: left_def)
    with ok(1) show ?thesis by (simp add: time_text_ok_def)
  qed
  with page ok(2) show ?case
    by (simp add: i Let_def left_def [symmetric] pos_of_def op_sort_key_def)
qed

text \<open>
  C18 Following the cursors lists every matching operation of the tenant exactly once, newest first:
  a client that starts without a cursor and asks for pages until there is no next cursor ends, and
  its pages concatenate to the whole filtered table in order.
\<close>

theorem operation_pages_complete:
  assumes "time_text_ok L s" and "key_table op_id (operations s)" and "0 < page_limit f"
    and "length (operations s) < n"
  shows "walk n (fetch_page L f s) None =
    Some (order_desc op_sort_key (filter (filter_matches f) (operations s)))"
proof -
  have "length (filter (filter_matches f) (operations s)) < n"
    using assms(4) length_filter_le [of "filter_matches f" "operations s"] by linarith
  with op_pages.walk_all [of "(L, f, s)" n] assms(1-3) show ?thesis by simp
qed

definition three_db :: db where
  "three_db = empty_db\<lparr>operations :=
     [sample_operation ''o1'' CREDENTIAL_OFFER OpPending, sample_operation ''o2'' CREDENTIAL_OFFER OpFailed,
      (sample_operation ''o3'' CREDENTIAL_OFFER OpFailed)\<lparr>op_createdAt := 9\<rparr>]\<rparr>"

definition all_filter :: "nat \<Rightarrow> FindByTenantFilters" where
  "all_filter n = \<lparr>flt_tenantId = ''t1'', flt_state = None, flt_type = None, flt_batchId = None,
                   flt_limit = Some n, flt_cursor = None\<rparr>"

theorem operation_pages_complete_witness:
  "map_option (map op_id) (walk 4 (fetch_page sample_lib (all_filter 1) three_db) None) = Some [''o3'', ''o2'', ''o1'']"
proof -
  have "time_text_ok sample_lib three_db" "key_table op_id (operations three_db)"
    "0 < page_limit (all_filter 1)" "length (operations three_db) < 4"
    by (simp_all add: time_text_ok_def three_db_def sample_operation_def sample_lib_def key_table_def
          page_limit_def all_filter_def)
  from operation_pages_complete [OF this]
  have "map_option (map op_id) (walk 4 (fetch_page sample_lib (all_filter 1) three_db) None) =
    Some (map op_id (order_desc op_sort_key (filter (filter_matches (all_filter 1)) (operations three_db))))"
    by simp
  also have "\<dots> = Some [''o3'', ''o2'', ''o1'']" by code_simp
  finally show ?thesis .
qed

section \<open>Batch counts\<close>

lemma record_counts_fold:
  "fold (\<lambda>(st, n) counts. counts(st := n)) (map (\<lambda>st. (st, g st)) xs) c st =
   (if st \<in> set xs then g st else c st)"
  by (induction xs arbitrary: c) auto

lemma record_group_counts:
  "record_counts (group_counts t) st = count_where (\<lambda>op. op_state op = st) t"
proof (cases "st \<in> op_state ` set t")
  case False
  then have "count_where (\<lambda>op. op_state op = st) t = 0"
    by (auto simp: count_where_def filter_empty_conv)
  with False show ?thesis by (simp add: record_counts_def group_counts_def record_counts_fold)
qed (simp add: record_counts_def group_counts_def record_counts_fold)

lemma counts_by_state_sum:
  "count_where (\<lambda>op. op_state op = OpPending) t + count_where (\<lambda>op. op_state op = OpProcessing) t
   + count_where (\<lambda>op. op_state op = OpCompleted) t + count_where (\<lambda>op. op_state op = OpFailed) t = length t"
proof (induction t)
  case (Cons op t)
  then show ?case by (cases "op_state op") (simp_all add: count_where_def)
qed (simp add: count_where_def)

text \<open>
  The batch recount is exact: each figure is the number of the tenant's items of that batch in
  that state, and the four figures add up to the number of items.
\<close>

theorem batch_recount_exact:
  "(\<forall>st. op_countByBatchGroupedByState batchId tenantId s st =
      count_where (\<lambda>op. op_batchId op = Some batchId \<and> op_tenantId op = tenantId \<and> op_state op = st) (operations s))
   \<and> op_countByBatchGroupedByState batchId tenantId s OpPending
     + op_countByBatchGroupedByState batchId tenantId s OpProcessing
     + op_countByBatchGroupedByState batchId tenantId s OpCompleted
     + op_countByBatchGroupedByState batchId tenantId s OpFailed
     = count_where (\<lambda>op. op_batchId op = Some batchId \<and> op_tenantId op = tenantId) (operations s)"
proof -
  have "count_where (\<lambda>op. op_state op = st) (filter (\<lambda>op. op_batchId op = Some batchId \<and> op_tenantId op = tenantId) (operations s))
      = count_where (\<lambda>op. op_batchId op = Some batchId \<and> op_tenantId op = tenantId \<and> op_state op = st) (operations s)" for st
    by (simp add: count_where_def conj_commute conj_left_commute)
  then show ?thesis
    using counts_by_state_sum [of "filter (\<lambda>op. op_batchId op = Some batchId \<and> op_tenantId op = tenantId) (operations s)"]
    by (simp add: op_countByBatchGroupedByState_def record_group_counts count_where_def)
qed

end
