(* ===== verification/Operation_Service.thy ===== *)
theory Operation_Service
  imports Operation_Repository
begin

text \<open>
  \<open>operation.service.ts\<close>: creating operations, reading them with the first-view stamp and the batch
  summary, long polling, and the two state transitions.

  A request's abort signal is modelled per awaited call: \<open>Connected\<close>, already \<open>Aborted\<close>, or
  \<open>AbortedDuring\<close> the call, in which case the caller gets the cancellation while the statement
  that was started still takes effect. \<open>sg n\<close> is the signal at the n-th awaited call of a method.
\<close>

section \<open>Creation\<close>

record CreateOperationInput =
  in_tenantId :: uuid
  in_type :: string
  in_request :: OperationRequest
  in_batchId :: "uuid option"
  in_externalId :: "string option"
  in_exchangeId :: "uuid option"

definition computeExpiresAt :: "OperationState \<Rightarrow> int \<Rightarrow> int option \<Rightarrow> json \<Rightarrow> int option" where
  "computeExpiresAt state createdAt viewedAt tenantConfig =
     computeOperationExpiresAt state createdAt viewedAt tenantConfig"

definition createOperation :: "env \<Rightarrow> uuid \<Rightarrow> CreateOperationInput \<Rightarrow> operation service" where
  "createOperation E newId input =
     bindA (tenants_findById (in_tenantId input)) (\<lambda>tenant.
     bindA (to_timestamp (computeExpiresAt OpPending (js_now E) None (ten_config tenant))) (\<lambda>expires.
       op_insert
         \<lparr>op_id = newId, op_tenantId = in_tenantId input, op_batchId = in_batchId input,
          op_type = in_type input, op_state = OpPending, op_request = in_request input,
          op_result = JNull, op_externalId = in_externalId input, op_exchangeId = in_exchangeId input,
          op_viewedAt = None, op_expiresAt = expires, op_createdAt = db_now E, op_updatedAt = db_now E\<rparr>))"

section \<open>Reads\<close>

datatype signal = Connected | Aborted | AbortedDuring

definition polling_cancelled :: err where
  "polling_cancelled = ServiceUnavailableException ''Operation polling cancelled''"

definition awaitWhileConnected :: "signal \<Rightarrow> 'a service \<Rightarrow> 'a service" where
  "awaitWhileConnected sig load =
     (case sig of
        Connected \<Rightarrow> load
      | Aborted \<Rightarrow> throw polling_cancelled
      | AbortedDuring \<Rightarrow> (\<lambda>s. (Inl polling_cancelled, snd (load s))))"

definition isBatchParent :: "operation \<Rightarrow> bool" where
  "isBatchParent op = ((case op_batchId op of None \<Rightarrow> True | Some b \<Rightarrow> b = '''') \<and> isBatchOperationType (op_type op))"

definition failure_code :: "json \<Rightarrow> string" where
  "failure_code result = (case jget result ''code'' of Some (JStr c) \<Rightarrow> c | _ \<Rightarrow> ''OPERATION_FAILED'')"

definition failure_message :: "json \<Rightarrow> string" where
  "failure_message result = (case jget result ''message'' of Some (JStr m) \<Rightarrow> m | _ \<Rightarrow> ''Operation failed'')"

definition failureResult :: "operation \<Rightarrow> (string \<times> json) list" where
  "failureResult op =
     [(''code'', JStr (failure_code (op_result op))), (''message'', JStr (failure_message (op_result op)))]"

definition applyViewed :: "env \<Rightarrow> (nat \<Rightarrow> signal) \<Rightarrow> operation \<Rightarrow> operation service" where
  "applyViewed E sg op =
     bindA (awaitWhileConnected (sg 0) (tenants_findById (op_tenantId op))) (\<lambda>tenant.
     let viewedAt = js_now E;
         expiresAt = computeExpiresAt (op_state op) (to_js (op_createdAt op)) (Some viewedAt) (ten_config tenant)
     in bindA (awaitWhileConnected (sg 1) (op_markFirstView (op_id op) viewedAt expiresAt)) (\<lambda>stored.
        case stored of
          None \<Rightarrow>
            bindA (awaitWhileConnected (sg 2) (reads (op_findById (op_id op)))) (\<lambda>current.
              found (NotFoundException ''Operation not found'') current)
        | Some (v, e) \<Rightarrow> ret (op\<lparr>op_viewedAt := Some v, op_expiresAt := e\<rparr>)))"

definition settled_counts :: "operation \<Rightarrow> (rat \<times> rat \<times> rat \<times> rat) option" where
  "settled_counts op =
     (if isTerminalOperationState (op_state op)
      then (case (jget (op_result op) ''completed'', jget (op_result op) ''failed'') of
              (Some (JNum completed), Some (JNum failed)) \<Rightarrow> Some (0, 0, completed, failed)
            | _ \<Rightarrow> None)
      else None)"

definition batch_counts :: "BatchStateCounts \<Rightarrow> rat \<times> rat \<times> rat \<times> rat" where
  "batch_counts counts =
     (of_nat (counts OpPending), of_nat (counts OpProcessing),
      of_nat (counts OpCompleted), of_nat (counts OpFailed))"

definition batch_summary ::
    "cursor_lib \<Rightarrow> (nat \<Rightarrow> signal) \<Rightarrow> operation \<Rightarrow> operation service" where
  "batch_summary L sg op =
     bindA (case settled_counts op of
              Some counts \<Rightarrow> ret counts
            | None \<Rightarrow> awaitWhileConnected (sg 3)
                        (reads (\<lambda>s. batch_counts (op_countByBatchGroupedByState (op_id op) (op_tenantId op) s))))
       (\<lambda>(pending, processing, completed, failed).
          let total = pending + processing + completed + failed
          in if op_state op = OpProcessing
             then ret (op\<lparr>op_result := JObj
                    [(''total'', JNum total), (''pending'', JNum pending), (''processing'', JNum processing),
                     (''completed'', JNum completed), (''failed'', JNum failed)]\<rparr>)
             else bindA (awaitWhileConnected (sg 4)
                           (\<lambda>s. lift (op_findFailedBatchItemsForTenant L (op_id op) (op_tenantId op) s) s))
                    (\<lambda>failures. ret (op\<lparr>op_result := JObj
                       [(''total'', JNum total), (''completed'', JNum completed), (''failed'', JNum failed),
                        (''errors'', JArr (map (\<lambda>child. JObj ((''id'', JStr (op_id child)) # failureResult child))
                                              (take 100 failures)))]\<rparr>)))"

definition prepareForRead ::
    "env \<Rightarrow> cursor_lib \<Rightarrow> (nat \<Rightarrow> signal) \<Rightarrow> operation \<Rightarrow> operation service" where
  "prepareForRead E L sg op0 =
     bindA (if isTerminalOperationState (op_state op0) \<and> op_viewedAt op0 = None
            then applyViewed E sg op0 else ret op0) (\<lambda>op.
       if isBatchParent op \<and>
          (op_state op = OpProcessing \<or> op_state op = OpCompleted
           \<or> (op_state op = OpFailed \<and> settled_counts op \<noteq> None))
       then batch_summary L sg op
       else if op_type op = CREDENTIAL_DEFINITION_REGISTER then ret op
       else if \<not> isTerminalOperationState (op_state op) then ret (op\<lparr>op_result := JNull\<rparr>)
       else if op_state op = OpFailed then ret (op\<lparr>op_result := JObj (failureResult op)\<rparr>)
       else ret op)"

definition getForTenant :: "env \<Rightarrow> cursor_lib \<Rightarrow> uuid \<Rightarrow> uuid \<Rightarrow> operation service" where
  "getForTenant E L tenantId i =
     bindA (reads (op_findByIdForTenant i tenantId)) (\<lambda>row.
     bindA (found (NotFoundException ''Operation not found'') row) (\<lambda>op.
       prepareForRead E L (\<lambda>_. Connected) op))"

definition markViewed :: "env \<Rightarrow> uuid \<Rightarrow> operation service" where
  "markViewed E i =
     bindA (reads (op_findById i)) (\<lambda>row.
     bindA (found (NotFoundException ''Operation not found'') row) (\<lambda>op.
       if op_viewedAt op \<noteq> None then ret op else applyViewed E (\<lambda>_. Connected) op))"

record operation_actor =
  act_sub :: string
  act_tokenType :: string

definition auditLog_write :: "audit_row \<Rightarrow> unit service" where
  "auditLog_write row = modifies (\<lambda>s. s\<lparr>audit_log := audit_log s @ [row]\<rparr>)"

definition getRequestForTenant ::
    "env \<Rightarrow> cursor_lib \<Rightarrow> uuid \<Rightarrow> uuid \<Rightarrow> operation_actor \<Rightarrow> OperationRequest service" where
  "getRequestForTenant E L tenantId i actor =
     bindA (getForTenant E L tenantId i) (\<lambda>op.
     bindA (auditLog_write
              \<lparr>aud_tenantId = tenantId, aud_actorId = act_sub actor,
               aud_actorType = (if act_tokenType actor = ''client'' then ActorClient else ActorUser),
               aud_action = AuditRead, aud_resourceType = ''operation_request'',
               aud_resourceId = op_id op, aud_operationId = Some (op_id op),
               aud_metadata = [(''accessed_at'', JStr (toISOString L (js_now E)))]\<rparr>) (\<lambda>_.
       ret (op_request op)))"

section \<open>Lists\<close>

text \<open>\<open>Promise.all\<close>: every promise runs to its end; the first rejection is the result.\<close>

fun promise_all :: "('a \<Rightarrow> 'b service) \<Rightarrow> 'a list \<Rightarrow> 'b list service" where
  "promise_all f [] = ret []"
| "promise_all f (x # xs) = (\<lambda>s.
     case f x s of
       (Inr y, s1) \<Rightarrow> bindA (promise_all f xs) (\<lambda>ys. ret (y # ys)) s1
     | (Inl e, s1) \<Rightarrow> (Inl e, snd (promise_all f xs s1)))"

record ListOperationsQuery =
  qry_state :: "OperationState option"
  qry_type :: "string option"
  qry_limit :: "nat option"
  qry_cursor :: "string option"

record PaginatedOperations =
  pg_data :: "operation list"
  pg_next_cursor :: "string option"
  pg_has_more :: bool

definition decode_query_cursor :: "cursor_lib \<Rightarrow> string option \<Rightarrow> Cursor option service" where
  "decode_query_cursor L raw =
     (case raw of None \<Rightarrow> ret None | Some r \<Rightarrow> bindA (lift (decodeCursor L r)) (\<lambda>c. ret (Some c)))"

definition listForTenant ::
    "env \<Rightarrow> cursor_lib \<Rightarrow> uuid \<Rightarrow> ListOperationsQuery \<Rightarrow> PaginatedOperations service" where
  "listForTenant E L tenantId query =
     bindA (decode_query_cursor L (qry_cursor query)) (\<lambda>cursor.
     bindA (\<lambda>s. lift (op_findPageForTenant L
              \<lparr>flt_tenantId = tenantId, flt_state = qry_state query, flt_type = qry_type query,
               flt_batchId = None, flt_limit = qry_limit query, flt_cursor = cursor\<rparr> s) s) (\<lambda>page.
     bindA (promise_all (prepareForRead E L (\<lambda>_. Connected)) (page_items page)) (\<lambda>items.
       ret \<lparr>pg_data = items,
            pg_next_cursor = map_option (encodeCursor L) (page_nextCursor page),
            pg_has_more = page_hasMore page\<rparr>)))"

definition listItemsForTenant ::
    "env \<Rightarrow> cursor_lib \<Rightarrow> (nat \<Rightarrow> signal) \<Rightarrow> uuid \<Rightarrow> uuid \<Rightarrow> ListOperationsQuery \<Rightarrow>
     PaginatedOperations service" where
  "listItemsForTenant E L sg tenantId i query =
     bindA (awaitWhileConnected (sg 5) (reads (op_findByIdForTenant i tenantId))) (\<lambda>parent.
     bindA (require (case parent of None \<Rightarrow> False | Some p \<Rightarrow> isBatchParent p)
              (NotFoundException ''Batch operation not found'')) (\<lambda>_.
     bindA (awaitWhileConnected (sg 6)
              (bindA (decode_query_cursor L (qry_cursor query)) (\<lambda>cursor s.
                 lift (op_findPageForTenant L
                   \<lparr>flt_tenantId = tenantId, flt_state = qry_state query, flt_type = None,
                    flt_batchId = Some (Some i), flt_limit = qry_limit query, flt_cursor = cursor\<rparr> s) s)))
       (\<lambda>page.
     bindA (awaitWhileConnected (sg 7) (promise_all (prepareForRead E L sg) (page_items page))) (\<lambda>items.
       ret \<lparr>pg_data = items,
            pg_next_cursor = map_option (encodeCursor L) (page_nextCursor page),
            pg_has_more = page_hasMore page\<rparr>))))"

section \<open>Transitions\<close>

definition UNCLASSIFIED_LABEL :: string where
  "UNCLASSIFIED_LABEL = ''unclassified''"

definition recordTerminalOutcome :: "string \<Rightarrow> OperationState \<Rightarrow> unit service" where
  "recordTerminalOutcome type state =
     (if state \<noteq> OpCompleted \<and> state \<noteq> OpFailed then ret ()
      else modifies (\<lambda>s. s\<lparr>metrics := metrics s @
             [(if isKnownOperationType type then type else UNCLASSIFIED_LABEL,
               if state = OpCompleted then ''completed'' else ''failed'')]\<rparr>))"

text \<open>
  \<open>transitionState\<close> reads inside its caller's transaction only when it is given both the manager and
  the tenant; \<open>committed\<close> is the store other reads see.
\<close>

definition transitionState ::
    "env \<Rightarrow> db \<Rightarrow> uuid \<Rightarrow> OperationState \<Rightarrow> json option \<Rightarrow> uuid option \<Rightarrow> operation service" where
  "transitionState E committed i state result tenantId =
     bindA (reads (\<lambda>s. case tenantId of
              Some t \<Rightarrow> op_findByIdForTenant i t s
            | None \<Rightarrow> op_findById i committed)) (\<lambda>row.
     bindA (found (NotFoundException ''Operation not found'') row) (\<lambda>op.
     bindA (tenants_findById (op_tenantId op)) (\<lambda>tenant.
     bindA (to_timestamp (computeExpiresAt state (to_js (op_createdAt op))
              (map_option to_js (op_viewedAt op)) (ten_config tenant))) (\<lambda>expires.
     bindA (op_save E (op\<lparr>op_state := state,
              op_result := (case result of None \<Rightarrow> op_result op | Some r \<Rightarrow> r),
              op_expiresAt := expires\<rparr>)) (\<lambda>saved.
     bindA (recordTerminalOutcome (op_type saved) state) (\<lambda>_.
       ret saved))))))"

definition transitionStateIfForward ::
    "env \<Rightarrow> uuid \<Rightarrow> OperationState \<Rightarrow> OperationState list \<Rightarrow> json option \<Rightarrow> string option option \<Rightarrow>
     operation option service" where
  "transitionStateIfForward E i state fromStates result externalId =
     bindA (reads (op_findById i)) (\<lambda>row.
     bindA (found (NotFoundException ''Operation not found'') row) (\<lambda>op.
     bindA (tenants_findById (op_tenantId op)) (\<lambda>tenant.
     let expiresAt = computeExpiresAt state (to_js (op_createdAt op))
                       (map_option to_js (op_viewedAt op)) (ten_config tenant)
     in bindA (op_transitionIfForward E i (op_tenantId op) fromStates
              \<lparr>pat_state = state, pat_result = result, pat_expiresAt = expiresAt,
               pat_externalId = externalId\<rparr>) (\<lambda>won.
        if \<not> won then ret None
        else bindA (reads (op_findById i)) (\<lambda>reloaded.
             bindA (found (NotFoundException ''Operation not found'') reloaded) (\<lambda>updated.
             bindA (recordTerminalOutcome (op_type updated) state) (\<lambda>_.
               ret (Some updated))))))))"

section \<open>Behaviour of the primitives\<close>

lemma tenants_findById_Inr:
  "tenants_findById t s = (Inr ten, s') \<longleftrightarrow>
   s' = s \<and> List.find (\<lambda>x. ten_id x = t \<and> ten_deletedAt x = None) (tenants s) = Some ten"
  by (auto simp: tenants_findById_def found_def ret_def throw_def split: option.splits)

lemma tenants_findById_store [simp]: "snd (tenants_findById t s) = s"
  by (simp add: tenants_findById_def found_def ret_def throw_def split: option.split)

lemmas run_Inr = action_Inr tenants_findById_Inr to_timestamp_Inr

lemma recordTerminalOutcome_tables:
  "recordTerminalOutcome ty st s = (r, s') \<Longrightarrow>
   operations s' = operations s \<and> credentials s' = credentials s \<and> connections s' = connections s
   \<and> exchanges s' = exchanges s \<and> tenants s' = tenants s \<and> jobs s' = jobs s \<and> r = Inr ()"
  by (auto simp: recordTerminalOutcome_def ret_def modifies_def split: if_splits)

lemma recordTerminalOutcome_metrics:
  "recordTerminalOutcome ty st s = (r, s') \<Longrightarrow> metrics s' = metrics s @
     (if isTerminalOperationState st
      then [(if isKnownOperationType ty then ty else UNCLASSIFIED_LABEL,
             if st = OpCompleted then ''completed'' else ''failed'')] else [])"
  by (cases st) (auto simp: recordTerminalOutcome_def isTerminalOperationState_def ret_def modifies_def)

lemma op_insert_Inr:
  "op_insert op s = (Inr x, s') \<longleftrightarrow>
   op_findById (op_id op) s = None \<and> x = op
   \<and> put_operations (operations s @ [op]) s = (Inr (), s')"
  by (auto simp: op_insert_def throw_def run_Inr)

section \<open>Creation and lookup\<close>

text \<open>
  C26 A created operation is pending, belongs to the tenant that asked, expires no earlier than now,
  is found under its new id by that tenant and by no other, and no other row of the table changed.
\<close>

theorem createOperation_lookup:
  assumes "createOperation E newId input s = (Inr op, s')"
  shows "op_state op = OpPending \<and> op_tenantId op = in_tenantId input \<and> of_js (js_now E) \<le> op_expiresAt op
    \<and> operations s' = operations s @ [op]
    \<and> op_findByIdForTenant newId (in_tenantId input) s' = Some op
    \<and> (\<forall>t. t \<noteq> in_tenantId input \<longrightarrow> op_findByIdForTenant newId t s' = None)"
proof -
  have "\<exists>(ten :: tenant) m. computeExpiresAt OpPending (js_now E) None (ten_config ten) = Some m
      \<and> op_expiresAt op = of_js m"
    and fresh: "op_findById newId s = None"
    and put: "put_operations (operations s @ [op]) s = (Inr (), s')"
    and op: "op_state op = OpPending" "op_tenantId op = in_tenantId input" "op_id op = newId"
    using assms by (auto simp: createOperation_def run_Inr op_insert_Inr)
  then obtain ten :: tenant and m where e: "computeExpiresAt OpPending (js_now E) None (ten_config ten) = Some m"
    and m: "op_expiresAt op = of_js m" by blast
  have "js_now E \<le> m"
    using js_Date_ge [OF _ resolved_ttl_pos(5)] e
    by (auto simp: computeExpiresAt_def computeOperationExpiresAt_def Let_def)
  then have exp: "of_js (js_now E) \<le> op_expiresAt op" by (simp add: m of_js_def)
  have rows: "operations s' = operations s @ [op]" using put by (auto simp: put_operations_Inr)
  have none: "\<forall>r \<in> set (operations s). op_id r \<noteq> newId"
    using fresh by (simp add: op_findById_def find_None)
  have find_new: "List.find P (operations s @ [op]) = (if P op then Some op else None)"
    if "\<And>r. P r \<Longrightarrow> op_id r = newId" for P
  proof -
    have "List.find P (operations s) = None" using none that by (auto simp: find_None)
    then show ?thesis by (simp add: find_append)
  qed
  have "op_findByIdForTenant newId t s' = (if t = in_tenantId input then Some op else None)" for t
    unfolding op_findByIdForTenant_def rows by (subst find_new) (auto simp: op)
  with op exp rows show ?thesis by simp
qed

definition sample_input :: CreateOperationInput where
  "sample_input =
     \<lparr>in_tenantId = ''t1'', in_type = CREDENTIAL_OFFER,
      in_request = \<lparr>req_method = ''POST'', req_path = ''/'', req_body = JNull\<rparr>,
      in_batchId = None, in_externalId = None, in_exchangeId = None\<rparr>"

theorem createOperation_lookup_witness:
  "\<exists>op s'. createOperation sample_env ''o9'' sample_input empty_db = (Inr op, s')
     \<and> op_findByIdForTenant ''o9'' ''t1'' s' = Some op \<and> op_findByIdForTenant ''o9'' ''t2'' s' = None"
proof -
  have "returned (createOperation sample_env ''o9'' sample_input empty_db)" by code_simp
  then obtain op s' where run: "createOperation sample_env ''o9'' sample_input empty_db = (Inr op, s')"
    by (rule returnedE)
  from createOperation_lookup [OF run] run show ?thesis by (simp add: sample_input_def)
qed

section \<open>Reads and the first view\<close>

lemma awaitWhileConnected_store:
  "snd (load s) = s \<Longrightarrow> snd (awaitWhileConnected sig load s) = s"
  by (cases sig) (simp_all add: awaitWhileConnected_def throw_def)

lemma bindA_store:
  "snd (m s) = s \<Longrightarrow> (\<And>x. snd (f x s) = s) \<Longrightarrow> snd (bindA m f s) = s"
  by (cases "m s"; cases "fst (m s)") (auto simp: bindA_def)

lemma reads_store [simp]: "snd (reads f s) = s" by (simp add: reads_def)
lemma ret_store [simp]: "snd (ret x s) = s" by (simp add: ret_def)
lemma lift_store [simp]: "snd (lift r s) = s" by (simp add: lift_def)
lemma throw_store [simp]: "snd (throw e s) = s" by (simp add: throw_def)
lemma found_store [simp]: "snd (found e x s) = s" by (cases x) (simp_all add: found_def)

lemma batch_summary_store: "snd (batch_summary L sg op s) = s"
  unfolding batch_summary_def
  by (intro bindA_store)
     (auto simp: Let_def awaitWhileConnected_store bindA_store split: option.split prod.split)

lemma batch_summary_Inr:
  "batch_summary L sg op s = (Inr op', s') \<Longrightarrow>
   s' = s \<and> op_id op' = op_id op \<and> op_tenantId op' = op_tenantId op"
proof (intro conjI)
  assume h: "batch_summary L sg op s = (Inr op', s')"
  show "s' = s" using batch_summary_store [of L sg op s] h by simp
  show "op_id op' = op_id op" "op_tenantId op' = op_tenantId op"
    using h by (auto simp: batch_summary_def run_Inr Let_def split: prod.splits if_splits)
qed

definition view_stamp :: "uuid \<Rightarrow> int \<Rightarrow> int \<Rightarrow> db \<Rightarrow> db" where
  "view_stamp i viewedAt expires s =
     s\<lparr>operations := update_where (\<lambda>op. op_id op = i \<and> op_viewedAt op = None)
         (\<lambda>op. op\<lparr>op_viewedAt := Some viewedAt, op_expiresAt := expires\<rparr>) (operations s)\<rparr>"

lemma op_markFirstView_Inr:
  "op_markFirstView i v d s = (Inr r, s') \<Longrightarrow>
   \<exists>m. d = Some m \<and> s' = view_stamp i (of_js v) (of_js m) s
     \<and> r = (if \<exists>op \<in> set (operations s). op_id op = i \<and> op_viewedAt op = None then Some (of_js v, of_js m) else None)"
  by (auto simp: op_markFirstView_def run_Inr Let_def put_operations_Inr view_stamp_def filter_empty_conv)

lemma op_markFirstView_hit:
  assumes "op_markFirstView (op_id op) v d s = (Inr r, s')"
    and "op \<in> set (operations s)" and "op_viewedAt op = None"
  shows "\<exists>m. s' = view_stamp (op_id op) (of_js v) (of_js m) s \<and> r = Some (of_js v, of_js m)"
proof -
  have "\<exists>op' \<in> set (operations s). op_id op' = op_id op \<and> op_viewedAt op' = None"
    using assms(2,3) by blast
  with op_markFirstView_Inr [OF assms(1)] show ?thesis by (simp only: if_True) blast
qed

lemma op_markFirstView_Inl: "op_markFirstView i v d s = (Inl e, s') \<Longrightarrow> s' = s"
  by (auto simp: op_markFirstView_def Let_def ret_def elim!: bindA_Inl_cases
        dest: put_operations_Inl to_timestamp_store)

lemma applyViewed_stamps:
  assumes "applyViewed E (\<lambda>_. Connected) op s = (Inr op', s')"
    and "op \<in> set (operations s)" and "op_viewedAt op = None"
  shows "\<exists>e. s' = view_stamp (op_id op) (of_js (js_now E)) e s
    \<and> op' = op\<lparr>op_viewedAt := Some (of_js (js_now E)), op_expiresAt := e\<rparr>"
proof -
  obtain ten :: tenant and r s1 where
    mark: "op_markFirstView (op_id op) (js_now E)
        (computeExpiresAt (op_state op) (to_js (op_createdAt op)) (Some (js_now E)) (ten_config ten)) s
      = (Inr r, s1)"
    and rest: "(case r of None \<Rightarrow> bindA (reads (op_findById (op_id op)))
                  (\<lambda>current. found (NotFoundException ''Operation not found'') current)
                | Some (v, e) \<Rightarrow> ret (op\<lparr>op_viewedAt := Some v, op_expiresAt := e\<rparr>)) s1 = (Inr op', s')"
    using assms(1) by (auto simp: applyViewed_def awaitWhileConnected_def Let_def run_Inr)
  from op_markFirstView_hit [OF mark assms(2,3)] obtain m where
    "s1 = view_stamp (op_id op) (of_js (js_now E)) (of_js m) s"
    "r = Some (of_js (js_now E), of_js m)"
    by blast
  with rest show ?thesis by (auto simp: run_Inr)
qed

lemma applyViewed_error: "applyViewed E (\<lambda>_. Connected) op s = (Inl e, s') \<Longrightarrow>
  op \<in> set (operations s) \<Longrightarrow> op_viewedAt op = None \<Longrightarrow> s' = s"
  unfolding applyViewed_def awaitWhileConnected_def Let_def signal.case
proof (elim bindA_Inl_cases)
  assume "tenants_findById (op_tenantId op) s = (Inl e, s')"
  then show "s' = s" by (metis snd_conv tenants_findById_store)
next
  fix ten :: tenant and t
  assume "tenants_findById (op_tenantId op) s = (Inr ten, t)"
    "op_markFirstView (op_id op) (js_now E)
       (computeExpiresAt (op_state op) (to_js (op_createdAt op)) (Some (js_now E)) (ten_config ten)) t = (Inl e, s')"
  then show "s' = s" by (auto simp: tenants_findById_Inr dest: op_markFirstView_Inl)
next
  fix ten :: tenant and t r u
  assume h: "op \<in> set (operations s)" "op_viewedAt op = None"
    "tenants_findById (op_tenantId op) s = (Inr ten, t)"
    "op_markFirstView (op_id op) (js_now E)
       (computeExpiresAt (op_state op) (to_js (op_createdAt op)) (Some (js_now E)) (ten_config ten)) t = (Inr r, u)"
    "(case r of None \<Rightarrow> bindA (reads (op_findById (op_id op)))
                  (\<lambda>current. found (NotFoundException ''Operation not found'') current)
                | Some (v, e) \<Rightarrow> ret (op\<lparr>op_viewedAt := Some v, op_expiresAt := e\<rparr>)) u = (Inl e, s')"
  then show "s' = s"
    by (auto simp: tenants_findById_Inr ret_def dest!: op_markFirstView_hit)
qed

lemma view_stamp_row:
  assumes "key_table op_id (operations s)" and "op \<in> set (operations s)" and "op_viewedAt op = None"
    and "op_id op = i" and "op_tenantId op = t"
  shows "op_findByIdForTenant i t (view_stamp i v e s) = Some (op\<lparr>op_viewedAt := Some v, op_expiresAt := e\<rparr>)"
proof -
  have "List.find (\<lambda>op. op_id op = i \<and> op_tenantId op = t) (operations s) = Some op"
    by (rule find_key [OF assms(1,2)]) (auto simp: assms)
  then show ?thesis
    unfolding op_findByIdForTenant_def view_stamp_def by (simp add: find_update_where assms)
qed

lemma prepareForRead_viewed_store:
  assumes "\<not> (isTerminalOperationState (op_state op) \<and> op_viewedAt op = None)"
  shows "snd (prepareForRead E L sg op s) = s"
  using assms by (auto simp: prepareForRead_def batch_summary_store)

lemma prepareForRead_Inr:
  assumes "prepareForRead E L (\<lambda>_. Connected) op s = (Inr op', s')" and "op \<in> set (operations s)"
  shows "op_id op' = op_id op \<and> op_tenantId op' = op_tenantId op
    \<and> (if isTerminalOperationState (op_state op) \<and> op_viewedAt op = None
       then \<exists>e. s' = view_stamp (op_id op) (of_js (js_now E)) e s else s' = s)"
proof -
  let ?new = "isTerminalOperationState (op_state op) \<and> op_viewedAt op = None"
  from assms(1) obtain op1 s1 where
    v: "(if ?new then applyViewed E (\<lambda>_. Connected) op else ret op) s = (Inr op1, s1)"
    and rest: "op_id op' = op_id op1 \<and> op_tenantId op' = op_tenantId op1 \<and> s' = s1"
    by (auto simp: prepareForRead_def run_Inr dest: batch_summary_Inr split: if_splits)
  show ?thesis
  proof (cases ?new)
    case True
    with v have "applyViewed E (\<lambda>_. Connected) op s = (Inr op1, s1)" by simp
    with applyViewed_stamps [OF this assms(2)] rest True show ?thesis by auto
  next
    case False
    with v rest show ?thesis by (auto simp: ret_def)
  qed
qed

lemma getForTenant_Inr:
  assumes "getForTenant E L t i s = (Inr op', s')"
  shows "\<exists>op. op_findByIdForTenant i t s = Some op \<and> prepareForRead E L (\<lambda>_. Connected) op s = (Inr op', s')"
  using assms by (auto simp: getForTenant_def run_Inr)

text \<open>
  C27 Reading an operation is confined to its tenant: the answer to an id of another tenant is the
  answer to an id that does not exist, and leaves the store alone; whatever is returned carries
  the id that was asked for and the tenant that asked.
\<close>

theorem read_confined_to_tenant:
  "((\<forall>op \<in> set (operations s). op_id op = i \<longrightarrow> op_tenantId op \<noteq> t) \<longrightarrow>
      getForTenant E L t i s = (Inl (NotFoundException ''Operation not found''), s))
   \<and> (\<forall>op s'. getForTenant E L t i s = (Inr op, s') \<longrightarrow> op_id op = i \<and> op_tenantId op = t)"
proof (intro conjI allI impI)
  assume "\<forall>op \<in> set (operations s). op_id op = i \<longrightarrow> op_tenantId op \<noteq> t"
  then have "op_findByIdForTenant i t s = None" by (auto simp: op_findByIdForTenant_def find_None)
  then show "getForTenant E L t i s = (Inl (NotFoundException ''Operation not found''), s)"
    by (simp add: getForTenant_def bindA_def reads_def found_def throw_def)
next
  fix op s' assume "getForTenant E L t i s = (Inr op, s')"
  then obtain row where row: "op_findByIdForTenant i t s = Some row"
    and p: "prepareForRead E L (\<lambda>_. Connected) row s = (Inr op, s')"
    using getForTenant_Inr by blast
  from row have "row \<in> set (operations s)" "op_id row = i" "op_tenantId row = t"
    by (auto simp: op_findByIdForTenant_def dest: find_Some)
  with prepareForRead_Inr [OF p] show "op_id op = i" "op_tenantId op = t" by auto
qed

theorem read_confined_to_tenant_witness:
  "getForTenant sample_env sample_lib ''t2'' ''o1'' pending_db =
     (Inl (NotFoundException ''Operation not found''), pending_db)"
proof -
  have "\<forall>op \<in> set (operations pending_db). op_id op = ''o1'' \<longrightarrow> op_tenantId op \<noteq> ''t2''"
    by (simp add: pending_db_def sample_operation_def)
  with read_confined_to_tenant [of pending_db "''o1''" "''t2''" sample_env sample_lib] show ?thesis by blast
qed


definition completed_db :: db where
  "completed_db = empty_db\<lparr>operations := [sample_operation ''o1'' CREDENTIAL_OFFER OpCompleted]\<rparr>"


section \<open>Transitions\<close>

lemma transitionStateIfForward_cases:
  assumes "key_table op_id (operations s)"
    and "transitionStateIfForward E i state fromStates result externalId s = (Inr r, s')"
  shows "(case r of
      None \<Rightarrow> s' = s \<and> (\<exists>old. op_findById i s = Some old \<and> op_state old \<notin> set fromStates)
    | Some op \<Rightarrow> op_findById i s' = Some op \<and> op_state op = state
        \<and> (\<exists>old. op_findById i s = Some old \<and> op_state old \<in> set fromStates
               \<and> op_tenantId op = op_tenantId old \<and> op_type op = op_type old
               \<and> op_result op = (case result of None \<Rightarrow> op_result old | Some j \<Rightarrow> j))
        \<and> metrics s' = metrics s @
            (if isTerminalOperationState state
             then [(if isKnownOperationType (op_type op) then op_type op else UNCLASSIFIED_LABEL,
                    if state = OpCompleted then ''completed'' else ''failed'')] else []))"
proof -
  obtain old m won s1 where old: "op_findById i s = Some old"
    and tr: "op_transitionIfForward E i (op_tenantId old) fromStates
        \<lparr>pat_state = state, pat_result = result, pat_expiresAt = m, pat_externalId = externalId\<rparr> s = (Inr won, s1)"
    and rest: "(if \<not> won then ret None
        else bindA (reads (op_findById i)) (\<lambda>reloaded.
             bindA (found (NotFoundException ''Operation not found'') reloaded) (\<lambda>updated.
             bindA (recordTerminalOutcome (op_type updated) state) (\<lambda>_. ret (Some updated))))) s1 = (Inr r, s')"
    using assms(2) by (auto simp: transitionStateIfForward_def Let_def run_Inr)
  let ?p = "(E, i, op_tenantId old, fromStates,
    \<lparr>pat_state = state, pat_result = result, pat_expiresAt = m, pat_externalId = externalId\<rparr>)"
  have oldr: "old \<in> set (operations s)" "op_id old = i"
    using old by (auto simp: op_findById_def dest: find_Some)
  have uniq: "transition_hit ?p op \<longleftrightarrow> op = old \<and> op_state old \<in> set fromStates"
    if "op \<in> set (operations s)" for op
    using key_table_unique [OF assms(1) that oldr(1)] oldr(2) by (auto simp: transition_hit_def)
  from tr have s1: "s1 = s\<lparr>operations := update_where (transition_hit ?p) (transition_upd ?p) (operations s)\<rparr>"
    and w: "won \<longleftrightarrow> (\<exists>op \<in> set (operations s). transition_hit ?p op)"
    by (simp_all only: op_transitionIfForward_Inr put_operations_Inr) blast+
  have won: "won \<longleftrightarrow> op_state old \<in> set fromStates" using w uniq oldr(1) by blast
  show ?thesis
  proof (cases won)
    case False
    then have "update_where (transition_hit ?p) (transition_upd ?p) (operations s) = operations s"
      using w by (intro update_where_no_match) (simp add: count_where_def filter_empty_conv)
    with False rest s1 old won show ?thesis by (auto simp: ret_def)
  next
    case True
    then have hit: "transition_hit ?p old" using won uniq [OF oldr(1)] by simp
    have f: "op_findById i s1 = Some (transition_upd ?p old)"
      unfolding op_findById_def s1
      by (simp, subst find_update_where)
         (use old hit in \<open>auto simp: op_findById_def transition_upd_def apply_patch_def\<close>)
    from True rest f have "r = Some (transition_upd ?p old)"
      and rec: "recordTerminalOutcome (op_type (transition_upd ?p old)) state s1 = (Inr (), s')"
      by (auto simp: run_Inr)
    moreover have "operations s' = operations s1" using recordTerminalOutcome_tables [OF rec] by simp
    moreover have "metrics s' = metrics s @
            (if isTerminalOperationState state
             then [(if isKnownOperationType (op_type old) then op_type old else UNCLASSIFIED_LABEL,
                    if state = OpCompleted then ''completed'' else ''failed'')] else [])"
      using recordTerminalOutcome_metrics [OF rec] by (simp add: s1 transition_upd_def apply_patch_def)
    ultimately show ?thesis
      using f old won True
      by (simp add: op_findById_def transition_upd_def apply_patch_def)
  qed
qed

text \<open>
  A guarded transition of the service, delivered once more after another delivery moved the
  operation on, returns null and leaves no trace at all: no write, no counter. A delivery that wins
  returns the stored row in the new state, moved it from one of the allowed states, and counts one
  outcome exactly when that state is terminal.
\<close>

theorem transition_won_or_silent:
  assumes "key_table op_id (operations s)"
    and "transitionStateIfForward E i state fromStates result externalId s = (Inr r, s')"
  shows "(case r of
      None \<Rightarrow> s' = s \<and> (\<exists>old. op_findById i s = Some old \<and> op_state old \<notin> set fromStates)
    | Some op \<Rightarrow> op_findById i s' = Some op \<and> op_state op = state
        \<and> (\<exists>old. op_findById i s = Some old \<and> op_state old \<in> set fromStates
               \<and> op_tenantId op = op_tenantId old \<and> op_type op = op_type old
               \<and> op_result op = (case result of None \<Rightarrow> op_result old | Some j \<Rightarrow> j))
        \<and> metrics s' = metrics s @
            (if isTerminalOperationState state
             then [(if isKnownOperationType (op_type op) then op_type op else UNCLASSIFIED_LABEL,
                    if state = OpCompleted then ''completed'' else ''failed'')] else []))"
  using assms by (rule transitionStateIfForward_cases)

theorem transition_won_or_silent_witness:
  "\<exists>op s'. transitionStateIfForward sample_env ''o1'' OpCompleted [OpPending, OpProcessing] None None pending_db
       = (Inr (Some op), s')
     \<and> op_state op = OpCompleted \<and> metrics s' = metrics pending_db @ [(CREDENTIAL_OFFER, ''completed'')]"
proof -
  let ?run = "transitionStateIfForward sample_env ''o1'' OpCompleted [OpPending, OpProcessing] None None pending_db"
  have "returned ?run" by code_simp
  then obtain r s' where r: "?run = (Inr r, s')" by (rule returnedE)
  have "map_sum id (map_option op_type) (fst ?run) = Inr (Some CREDENTIAL_OFFER)" by code_simp
  then obtain op where run: "?run = (Inr (Some op), s')" "op_type op = CREDENTIAL_OFFER"
    by (auto simp: r)
  have "key_table op_id (operations pending_db)" by code_simp
  from transition_won_or_silent [OF this run(1)] run show ?thesis
    by (simp add: isTerminalOperationState_def isKnownOperationType_def OPERATION_TYPE_def)
qed

end
