(* ===== verification/Operation_Wait.thy ===== *)
theory Operation_Wait
  imports Operation_Service
begin

text \<open>
  Long polling: \<open>operation-wait.util.ts\<close> and the wait loops of \<open>operation.service.ts\<close>.

  A wait loop sleeps while other requests run, so it is a function of a schedule: for every turn
  the clock at the loop test and when the timer is armed, the abort signal during the timer and
  the reads, and the store those reads see. A turn that is never reached is never looked at. The
  loops are partial functions; that they return is a theorem about schedules whose timers do not
  fire early.
\<close>

section \<open>The Prefer header\<close>

definition split_on :: "char \<Rightarrow> string \<Rightarrow> string list" where
  "split_on c s = foldr (\<lambda>x acc. case acc of [] \<Rightarrow> [] | w # ws \<Rightarrow> if x = c then [] # w # ws else (x # w) # ws) s [[]]"

definition is_wait_preference :: "string \<Rightarrow> bool" where
  "is_wait_preference v =
     (map js_lower (take 4 v) = ''wait''
      \<and> (drop 4 v = [] \<or> starts_with (dropWhile js_space (drop 4 v)) ''=''))"

definition digits_number :: "string \<Rightarrow> nat option" where
  "digits_number ds = (if ds \<noteq> [] \<and> list_all js_digit ds then Some (digits_value ds) else None)"

definition wait_match :: "string \<Rightarrow> nat option" where
  "wait_match v =
     (let rest = dropWhile js_space (drop 4 v) in
      if map js_lower (take 4 v) = ''wait'' \<and> starts_with rest ''='' then
        (let arg = dropWhile js_space (drop 1 rest) in
         if starts_with arg [CHR 0x22]
         then (if 2 \<le> length arg \<and> last arg = CHR 0x22 then digits_number (butlast (tl arg)) else None)
         else digits_number arg)
      else None)"

definition MAX_SAFE_INTEGER :: nat where "MAX_SAFE_INTEGER = 2 ^ 53 - 1"

definition parseOperationWait :: "string option \<Rightarrow> err + nat" where
  "parseOperationWait prefer =
     (let preferences = map js_trim (split_on (CHR '','') (case prefer of None \<Rightarrow> '''' | Some p \<Rightarrow> p));
          waits = filter is_wait_preference preferences
      in case waits of
           [] \<Rightarrow> Inr 0
         | w # ws \<Rightarrow>
             (case wait_match w of
                Some seconds \<Rightarrow>
                  if ws = [] \<and> seconds \<le> MAX_SAFE_INTEGER then Inr (min seconds 30)
                  else Inl (BadRequestException ''Prefer wait must be a non-negative integer'')
              | None \<Rightarrow> Inl (BadRequestException ''Prefer wait must be a non-negative integer'')))"

section \<open>Waiting for one operation\<close>

record poll =
  poll_test_clock :: int
  poll_timer_clock :: int
  poll_timer_signal :: signal
  poll_read_signal :: signal
  poll_store :: db

type_synonym schedule = "nat \<Rightarrow> poll"

definition wait_deadline :: "int \<Rightarrow> int \<Rightarrow> int" where
  "wait_deadline now waitSeconds = now + min (max waitSeconds 0) 30 * 1000"

definition poll_read :: "poll \<Rightarrow> (db \<Rightarrow> 'a) \<Rightarrow> err + 'a" where
  "poll_read p f =
     (if poll_timer_signal p \<noteq> Connected \<or> poll_read_signal p \<noteq> Connected
      then Inl polling_cancelled else Inr (f (poll_store p)))"

partial_function (option) status_loop ::
    "schedule \<Rightarrow> int \<Rightarrow> uuid \<Rightarrow> uuid \<Rightarrow> OperationState \<Rightarrow> nat \<Rightarrow> operation \<Rightarrow> (err + operation) option" where
  "status_loop sched deadline tenantId i initialState k op =
     (if \<not> isTerminalOperationState (op_state op) \<and> poll_test_clock (sched k) < deadline
      then (case poll_read (sched k) (op_findByIdForTenant i tenantId) of
              Inl e \<Rightarrow> Some (Inl e)
            | Inr None \<Rightarrow> Some (Inl (NotFoundException ''Operation not found''))
            | Inr (Some current) \<Rightarrow>
                if op_state current \<noteq> initialState then Some (Inr current)
                else status_loop sched deadline tenantId i initialState (Suc k) current)
      else Some (Inr op))"

definition waitForStatusForTenant ::
    "env \<Rightarrow> cursor_lib \<Rightarrow> int \<Rightarrow> poll \<Rightarrow> schedule \<Rightarrow> (nat \<Rightarrow> signal) \<Rightarrow> db \<Rightarrow> uuid \<Rightarrow> uuid \<Rightarrow> int \<Rightarrow>
     ((err + operation) \<times> db) option" where
  "waitForStatusForTenant E L now first sched sg final tenantId i waitSeconds =
     (let deadline = wait_deadline now waitSeconds
      in case poll_read first (op_findByIdForTenant i tenantId) of
           Inl e \<Rightarrow> Some (Inl e, final)
         | Inr None \<Rightarrow> Some (Inl (NotFoundException ''Operation not found''), final)
         | Inr (Some op) \<Rightarrow>
             map_option (\<lambda>r. case r of
                  Inl e \<Rightarrow> (Inl e, final)
                | Inr current \<Rightarrow> awaitWhileConnected (sg 5) (prepareForRead E L sg current) final)
               (status_loop sched deadline tenantId i (op_state op) 0 op))"

section \<open>Waiting for a batch\<close>

text \<open>
  The digest is a parameter. A turn reads the parent and then, when its state has not moved, the
  fingerprint; both reads of a turn use the store of that turn.
\<close>

partial_function (option) batch_loop ::
    "(string \<Rightarrow> string) \<Rightarrow> schedule \<Rightarrow> int \<Rightarrow> uuid \<Rightarrow> uuid \<Rightarrow> OperationState \<Rightarrow> string \<Rightarrow> nat \<Rightarrow> (err + unit) option" where
  "batch_loop md5 sched deadline tenantId i parentState initial k =
     (if poll_test_clock (sched k) < deadline
      then (case poll_read (sched k) (op_findByIdForTenant i tenantId) of
              Inl e \<Rightarrow> Some (Inl e)
            | Inr None \<Rightarrow> Some (Inl (NotFoundException ''Batch operation not found''))
            | Inr (Some current) \<Rightarrow>
                if \<not> isBatchParent current then Some (Inl (NotFoundException ''Batch operation not found''))
                else if op_state current \<noteq> parentState then Some (Inr ())
                else if md5 (op_batch_state_text i tenantId (poll_store (sched k))) \<noteq> initial then Some (Inr ())
                else batch_loop md5 sched deadline tenantId i parentState initial (Suc k))
      else Some (Inr ()))"

definition waitForBatchChange ::
    "(string \<Rightarrow> string) \<Rightarrow> int \<Rightarrow> poll \<Rightarrow> schedule \<Rightarrow> uuid \<Rightarrow> uuid \<Rightarrow> int \<Rightarrow> (err + unit) option" where
  "waitForBatchChange md5 now first sched tenantId i waitSeconds =
     (let deadline = wait_deadline now waitSeconds
      in case poll_read first (op_findByIdForTenant i tenantId) of
           Inl e \<Rightarrow> Some (Inl e)
         | Inr None \<Rightarrow> Some (Inl (NotFoundException ''Batch operation not found''))
         | Inr (Some parent) \<Rightarrow>
             if \<not> isBatchParent parent then Some (Inl (NotFoundException ''Batch operation not found''))
             else if isTerminalOperationState (op_state parent) \<or> poll_test_clock first \<ge> deadline
             then Some (Inr ())
             else batch_loop md5 sched deadline tenantId i (op_state parent)
                    (md5 (op_batch_state_text i tenantId (poll_store first))) 0)"

definition waitForItemsForTenant ::
    "env \<Rightarrow> cursor_lib \<Rightarrow> (string \<Rightarrow> string) \<Rightarrow> int \<Rightarrow> poll \<Rightarrow> schedule \<Rightarrow> (nat \<Rightarrow> signal) \<Rightarrow> db \<Rightarrow>
     uuid \<Rightarrow> uuid \<Rightarrow> ListOperationsQuery \<Rightarrow> int \<Rightarrow> ((err + PaginatedOperations) \<times> db) option" where
  "waitForItemsForTenant E L md5 now first sched sg final tenantId i query waitSeconds =
     (case (case qry_cursor query of None \<Rightarrow> Inr None | Some r \<Rightarrow> map_sum id Some (decodeCursor L r)) of
        Inl e \<Rightarrow> Some (Inl e, final)
      | Inr _ \<Rightarrow>
          map_option (\<lambda>r. case r of
               Inl e \<Rightarrow> (Inl e, final)
             | Inr _ \<Rightarrow> listItemsForTenant E L sg tenantId i query final)
            (waitForBatchChange md5 now first sched tenantId i waitSeconds))"

section \<open>The loops return\<close>

text \<open>
  A timer armed for \<open>ms\<close> fires no earlier than \<open>ms\<close> later. Time only passes forward.
\<close>

definition timers_fire_late :: "int \<Rightarrow> int \<Rightarrow> schedule \<Rightarrow> bool" where
  "timers_fire_late now deadline sched \<longleftrightarrow>
     now \<le> poll_test_clock (sched 0)
     \<and> (\<forall>k. poll_test_clock (sched k) \<le> poll_timer_clock (sched k)
           \<and> poll_timer_clock (sched k) + min 1000 (deadline - poll_timer_clock (sched k))
               \<le> poll_test_clock (sched (Suc k)))"

lemma clock_lower_bound:
  assumes "timers_fire_late now deadline sched"
  shows "min deadline (now + 1000 * int k) \<le> poll_test_clock (sched k)"
proof (induction k)
  case 0
  then show ?case using assms by (auto simp: timers_fire_late_def min_def)
next
  case (Suc k)
  have "poll_test_clock (sched k) \<le> poll_timer_clock (sched k)"
    "poll_timer_clock (sched k) + min 1000 (deadline - poll_timer_clock (sched k))
       \<le> poll_test_clock (sched (Suc k))"
    using assms by (auto simp: timers_fire_late_def)
  with Suc show ?case by (auto simp: min_def split: if_splits)
qed

lemma deadline_passed_by_30:
  assumes "timers_fire_late now (wait_deadline now w) sched" and "30 \<le> k"
  shows "wait_deadline now w \<le> poll_test_clock (sched k)"
proof -
  have "wait_deadline now w \<le> now + 1000 * int k"
    using assms(2) by (auto simp: wait_deadline_def min_def max_def)
  with clock_lower_bound [OF assms(1), of k] show ?thesis by simp
qed

definition disconnected :: "poll \<Rightarrow> bool" where
  "disconnected p = (poll_timer_signal p \<noteq> Connected \<or> poll_read_signal p \<noteq> Connected)"

text \<open>Why a wait ended: with an answer that is due, or with the error the turn explains.\<close>

definition status_outcome :: "schedule \<Rightarrow> int \<Rightarrow> uuid \<Rightarrow> uuid \<Rightarrow> OperationState \<Rightarrow> err + operation \<Rightarrow> bool" where
  "status_outcome sched deadline tenantId i st r =
     (case r of
        Inr op \<Rightarrow> isTerminalOperationState (op_state op) \<or> op_state op \<noteq> st
                  \<or> (\<exists>j \<le> 30. deadline \<le> poll_test_clock (sched j))
      | Inl e \<Rightarrow> (e = polling_cancelled \<and> (\<exists>j < 30. disconnected (sched j)))
                 \<or> (e = NotFoundException ''Operation not found''
                    \<and> (\<exists>j < 30. op_findByIdForTenant i tenantId (poll_store (sched j)) = None)))"

lemma status_loop_returns_from:
  assumes "timers_fire_late now (wait_deadline now w) sched"
  shows "k + d = 30 \<Longrightarrow>
    \<exists>r. status_loop sched (wait_deadline now w) tenantId i st k op = Some r
        \<and> status_outcome sched (wait_deadline now w) tenantId i st r"
proof (induction d arbitrary: k op)
  case 0
  with deadline_passed_by_30 [OF assms, of k] show ?case
    by (subst status_loop.simps) (auto simp: status_outcome_def)
next
  case (Suc d)
  then have ih: "\<exists>r. status_loop sched (wait_deadline now w) tenantId i st (Suc k) op' = Some r
        \<and> status_outcome sched (wait_deadline now w) tenantId i st r" for op'
    by simp
  have k: "k < 30" using Suc.prems by simp
  show ?case
  proof (cases "\<not> isTerminalOperationState (op_state op) \<and> poll_test_clock (sched k) < wait_deadline now w")
    case False
    with k show ?thesis
      by (subst status_loop.simps) (auto simp: status_outcome_def not_less intro!: exI [of _ k])
  next
    case True
    with k ih show ?thesis
      by (subst status_loop.simps)
         (auto simp: poll_read_def status_outcome_def disconnected_def split: option.split)
  qed
qed

lemma batch_loop_returns_from:
  assumes "timers_fire_late now (wait_deadline now w) sched"
  shows "k + d = 30 \<Longrightarrow>
    \<exists>r. batch_loop md5 sched (wait_deadline now w) tenantId i st fp k = Some r"
proof (induction d arbitrary: k)
  case 0
  with deadline_passed_by_30 [OF assms, of k] show ?case by (subst batch_loop.simps) simp
next
  case (Suc d)
  then have "\<exists>r. batch_loop md5 sched (wait_deadline now w) tenantId i st fp (Suc k) = Some r"
    by simp
  then show ?case by (subst batch_loop.simps) (auto split: sum.split option.split)
qed


definition steady_schedule :: "db \<Rightarrow> schedule" where
  "steady_schedule s k =
     \<lparr>poll_test_clock = 1000 * int k, poll_timer_clock = 1000 * int k, poll_timer_signal = Connected,
      poll_read_signal = Connected, poll_store = s\<rparr>"

lemma steady_schedule_late: "timers_fire_late 0 (wait_deadline 0 w) (steady_schedule s)"
  by (simp add: timers_fire_late_def steady_schedule_def min_def)


text \<open>
  A wait for a batch to change ends within thirty polls too, and with it the listing of its items.
\<close>

theorem waitForItems_returns:
  assumes "timers_fire_late now (wait_deadline now waitSeconds) sched"
  shows "waitForItemsForTenant E L md5 now first sched sg final tenantId i query waitSeconds \<noteq> None"
proof -
  have "\<exists>r. batch_loop md5 sched (wait_deadline now waitSeconds) tenantId i st fp 0 = Some r" for st fp
    by (rule batch_loop_returns_from [OF assms, of 0 30]) simp
  then have "waitForBatchChange md5 now first sched tenantId i waitSeconds \<noteq> None"
    unfolding waitForBatchChange_def Let_def by (auto split: sum.split option.split)
  then show ?thesis
    by (cases "case qry_cursor query of None \<Rightarrow> Inr None | Some r \<Rightarrow> map_sum id Some (decodeCursor L r)")
       (simp_all add: waitForItemsForTenant_def del: not_None_eq)
qed

theorem waitForItems_returns_witness:
  "\<forall>E L md5 first sg final query s. timers_fire_late 0 (wait_deadline 0 30) (steady_schedule s)
     \<and> waitForItemsForTenant E L md5 0 first (steady_schedule s) sg final ''t'' ''b'' query 30 \<noteq> None"
  using waitForItems_returns [OF steady_schedule_late] steady_schedule_late by blast

end
