(* ===== verification/Operation_Purge.thy ===== *)
theory Operation_Purge
  imports Operation_Repository
begin

text \<open>
  \<open>operation-purge.service.ts\<close>: the hourly sweep that deletes expired operations in bounded batches,
  and what its statement does through the foreign keys of the operation table.

  The clock moves while the sweep runs, so the sweep takes an environment per batch.
\<close>

definition BATCH_SIZE :: rat where "BATCH_SIZE = 500"
definition MAX_BATCHES_PER_RUN :: nat where "MAX_BATCHES_PER_RUN = 50"

definition add_totals :: "(uuid \<times> nat) list \<Rightarrow> (uuid \<times> nat) list \<Rightarrow> (uuid \<times> nat) list" where
  "add_totals batch totals =
     fold (\<lambda>(t, n) acc. AList.update t ((case map_of acc t of None \<Rightarrow> 0 | Some m \<Rightarrow> m) + n) acc) batch totals"

text \<open>
  The do-while loop, with the number of batches it may still run: the last permitted batch ends it
  whatever it deleted. The result is the totals per tenant and the number of batches.
\<close>

fun purge_loop ::
    "(nat \<Rightarrow> env) \<Rightarrow> nat \<Rightarrow> (uuid \<times> nat) list \<Rightarrow> nat \<Rightarrow> ((uuid \<times> nat) list \<times> nat) service" where
  "purge_loop E 0 totals batches = ret (totals, batches)"
| "purge_loop E (Suc n) totals batches =
     bindA (op_purgeExpiredBatch (E batches) BATCH_SIZE) (\<lambda>batch.
       let batchCount = sum_list (map snd batch); totals' = add_totals batch totals
       in if batchCount > 0 then purge_loop E n totals' (Suc batches)
          else ret (totals', Suc batches))"

definition purgeExpiredOperations :: "(nat \<Rightarrow> env) \<Rightarrow> ((uuid \<times> nat) list \<times> nat) service" where
  "purgeExpiredOperations E = purge_loop E MAX_BATCHES_PER_RUN [] 0"

section \<open>The cascade\<close>

definition child_of :: "operation list \<Rightarrow> (uuid \<times> uuid) set" where
  "child_of t = {(b, op_id op) | b op. op \<in> set t \<and> op_batchId op = Some b}"

lemma cascade_ids_extends: "set ids \<subseteq> set (cascade_ids n t ids)"
  by (induction n t ids rule: cascade_ids.induct) auto

lemma cascade_ids_descend:
  "i \<in> set (cascade_ids n t ids) \<Longrightarrow> \<exists>a \<in> set ids. (a, i) \<in> (child_of t)\<^sup>*"
proof (induction n t ids rule: cascade_ids.induct)
  case (1 t ids)
  then show ?case by auto
next
  case (2 n t ids)
  let ?new = "filter (\<lambda>op. op_id op \<notin> set ids
        \<and> (case op_batchId op of None \<Rightarrow> False | Some b \<Rightarrow> b \<in> set ids)) t"
  from 2 obtain a where a: "a \<in> set ids \<union> op_id ` set ?new" "(a, i) \<in> (child_of t)\<^sup>*" by auto
  show ?case
  proof (cases "a \<in> set ids")
    case False
    then obtain op b where "op \<in> set t" "a = op_id op" "op_batchId op = Some b" "b \<in> set ids"
      using a(1) by (auto split: option.splits)
    then have "(b, a) \<in> child_of t" "b \<in> set ids" by (auto simp: child_of_def)
    with a(2) show ?thesis by (meson converse_rtrancl_into_rtrancl)
  qed (use a in blast)
qed

definition cascade_closed :: "operation list \<Rightarrow> uuid set \<Rightarrow> bool" where
  "cascade_closed t A \<longleftrightarrow> (\<forall>op \<in> set t. \<forall>b. op_batchId op = Some b \<longrightarrow> b \<in> A \<longrightarrow> op_id op \<in> A)"

lemma cascade_ids_closed_from:
  "card (op_id ` set t - set ids) \<le> n \<Longrightarrow> cascade_closed t (set (cascade_ids n t ids))"
proof (induction n arbitrary: ids)
  case 0
  then have "op_id ` set t \<subseteq> set ids" by simp
  then show ?case by (auto simp: cascade_closed_def)
next
  case (Suc n)
  let ?new = "filter (\<lambda>op. op_id op \<notin> set ids
        \<and> (case op_batchId op of None \<Rightarrow> False | Some b \<Rightarrow> b \<in> set ids)) t"
  show ?case
  proof (cases "?new = []")
    case True
    then have "cascade_closed t (set ids)"
      by (auto simp: cascade_closed_def filter_empty_conv)
    moreover have "cascade_ids m t ids = ids" for m using True by (induction m) auto
    ultimately show ?thesis by metis
  next
    case False
    then have "op_id ` set ?new \<noteq> {}" by (simp only: image_is_empty set_empty not_False_eq_True)
    moreover have "op_id ` set ?new \<subseteq> op_id ` set t - set ids" by auto
    ultimately have "op_id ` set t - set (ids @ map op_id ?new) \<subset> op_id ` set t - set ids" by auto
    then have "card (op_id ` set t - set (ids @ map op_id ?new)) < card (op_id ` set t - set ids)"
      by (simp add: psubset_card_mono)
    with Suc.prems have "card (op_id ` set t - set (ids @ map op_id ?new)) \<le> n" by linarith
    from Suc.IH [OF this] show ?thesis by simp
  qed
qed

lemma cascade_ids_closed: "cascade_closed t (set (cascade_ids (length t) t ids))"
proof (rule cascade_ids_closed_from)
  have "card (op_id ` set t - set ids) \<le> card (op_id ` set t)" by (simp add: card_Diff1_le card_mono)
  also have "\<dots> \<le> length t" by (meson card_image_le card_length finite_set order_trans)
  finally show "card (op_id ` set t - set ids) \<le> length t" .
qed

section \<open>One batch\<close>

definition expired :: "env \<Rightarrow> operation \<Rightarrow> bool" where
  "expired E op = (op_expiresAt op < db_now E)"

definition purge_doomed :: "env \<Rightarrow> rat \<Rightarrow> operation list \<Rightarrow> operation list" where
  "purge_doomed E limit t = take (nat (max 1 \<lfloor>limit\<rfloor>)) (sort_key op_expiresAt (filter (expired E) t))"

definition purge_gone :: "env \<Rightarrow> rat \<Rightarrow> db \<Rightarrow> uuid list" where
  "purge_gone E limit s =
     cascade_ids (length (operations s)) (operations s) (map op_id (purge_doomed E limit (operations s)))"

lemma purge_doomed_expired: "set (purge_doomed E limit t) \<subseteq> {op \<in> set t. expired E op}"
  by (auto simp: purge_doomed_def dest!: in_set_takeD)

lemma purge_doomed_empty: "purge_doomed E limit t = [] \<longleftrightarrow> (\<forall>op \<in> set t. \<not> expired E op)"
proof -
  have "purge_doomed E limit t = [] \<longleftrightarrow> sort_key op_expiresAt (filter (expired E) t) = []"
    by (simp add: purge_doomed_def max_def)
  also have "\<dots> \<longleftrightarrow> filter (expired E) t = []" by (metis set_empty set_sort)
  finally show ?thesis by (simp add: filter_empty_conv)
qed

lemma length_purge_doomed: "length (purge_doomed E limit t) \<le> nat (max 1 \<lfloor>limit\<rfloor>)"
  by (simp add: purge_doomed_def)

lemma op_purgeExpiredBatch_eq:
  "op_purgeExpiredBatch E limit s =
   (if list_ex (\<lambda>c. cred_operationId c \<in> set (purge_gone E limit s)) (credentials s)
    then (Inl (QueryFailed ''23503'' ''fk_credential_operation''), s)
    else (Inr (map (\<lambda>t. (t, count_where (\<lambda>op. op_tenantId op = t) (purge_doomed E limit (operations s))))
                   (remdups (map op_tenantId (purge_doomed E limit (operations s))))),
          snd (delete_operations (map op_id (purge_doomed E limit (operations s))) s)))"
  by (simp add: op_purgeExpiredBatch_def purge_doomed_def purge_gone_def expired_def [abs_def]
        delete_operations_def Let_def bindA_def throw_def modifies_def ret_def)

lemma delete_operations_rows:
  "delete_operations ids s = (Inr u, s') \<Longrightarrow>
   operations s' = filter (\<lambda>op. op_id op \<notin> set (cascade_ids (length (operations s)) (operations s) ids)) (operations s)
   \<and> credentials s' = credentials s \<and> connections s' = connections s"
  by (auto simp: delete_operations_def Let_def throw_def modifies_def split: if_splits)

lemma sum_counts_by_tenant:
  "sum_list (map snd (map (\<lambda>t. (t, count_where (\<lambda>op. op_tenantId op = t) ops)) (remdups (map op_tenantId ops)))) = length ops"
proof -
  have "sum_list (map (\<lambda>t. count_where (\<lambda>op. op_tenantId op = t) ops) (remdups (map op_tenantId ops))) =
      (\<Sum>t \<in> set (map op_tenantId ops). count_list (map op_tenantId ops) t)"
    by (simp add: sum_list_distinct_conv_sum_set count_where_def count_list_eq_length_filter
          filter_map o_def eq_commute)
  also have "\<dots> = length ops" by (simp only: sum_count_set [OF subset_refl] finite_set length_map)
  finally show ?thesis by (simp add: o_def)
qed

section \<open>What a purge may delete\<close>

lemma op_purgeExpiredBatch_Inr:
  assumes "op_purgeExpiredBatch E limit s = (Inr counts, s')"
  shows "operations s' = filter (\<lambda>op. op_id op \<notin> set (purge_gone E limit s)) (operations s)"
    and "credentials s' = credentials s"
    and "\<forall>c \<in> set (credentials s). cred_operationId c \<notin> set (purge_gone E limit s)"
    and "sum_list (map snd counts) = length (purge_doomed E limit (operations s))"
proof -
  have ok: "\<not> list_ex (\<lambda>c. cred_operationId c \<in> set (purge_gone E limit s)) (credentials s)"
    using assms by (auto simp: op_purgeExpiredBatch_eq split: if_splits)
  then have "delete_operations (map op_id (purge_doomed E limit (operations s))) s = (Inr (), s')"
    using assms
    by (auto simp: op_purgeExpiredBatch_eq delete_operations_def Let_def purge_gone_def [symmetric]
          modifies_def)
  from delete_operations_rows [OF this]
  show "operations s' = filter (\<lambda>op. op_id op \<notin> set (purge_gone E limit s)) (operations s)"
    and "credentials s' = credentials s"
    by (simp_all add: purge_gone_def)
  show "\<forall>c \<in> set (credentials s). cred_operationId c \<notin> set (purge_gone E limit s)"
    using ok by (simp add: list_ex_iff)
  show "sum_list (map snd counts) = length (purge_doomed E limit (operations s))"
  proof -
    have "counts = map (\<lambda>t. (t, count_where (\<lambda>op. op_tenantId op = t) (purge_doomed E limit (operations s))))
        (remdups (map op_tenantId (purge_doomed E limit (operations s))))"
      using ok assms by (simp add: op_purgeExpiredBatch_eq)
    then show ?thesis by (simp only: sum_counts_by_tenant)
  qed
qed

lemma purge_batch_count_zero:
  assumes "op_purgeExpiredBatch E limit s = (Inr counts, s')" and "sum_list (map snd counts) = 0"
  shows "operations s' = operations s \<and> (\<forall>op \<in> set (operations s'). \<not> expired E op)"
proof -
  have none: "purge_doomed E limit (operations s) = []"
    using op_purgeExpiredBatch_Inr(4) [OF assms(1)] assms(2) by simp
  have "cascade_ids n t [] = []" for n t by (induction n) (auto simp: option.case_eq_if)
  then have "purge_gone E limit s = []" by (simp add: purge_gone_def none)
  with op_purgeExpiredBatch_Inr(1) [OF assms(1)] none show ?thesis by (simp add: purge_doomed_empty)
qed


definition purge_db :: db where
  "purge_db = empty_db\<lparr>operations := [sample_operation ''o1'' CREDENTIAL_OFFER OpCompleted]\<rparr>"

lemma purge_db_batch: "op_purgeExpiredBatch sample_env 500 purge_db = (Inr [(''t1'', 1)], empty_db)"
  by code_simp


lemma purge_loop_bounds:
  assumes "purge_loop E n totals batches s = (Inr (totals', batches'), s')"
  shows "batches' \<le> batches + n
    \<and> (batches' < batches + n \<longrightarrow> (\<exists>k. batches' = Suc k \<and> (\<forall>op \<in> set (operations s'). \<not> expired (E k) op)))"
  using assms
proof (induction n arbitrary: totals batches s)
  case 0
  then show ?case by (simp add: ret_def)
next
  case (Suc n)
  then obtain batch s1 where b: "op_purgeExpiredBatch (E batches) BATCH_SIZE s = (Inr batch, s1)"
    and rest: "(if sum_list (map snd batch) > 0 then purge_loop E n (add_totals batch totals) (Suc batches)
                else ret (add_totals batch totals, Suc batches)) s1 = (Inr (totals', batches'), s')"
    by (auto simp: bindA_Inr_iff Let_def)
  show ?case
  proof (cases "sum_list (map snd batch) > 0")
    case True
    with rest have "purge_loop E n (add_totals batch totals) (Suc batches) s1 = (Inr (totals', batches'), s')"
      by simp
    from Suc.IH [OF this] show ?thesis by simp
  next
    case False
    with rest have "batches' = Suc batches" "s' = s1" by (auto simp: ret_def)
    with purge_batch_count_zero [OF b] False show ?thesis by auto
  qed
qed

text \<open>
  C25 A purge run ends after at most fifty batches, and a run that needed fewer has drained the
  backlog: no operation it leaves was expired when its last batch ran.
\<close>

theorem purge_run_drains:
  assumes "purgeExpiredOperations E s = (Inr (totals, batches), s')"
  shows "batches \<le> 50
    \<and> (batches < 50 \<longrightarrow> (\<exists>k. batches = Suc k \<and> (\<forall>op \<in> set (operations s'). \<not> expired (E k) op)))"
  using purge_loop_bounds [of E MAX_BATCHES_PER_RUN "[]" 0 s totals batches s'] assms
  by (simp add: purgeExpiredOperations_def MAX_BATCHES_PER_RUN_def)

lemma purge_db_run:
  "purgeExpiredOperations (\<lambda>_. sample_env) purge_db = (Inr ([(''t1'', 1)], 2), empty_db)"
  by code_simp

theorem purge_run_drains_witness:
  "purgeExpiredOperations (\<lambda>_. sample_env) purge_db = (Inr ([(''t1'', 1)], 2), empty_db) \<and> (2::nat) \<le> 50"
  using purge_run_drains [OF purge_db_run] purge_db_run by blast

lemma purge_doomed_oldest:
  assumes "op \<in> set t" and "expired E op"
    and "\<And>op'. op' \<in> set t \<Longrightarrow> op' \<noteq> op \<Longrightarrow> op_expiresAt op < op_expiresAt op'"
  shows "op \<in> set (purge_doomed E limit t)"
proof -
  obtain x xs where srt: "sort_key op_expiresAt (filter (expired E) t) = x # xs"
    using purge_doomed_empty [of E limit t] assms(1,2)
    by (cases "sort_key op_expiresAt (filter (expired E) t)") (auto simp: purge_doomed_def)
  have "set (x # xs) = {op \<in> set t. expired E op}" by (simp only: srt [symmetric] set_sort set_filter)
  then have x: "x \<in> set t" by auto
  have "op \<in> set (x # xs)" using assms(1,2) srt [symmetric] by simp
  then have "op_expiresAt x \<le> op_expiresAt op"
    using sorted_sort_key [of op_expiresAt "filter (expired E) t"] by (auto simp: srt)
  with assms(3) [OF x] have "x = op" by force
  then show ?thesis using srt by (simp add: purge_doomed_def max_def take_Cons')
qed


definition blocked_db :: db where
  "blocked_db = empty_db\<lparr>operations :=
       [sample_operation ''o1'' CREDENTIAL_OFFER OpCompleted,
        (sample_operation ''o2'' PRESENTATION_REQUEST OpCompleted)\<lparr>op_expiresAt := 6\<rparr>],
     credentials := [sample_credential ''c1'' CredIssued ''o1'']\<rparr>"


end
