(* ===== verification/Tenant_Access.thy ===== *)
theory Tenant_Access
  imports Database
begin

text \<open>
  Claim checks and database error tests shared by the services:
  \<open>common/assert-tenant-access.ts\<close> and \<open>common/postgres-error.ts\<close>.
\<close>

datatype AuthTokenType = UserToken | ClientToken

text \<open>The claims the services read; issuer, audience and times are only checked when the token is verified.\<close>

record AuthContext =
  auth_sub :: string
  auth_externalUserId :: "string option"
  auth_tokenType :: AuthTokenType
  auth_clientId :: "string option"
  auth_tenantId :: "uuid option"
  auth_roles :: "string list"
  auth_scope :: string
  auth_scopes :: "string list"
  auth_jti :: "string option"

definition PLATFORM_ADMIN_ROLE :: string where
  "PLATFORM_ADMIN_ROLE = ''platform-admin''"

text \<open>A JavaScript test \<open>if (x)\<close> on an optional string: the empty string is false too.\<close>

definition js_truthy :: "string option \<Rightarrow> bool" where
  "js_truthy x = (x \<noteq> None \<and> x \<noteq> Some '''')"

definition assertTenantAccess :: "AuthContext option \<Rightarrow> uuid \<Rightarrow> err + unit" where
  "assertTenantAccess auth tenantId =
     (case auth of
        None \<Rightarrow> Inl (TenantAccessDeniedException ''Authenticated request context is missing'')
      | Some a \<Rightarrow>
          if PLATFORM_ADMIN_ROLE \<in> set (auth_roles a) then Inr ()
          else if \<not> js_truthy (auth_tenantId a)
          then Inl (TenantAccessDeniedException ''Token is missing a tenant_id claim'')
          else if auth_tenantId a \<noteq> Some tenantId
          then Inl (TenantAccessDeniedException ''Token tenant_id does not match the requested tenant'')
          else Inr ())"

definition assertResourceTenantOrNotFound :: "AuthContext option \<Rightarrow> uuid \<Rightarrow> string \<Rightarrow> err + unit" where
  "assertResourceTenantOrNotFound auth resourceTenantId notFoundMessage =
     (case auth of
        None \<Rightarrow> Inl (NotFoundException notFoundMessage)
      | Some a \<Rightarrow>
          if PLATFORM_ADMIN_ROLE \<in> set (auth_roles a) then Inr ()
          else if \<not> js_truthy (auth_tenantId a) \<or> auth_tenantId a \<noteq> Some resourceTenantId
          then Inl (NotFoundException notFoundMessage)
          else Inr ())"

definition isPlatformAdmin :: "AuthContext option \<Rightarrow> bool" where
  "isPlatformAdmin auth = (case auth of None \<Rightarrow> False | Some a \<Rightarrow> PLATFORM_ADMIN_ROLE \<in> set (auth_roles a))"

definition getPostgresErrorCode :: "err \<Rightarrow> string option" where
  "getPostgresErrorCode e = (case e of QueryFailed code _ \<Rightarrow> Some code | _ \<Rightarrow> None)"

definition getPostgresErrorConstraint :: "err \<Rightarrow> string option" where
  "getPostgresErrorConstraint e = (case e of QueryFailed _ c \<Rightarrow> Some c | _ \<Rightarrow> None)"

definition isUniqueConstraintViolation :: "err \<Rightarrow> string option \<Rightarrow> bool" where
  "isUniqueConstraintViolation e constraintName =
     (if getPostgresErrorCode e \<noteq> Some ''23505'' then False
      else constraintName = None \<or> getPostgresErrorConstraint e = constraintName)"

section \<open>Who gets through\<close>

lemma assertTenantAccess_Inr_iff:
  "assertTenantAccess auth t = Inr () \<longleftrightarrow>
   isPlatformAdmin auth \<or> (\<exists>a. auth = Some a \<and> t \<noteq> '''' \<and> auth_tenantId a = Some t)"
  by (auto simp: assertTenantAccess_def isPlatformAdmin_def js_truthy_def split: option.splits)

lemma assertResource_Inr_iff:
  "assertResourceTenantOrNotFound auth t msg = Inr () \<longleftrightarrow>
   isPlatformAdmin auth \<or> (\<exists>a. auth = Some a \<and> t \<noteq> '''' \<and> auth_tenantId a = Some t)"
  by (auto simp: assertResourceTenantOrNotFound_def isPlatformAdmin_def js_truthy_def split: option.splits)

text \<open>
  The two tenant checks admit the same callers, platform administrators and holders of a token
  for exactly that tenant; they differ only in the refusal, which for a loaded resource is the
  not-found error a missing row gives.
\<close>

theorem tenant_checks_agree:
  "(assertTenantAccess auth t = Inr () \<longleftrightarrow> assertResourceTenantOrNotFound auth t msg = Inr ())
   \<and> (assertTenantAccess auth t = Inr () \<longleftrightarrow>
        isPlatformAdmin auth \<or> (\<exists>a. auth = Some a \<and> t \<noteq> '''' \<and> auth_tenantId a = Some t))
   \<and> (assertTenantAccess auth t = Inr () \<or> (\<exists>m. assertTenantAccess auth t = Inl (TenantAccessDeniedException m)))
   \<and> (assertResourceTenantOrNotFound auth t msg = Inr ()
      \<or> assertResourceTenantOrNotFound auth t msg = Inl (NotFoundException msg))"
proof (intro conjI)
  show "assertTenantAccess auth t = Inr () \<longleftrightarrow> assertResourceTenantOrNotFound auth t msg = Inr ()"
    by (simp only: assertTenantAccess_Inr_iff assertResource_Inr_iff)
  show "assertTenantAccess auth t = Inr () \<longleftrightarrow>
      isPlatformAdmin auth \<or> (\<exists>a. auth = Some a \<and> t \<noteq> '''' \<and> auth_tenantId a = Some t)"
    by (rule assertTenantAccess_Inr_iff)
  show "assertTenantAccess auth t = Inr () \<or> (\<exists>m. assertTenantAccess auth t = Inl (TenantAccessDeniedException m))"
    by (auto simp: assertTenantAccess_def split: option.split)
  show "assertResourceTenantOrNotFound auth t msg = Inr ()
      \<or> assertResourceTenantOrNotFound auth t msg = Inl (NotFoundException msg)"
    by (auto simp: assertResourceTenantOrNotFound_def split: option.split)
qed

end
