(* ===== verification/Connection.thy ===== *)
theory Connection
  imports Operation_Service Tenant_Access
begin

text \<open>
  The connection table and its forward-only transitions: \<open>connection.repository.ts\<close> and
  \<open>connection-state-transition.ts\<close>.
\<close>

section \<open>Lookups\<close>

definition conn_findById :: "uuid \<Rightarrow> db \<Rightarrow> connection option" where
  "conn_findById i s = List.find (\<lambda>c. conn_id c = i) (connections s)"

definition conn_findByIdForTenant :: "uuid \<Rightarrow> uuid \<Rightarrow> db \<Rightarrow> connection option" where
  "conn_findByIdForTenant tenantId i s =
     List.find (\<lambda>c. conn_id c = i \<and> conn_tenantId c = tenantId) (connections s)"

definition conn_findByExternalConnectionId :: "string \<Rightarrow> db \<Rightarrow> connection option" where
  "conn_findByExternalConnectionId ext s =
     List.find (\<lambda>c. conn_externalConnectionId c = Some ext) (connections s)"

definition conn_findByExternalConnectionIdForTenant :: "uuid \<Rightarrow> string \<Rightarrow> db \<Rightarrow> connection option" where
  "conn_findByExternalConnectionIdForTenant tenantId ext s =
     List.find (\<lambda>c. conn_tenantId c = tenantId \<and> conn_externalConnectionId c = Some ext) (connections s)"

text \<open>\<open>metadata ->> 'invitationId' = msgId\<close>: for the strings this service stores, the text of the value.\<close>

definition conn_findByInvitationMsgIdForTenant :: "uuid \<Rightarrow> string \<Rightarrow> db \<Rightarrow> connection option" where
  "conn_findByInvitationMsgIdForTenant tenantId msgId s =
     List.find (\<lambda>c. conn_tenantId c = tenantId
                    \<and> map_of (conn_metadata c) ''invitationId'' = Some (JStr msgId)) (connections s)"

section \<open>Pages\<close>

record ConnectionPage =
  cpage_items :: "connection list"
  cpage_nextCursor :: "Cursor option"
  cpage_hasMore :: bool

definition conn_sort_key :: "connection \<Rightarrow> int \<times> string" where
  "conn_sort_key c = (conn_createdAt c, conn_id c)"

definition conn_findPageForTenant ::
    "cursor_lib \<Rightarrow> uuid \<Rightarrow> nat \<Rightarrow> Cursor option \<Rightarrow> ConnectionState option \<Rightarrow> ConnectionProtocol option \<Rightarrow>
     db \<Rightarrow> err + ConnectionPage" where
  "conn_findPageForTenant L tenantId limit cursor state protocol s =
     (let matches = (\<lambda>c. conn_tenantId c = tenantId
             \<and> (case state of None \<Rightarrow> True | Some st \<Rightarrow> conn_state c = st)
             \<and> (case protocol of None \<Rightarrow> True | Some p \<Rightarrow> conn_protocol c = p));
          page = (\<lambda>after.
             let rows = take (limit + 1) (sort_key conn_sort_key
                          (filter (\<lambda>c. matches c \<and> after c) (connections s)));
                 hasMore = length rows > limit;
                 items = (if hasMore then take limit rows else rows)
             in \<lparr>cpage_items = items,
                 cpage_nextCursor =
                   (if hasMore \<and> items \<noteq> []
                    then Some \<lparr>cur_createdAt = toISOString L (to_js (conn_createdAt (last items))),
                               cur_id = conn_id (last items)\<rparr>
                    else None),
                 cpage_hasMore = hasMore\<rparr>)
      in case cursor of
           None \<Rightarrow> Inr (page (\<lambda>_. True))
         | Some cur \<Rightarrow>
             (case cast_timestamptz L (cur_createdAt cur) of
                None \<Rightarrow> Inl (QueryFailed ''22007'' '''')
              | Some t \<Rightarrow> Inr (page (\<lambda>c. (t, cur_id cur) < conn_sort_key c))))"

section \<open>Writes\<close>

definition conn_insert :: "connection \<Rightarrow> connection service" where
  "conn_insert c = (\<lambda>s.
     if conn_findById (conn_id c) s \<noteq> None then throw (QueryFailed ''23505'' ''connection_pkey'') s
     else bindA (put_connections (connections s @ [c])) (\<lambda>_. ret c) s)"

definition conn_save :: "env \<Rightarrow> connection \<Rightarrow> connection service" where
  "conn_save E c = (\<lambda>s.
     let row = (if conn_findById (conn_id c) s = Some c then c else c\<lparr>conn_updatedAt := db_now E\<rparr>)
     in bindA (put_connections (save_row conn_id row (connections s))) (\<lambda>_. ret row) s)"

definition conn_updateStateIfForward ::
    "env \<Rightarrow> uuid \<Rightarrow> uuid \<Rightarrow> ConnectionState \<Rightarrow> ConnectionState list \<Rightarrow> bool service" where
  "conn_updateStateIfForward E i tenantId state fromStates = (\<lambda>s.
     let hit = (\<lambda>c. conn_id c = i \<and> conn_tenantId c = tenantId \<and> conn_state c \<in> set fromStates)
     in bindA (put_connections (update_where hit
                 (\<lambda>c. c\<lparr>conn_state := state, conn_updatedAt := db_now E\<rparr>) (connections s)))
          (\<lambda>_. ret (count_where hit (connections s) > 0)) s)"

text \<open>Deleting a connection clears the links of credentials and exchanges to it (\<open>ON DELETE SET NULL\<close>).\<close>

definition conn_delete :: "uuid \<Rightarrow> unit service" where
  "conn_delete i = modifies (\<lambda>s. s\<lparr>
     connections := filter (\<lambda>c. conn_id c \<noteq> i) (connections s),
     credentials := map (\<lambda>c. if cred_connectionId c = Some i then c\<lparr>cred_connectionId := None\<rparr> else c) (credentials s),
     exchanges := map (\<lambda>e. if exch_connectionId e = Some i then e\<lparr>exch_connectionId := None\<rparr> else e) (exchanges s)\<rparr>)"

definition conn_abandonAllForTenant :: "env \<Rightarrow> uuid \<Rightarrow> nat service" where
  "conn_abandonAllForTenant E tenantId = (\<lambda>s.
     let hit = (\<lambda>c. conn_tenantId c = tenantId \<and> conn_state c \<notin> {ConnCompleted, ConnAbandoned})
     in bindA (put_connections (update_where hit
                 (\<lambda>c. c\<lparr>conn_state := ConnAbandoned, conn_updatedAt := db_now E\<rparr>) (connections s)))
          (\<lambda>_. ret (count_where hit (connections s))) s)"

section \<open>The transition with its intermediate claim\<close>

definition transitionConnectionState ::
    "ConnectionState \<Rightarrow> (ConnectionState \<Rightarrow> ConnectionState list \<Rightarrow> 'c option service) \<Rightarrow>
     ('c option \<times> bool) service" where
  "transitionConnectionState target attempt =
     bindA (if target = ConnCompleted
            then attempt ConnActive (connectionStatesBelow ConnActive) else ret None) (\<lambda>active.
     bindA (attempt target (connectionStatesBelow target)) (\<lambda>updated.
       ret (case updated of Some c \<Rightarrow> Some c | None \<Rightarrow> active,
            active \<noteq> None \<or> (updated \<noteq> None \<and> target = ConnActive))))"

record remote_connection =
  rem_id :: string
  rem_state :: ConnectionState
  rem_theirLabel :: "string option"
  rem_theirDid :: "string option"

text \<open>
  \<open>reconcile\<close> binds a row to the connection the backend reports and moves it forward. A field that
  is \<open>undefined\<close> in the report is left as it is by the save. \<open>onEstablished\<close> runs in the
  transaction, and a throw in it undoes everything.
\<close>

definition undefined_keeps :: "'a option \<Rightarrow> 'a option \<Rightarrow> 'a option" where
  "undefined_keeps new old = (case new of None \<Rightarrow> old | Some x \<Rightarrow> Some x)"

definition conn_reconcile ::
    "env \<Rightarrow> uuid \<Rightarrow> uuid \<Rightarrow> uuid \<Rightarrow> remote_connection \<Rightarrow> ConnectionState list \<Rightarrow> unit service \<Rightarrow>
     (connection \<times> bool) option service" where
  "conn_reconcile E tenantId i connectorId remote forwardStates onEstablished =
     transaction (\<lambda>_.
       bindA (reads (conn_findByIdForTenant tenantId i)) (\<lambda>row.
       case row of
         None \<Rightarrow> ret None
       | Some c \<Rightarrow>
           if (js_truthy (conn_connectorId c) \<and> conn_connectorId c \<noteq> Some connectorId)
              \<or> (js_truthy (conn_externalConnectionId c) \<and> conn_externalConnectionId c \<noteq> Some (rem_id remote))
           then ret None
           else
             bindA (conn_save E (c\<lparr>conn_connectorId := Some connectorId,
                      conn_externalConnectionId := Some (rem_id remote),
                      conn_theirLabel := undefined_keeps (rem_theirLabel remote) (conn_theirLabel c),
                      conn_theirDid := undefined_keeps (rem_theirDid remote) (conn_theirDid c),
                      conn_protocol := DidcommV1\<rparr>)) (\<lambda>saved.
             bindA (if conn_state saved \<in> set forwardStates
                    then transitionConnectionState (rem_state remote) (\<lambda>state fromStates.
                           bindA (conn_updateStateIfForward E i tenantId state fromStates) (\<lambda>won.
                             ret (if won then Some (saved\<lparr>conn_state := state\<rparr>) else None)))
                    else ret (None, False)) (\<lambda>(moved, established).
             bindA (whenA established onEstablished) (\<lambda>_.
               ret (Some (case moved of Some c' \<Rightarrow> c' | None \<Rightarrow> saved, established)))))))"

lemma of_js_to_js_less: "t mod 1000 \<noteq> 0 \<Longrightarrow> of_js (to_js t) < t"
proof -
  assume h: "t mod 1000 \<noteq> 0"
  have "t div 1000 * 1000 + t mod 1000 = t" by (rule div_mult_mod_eq)
  moreover have "0 \<le> t mod 1000" by simp
  ultimately have "t div 1000 * 1000 < t" using h by linarith
  then show ?thesis by (simp add: of_js_def to_js_def)
qed

section \<open>Guarded writes\<close>

definition conn_hit :: "env \<times> uuid \<times> uuid \<times> ConnectionState \<times> ConnectionState list \<Rightarrow> connection \<Rightarrow> bool" where
  "conn_hit p c = (case p of (E, i, tenantId, state, fromStates) \<Rightarrow>
     conn_id c = i \<and> conn_tenantId c = tenantId \<and> conn_state c \<in> set fromStates)"

definition conn_upd :: "env \<times> uuid \<times> uuid \<times> ConnectionState \<times> ConnectionState list \<Rightarrow> connection \<Rightarrow> connection" where
  "conn_upd p c = (case p of (E, i, tenantId, state, fromStates) \<Rightarrow>
     c\<lparr>conn_state := state, conn_updatedAt := db_now E\<rparr>)"

lemma conn_updateStateIfForward_Inr:
  "conn_updateStateIfForward E i tenantId state fromStates s = (Inr b, s') \<longleftrightarrow>
   put_connections (update_where (conn_hit (E, i, tenantId, state, fromStates))
      (conn_upd (E, i, tenantId, state, fromStates)) (connections s)) s = (Inr (), s')
   \<and> b = (\<exists>c \<in> set (connections s). conn_hit (E, i, tenantId, state, fromStates) c)"
  by (auto simp: conn_updateStateIfForward_def run_Inr Let_def count_where_pos conn_hit_def [abs_def]
        conn_upd_def [abs_def])

lemma conn_updateStateIfForward_Inl:
  "conn_updateStateIfForward E i tenantId state fromStates s = (Inl e, s') \<Longrightarrow> s' = s"
  by (auto simp: conn_updateStateIfForward_def Let_def ret_def elim!: bindA_Inl_cases dest: put_Inl)

interpretation conn_cas: guarded_write connections conn_hit conn_upd
  "\<lambda>(E, i, tenantId, state, fromStates). state \<notin> set fromStates"
  "\<lambda>(E, i, tenantId, state, fromStates). conn_updateStateIfForward E i tenantId state fromStates"
proof (unfold_locales, goal_cases)
  case (1 p s b s')
  then show ?case by (cases p) (auto simp: conn_updateStateIfForward_Inr put_Inr)
next
  case (2 p s e s')
  then show ?case by (cases p) (auto dest: conn_updateStateIfForward_Inl)
next
  case (3 p r)
  then show ?case by (cases p) (auto simp: conn_hit_def conn_upd_def)
qed

section \<open>What a transition does to the state\<close>

definition conn_state_of :: "uuid \<Rightarrow> uuid \<Rightarrow> db \<Rightarrow> ConnectionState option" where
  "conn_state_of tenantId i s = map_option conn_state (conn_findByIdForTenant tenantId i s)"

lemma conn_update_state:
  assumes "conn_updateStateIfForward E i t st fromStates s = (Inr won, s')"
    and "key_table conn_id (connections s)" and "conn_state_of t i s = Some cur"
  shows "won = (cur \<in> set fromStates)" and "key_table conn_id (connections s')"
    and "conn_state_of t i s' = Some (if cur \<in> set fromStates then st else cur)"
proof -
  let ?p = "(E, i, t, st, fromStates)"
  obtain c where c: "conn_findByIdForTenant t i s = Some c" "conn_state c = cur"
    using assms(3) by (auto simp: conn_state_of_def)
  then have cr: "c \<in> set (connections s)" "conn_id c = i" "conn_tenantId c = t"
    by (auto simp: conn_findByIdForTenant_def dest: find_Some)
  have uniq: "conn_hit ?p d \<longleftrightarrow> d = c \<and> cur \<in> set fromStates" if "d \<in> set (connections s)" for d
    using key_table_unique [OF assms(2) that cr(1)] cr c(2) by (auto simp: conn_hit_def)
  from assms(1) have rows: "connections s' = update_where (conn_hit ?p) (conn_upd ?p) (connections s)"
    and w: "won = (\<exists>c \<in> set (connections s). conn_hit ?p c)"
    by (auto simp: conn_updateStateIfForward_Inr put_Inr)
  show "won = (cur \<in> set fromStates)" using w uniq cr(1) by blast
  show "key_table conn_id (connections s')"
    unfolding rows using assms(2) by (subst key_table_update_where) (auto simp: conn_upd_def)
  have "conn_findByIdForTenant t i s' = Some (if conn_hit ?p c then conn_upd ?p c else c)"
    unfolding conn_findByIdForTenant_def rows
    by (subst find_update_where)
       (use c in \<open>auto simp: conn_findByIdForTenant_def conn_upd_def\<close>)
  with uniq [OF cr(1)] c(2) show "conn_state_of t i s' = Some (if cur \<in> set fromStates then st else cur)"
    by (auto simp: conn_state_of_def conn_upd_def)
qed

text \<open>
  The abstract machine of one connection: it moves to the reported state when that is forward, and
  is established by the move that takes it past the handshake.
\<close>

definition conn_next :: "ConnectionState \<Rightarrow> ConnectionState \<Rightarrow> ConnectionState" where
  "conn_next cur target = (if isForwardConnectionTransition cur target then target else cur)"

definition conn_established_by :: "ConnectionState \<Rightarrow> ConnectionState \<Rightarrow> bool" where
  "conn_established_by cur target =
     (target \<in> {ConnActive, ConnCompleted} \<and> isForwardConnectionTransition cur ConnActive)"

definition guarded_attempt ::
    "env \<Rightarrow> uuid \<Rightarrow> uuid \<Rightarrow> ConnectionState \<Rightarrow> ConnectionState list \<Rightarrow> ConnectionState option service" where
  "guarded_attempt E t i state fromStates =
     bindA (conn_updateStateIfForward E i t state fromStates) (\<lambda>won. ret (if won then Some state else None))"

lemma transitionConnectionState_refines:
  assumes "transitionConnectionState target (guarded_attempt E t i) s = (Inr (moved, est), s')"
    and "key_table conn_id (connections s)" and "conn_state_of t i s = Some cur"
  shows "conn_state_of t i s' = Some (conn_next cur target)" and "key_table conn_id (connections s')"
    and "est = conn_established_by cur target"
    and "moved = (if isForwardConnectionTransition cur target then Some target else None)"
proof -
  obtain a s1 u where
    one: "(if target = ConnCompleted then guarded_attempt E t i ConnActive (connectionStatesBelow ConnActive)
           else ret None) s = (Inr a, s1)"
    and two: "guarded_attempt E t i target (connectionStatesBelow target) s1 = (Inr u, s')"
    and res: "moved = (case u of Some c \<Rightarrow> Some c | None \<Rightarrow> a)"
      "est = (a \<noteq> None \<or> (u \<noteq> None \<and> target = ConnActive))"
    using assms(1) by (auto simp: transitionConnectionState_def run_Inr split: option.splits)
  define mid where "mid = (if target = ConnCompleted then conn_next cur ConnActive else cur)"
  have s1: "key_table conn_id (connections s1)" "conn_state_of t i s1 = Some mid"
    "a = (if target = ConnCompleted \<and> isForwardConnectionTransition cur ConnActive then Some ConnActive else None)"
    using one assms(2,3) conn_update_state [of E i t ConnActive "connectionStatesBelow ConnActive" s _ s1 cur]
    by (auto simp: guarded_attempt_def run_Inr mid_def conn_next_def connectionStatesBelow_iff split: if_splits)
  have s2: "key_table conn_id (connections s')" "conn_state_of t i s' = Some (conn_next mid target)"
    "u = (if isForwardConnectionTransition mid target then Some target else None)"
    using two s1(1,2) conn_update_state [of E i t target "connectionStatesBelow target" s1 _ s' mid]
    by (auto simp: guarded_attempt_def run_Inr conn_next_def connectionStatesBelow_iff split: if_splits)
  show "key_table conn_id (connections s')" by (rule s2)
  show "conn_state_of t i s' = Some (conn_next cur target)"
    using s2(2) by (cases cur; cases target)
      (auto simp: mid_def conn_next_def isForwardConnectionTransition_def)
  show "est = conn_established_by cur target"
    using res(2) s1(3) s2(3) by (cases cur; cases target)
      (auto simp: mid_def conn_next_def conn_established_by_def isForwardConnectionTransition_def)
  show "moved = (if isForwardConnectionTransition cur target then Some target else None)"
    using res(1) s1(3) s2(3) by (cases cur; cases target)
      (auto simp: mid_def conn_next_def isForwardConnectionTransition_def)
qed

text \<open>
  C17 A reported state is applied to a connection as the forward machine says: the row moves to the
  reported state when its rank is higher and stays otherwise, a backend that skips the active
  state is treated as having passed it, and the connection counts as established exactly when this
  report took it past the handshake.
\<close>

theorem connection_transition_refines:
  assumes "transitionConnectionState target (guarded_attempt E t i) s = (Inr (moved, est), s')"
    and "key_table conn_id (connections s)" and "conn_state_of t i s = Some cur"
  shows "conn_state_of t i s' = Some (conn_next cur target) \<and> est = conn_established_by cur target
    \<and> moved = (if isForwardConnectionTransition cur target then Some target else None)"
  using transitionConnectionState_refines [OF assms] by simp

definition sample_connection :: "uuid \<Rightarrow> ConnectionState \<Rightarrow> connection" where
  "sample_connection i state =
     \<lparr>conn_id = i, conn_tenantId = ''t1'', conn_externalConnectionId = Some ''x1'', conn_theirLabel = None,
      conn_theirDid = None, conn_state = state, conn_connectorType = Traction, conn_connectorId = Some ''k1'',
      conn_protocol = DidcommV1, conn_metadata = [], conn_createdAt = 1, conn_updatedAt = 1\<rparr>"

definition invited_db :: db where
  "invited_db = empty_db\<lparr>connections := [sample_connection ''n1'' ConnInvited]\<rparr>"

theorem connection_transition_refines_witness:
  "\<exists>moved est s'. transitionConnectionState ConnCompleted (guarded_attempt sample_env ''t1'' ''n1'') invited_db
       = (Inr (moved, est), s')
     \<and> conn_state_of ''t1'' ''n1'' s' = Some ConnCompleted \<and> est"
proof -
  let ?run = "transitionConnectionState ConnCompleted (guarded_attempt sample_env ''t1'' ''n1'') invited_db"
  have "returned ?run" by code_simp
  then obtain r s' where "?run = (Inr r, s')" by (rule returnedE)
  then obtain moved est where run: "?run = (Inr (moved, est), s')" by (cases r) simp
  have "key_table conn_id (connections invited_db)" "conn_state_of ''t1'' ''n1'' invited_db = Some ConnInvited"
    by code_simp+
  from connection_transition_refines [OF run this] run show ?thesis
    by (auto simp: conn_next_def conn_established_by_def isForwardConnectionTransition_def)
qed

text \<open>Reports delivered one after the other, each in its own transaction.\<close>

fun conn_deliver :: "uuid \<Rightarrow> uuid \<Rightarrow> (env \<times> ConnectionState) list \<Rightarrow> bool list service" where
  "conn_deliver t i [] = ret []"
| "conn_deliver t i ((E, target) # ds) =
     bindA (transitionConnectionState target (guarded_attempt E t i)) (\<lambda>(_, established).
     bindA (conn_deliver t i ds) (\<lambda>es. ret (established # es)))"

lemma conn_next_rank: "CONNECTION_STATE_RANK cur \<le> CONNECTION_STATE_RANK (conn_next cur target)"
  by (simp add: conn_next_def isForwardConnectionTransition_def)

lemma conn_next_established:
  "conn_established_by cur target \<Longrightarrow> \<not> isForwardConnectionTransition (conn_next cur target) ConnActive"
  by (cases cur; cases target)
     (auto simp: conn_established_by_def conn_next_def isForwardConnectionTransition_def)

lemma conn_deliver_state:
  assumes "conn_deliver t i ds s = (Inr es, s')"
    and "key_table conn_id (connections s)" and "conn_state_of t i s = Some cur"
  shows "conn_state_of t i s' = Some (foldl conn_next cur (map snd ds))
    \<and> CONNECTION_STATE_RANK cur \<le> CONNECTION_STATE_RANK (foldl conn_next cur (map snd ds))
    \<and> length (filter id es) \<le> (if isForwardConnectionTransition cur ConnActive then 1 else 0)"
  using assms
proof (induction ds arbitrary: s es cur)
  case Nil
  then show ?case by (simp add: ret_def)
next
  case (Cons d ds)
  obtain E target where d: "d = (E, target)" by (cases d)
  with Cons.prems(1) obtain moved est s1 es' where
    one: "transitionConnectionState target (guarded_attempt E t i) s = (Inr (moved, est), s1)"
    and rest: "conn_deliver t i ds s1 = (Inr es', s')" and es: "es = est # es'"
    by (auto simp: run_Inr)
  note r = transitionConnectionState_refines [OF one Cons.prems(2,3)]
  from Cons.IH [OF rest r(2,1)] conn_next_rank [of cur target] conn_next_established [of cur target]
  show ?case
    by (auto simp: d es r(3) conn_established_by_def isForwardConnectionTransition_def split: if_splits)
qed

text \<open>
  C22 Over any sequence of reports about one connection the row never moves backwards, ends where the
  forward machine ends, and is established at most once, so the established event is raised at
  most once.
\<close>

theorem connection_established_at_most_once:
  assumes "conn_deliver t i ds s = (Inr es, s')"
    and "key_table conn_id (connections s)" and "conn_state_of t i s = Some cur"
  shows "length (filter id es) \<le> 1
    \<and> conn_state_of t i s' = Some (foldl conn_next cur (map snd ds))
    \<and> CONNECTION_STATE_RANK cur \<le> CONNECTION_STATE_RANK (foldl conn_next cur (map snd ds))"
  using conn_deliver_state [OF assms] by (auto split: if_splits)

theorem connection_established_at_most_once_witness:
  "\<exists>es s'. conn_deliver ''t1'' ''n1'' [(sample_env, ConnActive), (sample_env, ConnRequested), (sample_env, ConnCompleted)]
        invited_db = (Inr es, s')
     \<and> length (filter id es) \<le> 1 \<and> conn_state_of ''t1'' ''n1'' s' = Some ConnCompleted"
proof -
  let ?run = "conn_deliver ''t1'' ''n1'' [(sample_env, ConnActive), (sample_env, ConnRequested), (sample_env, ConnCompleted)] invited_db"
  have "returned ?run" by code_simp
  then obtain es s' where run: "?run = (Inr es, s')" by (rule returnedE)
  have "key_table conn_id (connections invited_db)" "conn_state_of ''t1'' ''n1'' invited_db = Some ConnInvited"
    by code_simp+
  from connection_established_at_most_once [OF run this] run show ?thesis
    by (simp add: conn_next_def isForwardConnectionTransition_def)
qed

section \<open>Pages repeat rows\<close>

text \<open>
  The connection list truncates the creation time of its cursor to milliseconds while the table
  keeps microseconds. When the last row of the first page was not created on a whole millisecond,
  the page its cursor leads to repeats a row of the first page.
\<close>

theorem connection_page_repeats_row:
  assumes "conn_findPageForTenant L tenantId limit None state protocol s = Inr page"
    and "cpage_nextCursor page = Some cursor"
    and "conn_createdAt (last (cpage_items page)) mod 1000 \<noteq> 0"
    and "m = to_js (conn_createdAt (last (cpage_items page)))"
    and "cast_timestamptz L (toISOString L m) = Some (of_js m)"
  shows "\<exists>page'. conn_findPageForTenant L tenantId limit (Some cursor) state protocol s = Inr page'
    \<and> set (cpage_items page) \<inter> set (cpage_items page') \<noteq> {}"
proof -
  define matches where "matches = (\<lambda>c :: connection. conn_tenantId c = tenantId
             \<and> (case state of None \<Rightarrow> True | Some st \<Rightarrow> conn_state c = st)
             \<and> (case protocol of None \<Rightarrow> True | Some p \<Rightarrow> conn_protocol c = p))"
  define srt where "srt = sort_key conn_sort_key (filter matches (connections s))"
  have len: "length (filter matches (connections s)) = length srt" by (simp add: srt_def)
  have page: "limit < length srt" "0 < limit" "cpage_items page = take limit srt"
    "cursor = \<lparr>cur_createdAt = toISOString L (to_js (conn_createdAt (last (take limit srt)))),
               cur_id = conn_id (last (take limit srt))\<rparr>"
    using assms(1,2)
    by (auto simp: conn_findPageForTenant_def Let_def matches_def [symmetric] srt_def [symmetric] min_def len
          split: if_splits)
  define r where "r = last (take limit srt)"
  define P where "P = (\<lambda>c. (of_js (to_js (conn_createdAt r)), conn_id r) < conn_sort_key c)"
  have "take limit srt \<noteq> []" using page(1,2) by auto
  then have r_in: "r \<in> set (take limit srt)" unfolding r_def by (rule last_in_set)
  have "of_js (to_js (conn_createdAt r)) < conn_createdAt r"
    by (rule of_js_to_js_less) (use assms(3) page(3) in \<open>simp add: r_def\<close>)
  then have "P r" by (simp add: P_def conn_sort_key_def less_prod_def)
  with r_in obtain x xs where x: "filter P (take limit srt) = x # xs"
    by (cases "filter P (take limit srt)") (auto simp: filter_empty_conv)
  then have x_in: "x \<in> set (take limit srt)" by (metis filter_is_subset list.set_intros(1) subsetD)
  have "filter P srt = filter P (take limit srt) @ filter P (drop limit srt)"
    by (metis append_take_drop_id filter_append)
  with x have "\<exists>ys. filter P srt = x # ys" by simp
  moreover have "sort_key conn_sort_key (filter (\<lambda>c. matches c \<and> P c) (connections s)) = filter P srt"
    by (simp add: srt_def filter_sort conj_commute)
  ultimately obtain ys where ys: "sort_key conn_sort_key (filter (\<lambda>c. matches c \<and> P c) (connections s)) = x # ys"
    by auto
  have cast: "cast_timestamptz L (cur_createdAt cursor) = Some (of_js (to_js (conn_createdAt r)))"
    and cid: "cur_id cursor = conn_id r" using page(3,4) assms(4,5) by (simp_all add: r_def)
  have "\<exists>page'. conn_findPageForTenant L tenantId limit (Some cursor) state protocol s = Inr page'
      \<and> x \<in> set (cpage_items page')"
    using ys page(2) cast cid
    by (auto simp: conn_findPageForTenant_def Let_def matches_def [symmetric] P_def [symmetric] take_Cons'
          split: if_splits)
  with x_in page(3) show ?thesis by auto
qed

definition two_connections_db :: db where
  "two_connections_db = empty_db\<lparr>connections :=
     [(sample_connection ''n1'' ConnActive)\<lparr>conn_createdAt := 500\<rparr>,
      (sample_connection ''n2'' ConnActive)\<lparr>conn_createdAt := 9500, conn_externalConnectionId := Some ''x2''\<rparr>]\<rparr>"

theorem connection_page_repeats_row_witness:
  "\<exists>page cursor page'. conn_findPageForTenant sample_lib ''t1'' 1 None None None two_connections_db = Inr page
     \<and> cpage_nextCursor page = Some cursor
     \<and> conn_findPageForTenant sample_lib ''t1'' 1 (Some cursor) None None two_connections_db = Inr page'
     \<and> set (cpage_items page) \<inter> set (cpage_items page') \<noteq> {}"
proof -
  let ?p = "conn_findPageForTenant sample_lib ''t1'' 1 None None None two_connections_db"
  have "\<not> isl ?p" by code_simp
  then obtain page where p: "?p = Inr page" by (cases ?p) auto
  have "cpage_nextCursor (projr ?p) \<noteq> None" by code_simp
  then obtain cursor where c: "cpage_nextCursor page = Some cursor" using p by auto
  have "conn_createdAt (last (cpage_items (projr ?p))) = 500" by code_simp
  then have last: "conn_createdAt (last (cpage_items page)) = 500" using p by simp
  have "cast_timestamptz sample_lib (toISOString sample_lib 0) = Some (of_js 0)"
    by (simp add: sample_lib_def of_js_def)
  from connection_page_repeats_row [OF p c _ _ this] p c last show ?thesis
    by (simp add: to_js_def)
qed

end
