(* ===== verification/Credential_Store.thy ===== *)
theory Credential_Store
  imports Connection
begin

text \<open>\<open>credential.repository.ts\<close>: the credential table and its guarded transition.\<close>

definition cred_insert :: "credential \<Rightarrow> credential service" where
  "cred_insert c = (\<lambda>s.
     if \<exists>r \<in> set (credentials s). cred_id r = cred_id c then throw (QueryFailed ''23505'' ''credential_pkey'') s
     else bindA (put_credentials (credentials s @ [c])) (\<lambda>_. ret c) s)"

definition cred_findById :: "uuid \<Rightarrow> db \<Rightarrow> credential option" where
  "cred_findById i s = List.find (\<lambda>c. cred_id c = i) (credentials s)"

definition cred_findByTenant :: "uuid \<Rightarrow> db \<Rightarrow> credential list" where
  "cred_findByTenant tenantId s =
     sort_key (\<lambda>c. - cred_createdAt c) (filter (\<lambda>c. cred_tenantId c = tenantId) (credentials s))"

definition cred_findByExternalId :: "uuid \<Rightarrow> string \<Rightarrow> db \<Rightarrow> credential option" where
  "cred_findByExternalId tenantId externalId s =
     List.find (\<lambda>c. cred_tenantId c = tenantId \<and> cred_externalId c = Some externalId) (credentials s)"

definition cred_findByIdForTenant :: "uuid \<Rightarrow> uuid \<Rightarrow> db \<Rightarrow> credential option" where
  "cred_findByIdForTenant i tenantId s =
     List.find (\<lambda>c. cred_id c = i \<and> cred_tenantId c = tenantId) (credentials s)"

definition cred_findByProfile :: "uuid \<Rightarrow> uuid \<Rightarrow> db \<Rightarrow> credential list" where
  "cred_findByProfile tenantId profileId s =
     sort_key (\<lambda>c. - cred_createdAt c)
       (filter (\<lambda>c. cred_tenantId c = tenantId \<and> cred_issuanceProfileId c = Some profileId) (credentials s))"

text \<open>The optional columns of a state write; a key that is \<open>undefined\<close> leaves its column alone.\<close>

record cred_stamp =
  stamp_issuedAt :: "int option"
  stamp_revokedAt :: "int option"
  stamp_externalId :: "string option option"

definition no_stamp :: cred_stamp where
  "no_stamp = \<lparr>stamp_issuedAt = None, stamp_revokedAt = None, stamp_externalId = None\<rparr>"

definition apply_stamp :: "env \<Rightarrow> CredentialState \<Rightarrow> cred_stamp \<Rightarrow> credential \<Rightarrow> credential" where
  "apply_stamp E state st c =
     c\<lparr>cred_state := state,
       cred_issuedAt := (case stamp_issuedAt st of None \<Rightarrow> cred_issuedAt c | Some d \<Rightarrow> Some (of_js d)),
       cred_revokedAt := (case stamp_revokedAt st of None \<Rightarrow> cred_revokedAt c | Some d \<Rightarrow> Some (of_js d)),
       cred_externalId := (case stamp_externalId st of None \<Rightarrow> cred_externalId c | Some x \<Rightarrow> x),
       cred_updatedAt := db_now E\<rparr>"

definition cred_updateState :: "env \<Rightarrow> uuid \<Rightarrow> CredentialState \<Rightarrow> cred_stamp \<Rightarrow> unit service" where
  "cred_updateState E i state st = (\<lambda>s.
     put_credentials (update_where (\<lambda>c. cred_id c = i)
       (apply_stamp E state (st\<lparr>stamp_externalId := None\<rparr>)) (credentials s)) s)"

definition cred_updateStateIfForward ::
    "env \<Rightarrow> uuid \<Rightarrow> uuid \<Rightarrow> CredentialState \<Rightarrow> CredentialState list \<Rightarrow> cred_stamp \<Rightarrow> bool service" where
  "cred_updateStateIfForward E i tenantId state fromStates st = (\<lambda>s.
     let hit = (\<lambda>c. cred_id c = i \<and> cred_tenantId c = tenantId \<and> cred_state c \<in> set fromStates)
     in bindA (put_credentials (update_where hit (apply_stamp E state st) (credentials s)))
          (\<lambda>_. ret (count_where hit (credentials s) > 0)) s)"

definition cred_setExternalId :: "env \<Rightarrow> uuid \<Rightarrow> uuid \<Rightarrow> string \<Rightarrow> unit service" where
  "cred_setExternalId E i tenantId externalId = (\<lambda>s.
     put_credentials (update_where (\<lambda>c. cred_id c = i \<and> cred_tenantId c = tenantId)
       (\<lambda>c. c\<lparr>cred_externalId := Some externalId, cred_updatedAt := db_now E\<rparr>) (credentials s)) s)"

definition cred_existsByConnectorId :: "uuid \<Rightarrow> db \<Rightarrow> bool" where
  "cred_existsByConnectorId connectorId s =
     (count_where (\<lambda>c. cred_connectorId c = connectorId) (credentials s) > 0)"

section \<open>The guarded transition\<close>

definition cred_hit ::
    "env \<times> uuid \<times> uuid \<times> CredentialState \<times> CredentialState list \<times> cred_stamp \<Rightarrow> credential \<Rightarrow> bool" where
  "cred_hit p c = (case p of (E, i, tenantId, state, fromStates, st) \<Rightarrow>
     cred_id c = i \<and> cred_tenantId c = tenantId \<and> cred_state c \<in> set fromStates)"

definition cred_upd ::
    "env \<times> uuid \<times> uuid \<times> CredentialState \<times> CredentialState list \<times> cred_stamp \<Rightarrow> credential \<Rightarrow> credential" where
  "cred_upd p c = (case p of (E, i, tenantId, state, fromStates, st) \<Rightarrow> apply_stamp E state st c)"

lemma cred_updateStateIfForward_Inr:
  "cred_updateStateIfForward E i tenantId state fromStates st s = (Inr b, s') \<longleftrightarrow>
   put_credentials (update_where (cred_hit (E, i, tenantId, state, fromStates, st))
      (cred_upd (E, i, tenantId, state, fromStates, st)) (credentials s)) s = (Inr (), s')
   \<and> b = (\<exists>c \<in> set (credentials s). cred_hit (E, i, tenantId, state, fromStates, st) c)"
proof -
  have u: "cred_upd (E, i, tenantId, state, fromStates, st) = apply_stamp E state st"
    by (rule ext) (simp add: cred_upd_def)
  show ?thesis
    by (auto simp: cred_updateStateIfForward_def run_Inr Let_def count_where_pos cred_hit_def [abs_def] u)
qed

lemma cred_updateStateIfForward_Inl:
  "cred_updateStateIfForward E i tenantId state fromStates st s = (Inl e, s') \<Longrightarrow> s' = s"
  by (auto simp: cred_updateStateIfForward_def Let_def ret_def elim!: bindA_Inl_cases dest: put_Inl)

interpretation cred_cas: guarded_write credentials cred_hit cred_upd
  "\<lambda>(E, i, tenantId, state, fromStates, st). state \<notin> set fromStates"
  "\<lambda>(E, i, tenantId, state, fromStates, st). cred_updateStateIfForward E i tenantId state fromStates st"
proof (unfold_locales, goal_cases)
  case (1 p s b s')
  then show ?case by (cases p) (auto simp: cred_updateStateIfForward_Inr put_Inr)
next
  case (2 p s e s')
  then show ?case by (cases p) (auto dest: cred_updateStateIfForward_Inl)
next
  case (3 p r)
  then show ?case by (cases p) (auto simp: cred_hit_def cred_upd_def apply_stamp_def)
qed

end
