(* ===== verification/Credential_Exchange.thy ===== *)
theory Credential_Exchange
  imports Credential_Store
begin

text \<open>
  \<open>credential-exchange.repository.ts\<close>: the record of one issuance exchange with the backend, whose
  state only advances and whose failure never overrides an issued credential.
\<close>

fun STATE_RANK :: "ExchangeState \<Rightarrow> nat" where
  "STATE_RANK ExPending = 0"
| "STATE_RANK (Ex ProposalSent) = 1"
| "STATE_RANK (Ex OfferSent) = 2"
| "STATE_RANK (Ex OfferReceived) = 2"
| "STATE_RANK (Ex RequestSent) = 3"
| "STATE_RANK (Ex RequestReceived) = 3"
| "STATE_RANK (Ex CredentialIssued) = 4"
| "STATE_RANK (Ex CredentialReceived) = 4"
| "STATE_RANK (Ex ExchangeDone) = 5"
| "STATE_RANK (Ex ExchangeAbandoned) = 5"
| "STATE_RANK ExFailed = 5"

definition ExchangeState_values :: "ExchangeState list" where
  "ExchangeState_values = ExPending # map Ex CredentialExchangeState_values @ [ExFailed]"

fun exchangeState_value :: "ExchangeState \<Rightarrow> string" where
  "exchangeState_value ExPending = ''pending''"
| "exchangeState_value (Ex st) = credentialExchangeState_value st"
| "exchangeState_value ExFailed = ''failed''"

text \<open>\<open>hasOwnProperty\<close> of the rank table: the own keys, read as the state they name.\<close>

definition isExchangeState :: "string \<Rightarrow> ExchangeState option" where
  "isExchangeState state = List.find (\<lambda>st. exchangeState_value st = state) ExchangeState_values"

record ExchangeTransition =
  xt_exchangeId :: uuid
  xt_from :: ExchangeState
  xt_to :: ExchangeState

definition exch_insert :: "exchange \<Rightarrow> exchange service" where
  "exch_insert e = (\<lambda>s.
     if \<exists>r \<in> set (exchanges s). exch_id r = exch_id e then throw (QueryFailed ''23505'' ''credential_exchange_pkey'') s
     else bindA (put_exchanges (exchanges s @ [e])) (\<lambda>_. ret e) s)"

definition exch_findForTenant :: "uuid \<Rightarrow> uuid \<Rightarrow> db \<Rightarrow> exchange option" where
  "exch_findForTenant tenantId i s =
     List.find (\<lambda>e. exch_tenantId e = tenantId \<and> exch_id e = i) (exchanges s)"

definition exch_lock :: "uuid \<Rightarrow> uuid \<Rightarrow> exchange option service" where
  "exch_lock tenantId i = reads (exch_findForTenant tenantId i)"

definition exch_save :: "env \<Rightarrow> exchange \<Rightarrow> exchange service" where
  "exch_save E e = (\<lambda>s.
     let row = (if List.find (\<lambda>r. exch_id r = exch_id e) (exchanges s) = Some e then e
                else e\<lparr>exch_updatedAt := db_now E\<rparr>)
     in bindA (put_exchanges (save_row exch_id row (exchanges s))) (\<lambda>_. ret row) s)"

definition exch_setSubmission :: "env \<Rightarrow> uuid \<Rightarrow> uuid \<Rightarrow> IssueSubmission \<Rightarrow> unit service" where
  "exch_setSubmission E tenantId i state = (\<lambda>s.
     put_exchanges (update_where
       (\<lambda>e. exch_tenantId e = tenantId \<and> exch_id e = i \<and> exch_issueSubmission e = Submitting)
       (\<lambda>e. e\<lparr>exch_issueSubmission := state, exch_updatedAt := db_now E\<rparr>) (exchanges s)) s)"

definition exch_advance :: "exchange \<Rightarrow> ExchangeState \<Rightarrow> (exchange \<times> ExchangeTransition) option" where
  "exch_advance e nxt =
     (let frm = exch_state e; isFailure = (nxt = ExFailed \<or> nxt = Ex ExchangeAbandoned)
      in if STATE_RANK nxt \<le> STATE_RANK frm \<or> (isFailure \<and> STATE_RANK frm \<ge> 4) then None
         else Some (e\<lparr>exch_state := nxt\<rparr>, \<lparr>xt_exchangeId = exch_id e, xt_from = frm, xt_to = nxt\<rparr>))"

definition exch_markFailed :: "env \<Rightarrow> uuid \<Rightarrow> uuid \<Rightarrow> unit service" where
  "exch_markFailed E tenantId i =
     bindA (exch_lock tenantId i) (\<lambda>row.
       case row of
         None \<Rightarrow> ret ()
       | Some e \<Rightarrow>
           (case exch_advance e ExFailed of
              None \<Rightarrow> ret ()
            | Some (e', _) \<Rightarrow> bindA (exch_save E e') (\<lambda>_. ret ())))"

definition settle_submission :: "exchange \<Rightarrow> exchange" where
  "settle_submission e =
     (if exch_state e \<in> {Ex CredentialIssued, Ex CredentialReceived, Ex ExchangeDone}
         \<and> exch_issueSubmission e \<noteq> NotSubmitted
      then e\<lparr>exch_issueSubmission := Submitted\<rparr> else e)"

definition exch_observed :: "string \<Rightarrow> string \<Rightarrow> exchange \<Rightarrow> exchange \<times> ExchangeTransition option" where
  "exch_observed externalId state e =
     (let e0 = e\<lparr>exch_externalId := Some externalId\<rparr>
      in case isExchangeState (replace_char (CHR ''_'') (CHR ''-'') state) of
           None \<Rightarrow> (e0, None)
         | Some nxt \<Rightarrow>
             (case exch_advance e0 nxt of
                None \<Rightarrow> (settle_submission e0, None)
              | Some (e1, tr) \<Rightarrow> (settle_submission e1, Some tr)))"

definition exch_observe ::
    "env \<Rightarrow> uuid \<Rightarrow> uuid \<Rightarrow> string \<Rightarrow> string \<Rightarrow> uuid option \<Rightarrow> ExchangeTransition option service" where
  "exch_observe E tenantId connectorId externalId state i =
     bindA (reads (\<lambda>s. List.find (\<lambda>e. exch_tenantId e = tenantId \<and> exch_connectorId e = connectorId
              \<and> (if js_truthy i then Some (exch_id e) = i else exch_externalId e = Some externalId))
              (exchanges s))) (\<lambda>row.
       case row of
         None \<Rightarrow> ret None
       | Some e \<Rightarrow>
           if js_truthy (exch_externalId e) \<and> exch_externalId e \<noteq> Some externalId
           then throw (ConflictException ''Exchange backend correlation changed'')
           else bindA (exch_save E (fst (exch_observed externalId state e)))
                  (\<lambda>_. ret (snd (exch_observed externalId state e))))"

section \<open>An exchange only advances\<close>

text \<open>
  The order the states move in: a higher rank, except that a failure does not follow an issued
  credential.
\<close>

definition exchange_forward :: "ExchangeState \<Rightarrow> ExchangeState \<Rightarrow> bool" where
  "exchange_forward frm nxt \<longleftrightarrow> STATE_RANK frm < STATE_RANK nxt
     \<and> (nxt \<in> {ExFailed, Ex ExchangeAbandoned} \<longrightarrow> STATE_RANK frm < 4)"

lemma exch_advance_iff:
  "exch_advance e nxt = Some (e', tr) \<longleftrightarrow>
   exchange_forward (exch_state e) nxt \<and> e' = e\<lparr>exch_state := nxt\<rparr>
   \<and> tr = \<lparr>xt_exchangeId = exch_id e, xt_from = exch_state e, xt_to = nxt\<rparr>"
  by (auto simp: exch_advance_def exchange_forward_def Let_def)

lemma exchange_forward_trans:
  "exchange_forward a b \<Longrightarrow> exchange_forward b c \<Longrightarrow> exchange_forward a c"
  by (auto simp: exchange_forward_def)

lemma settle_submission_fields [simp]:
  "exch_state (settle_submission e) = exch_state e" "exch_id (settle_submission e) = exch_id e"
  "exch_tenantId (settle_submission e) = exch_tenantId e"
  "exch_externalId (settle_submission e) = exch_externalId e"
  "exch_connectorId (settle_submission e) = exch_connectorId e"
  "exch_issueOperationId (settle_submission e) = exch_issueOperationId e"
  by (simp_all add: settle_submission_def)

lemma isExchangeState_value [simp]: "isExchangeState (exchangeState_value st) = Some st"
proof (cases st)
  case (Ex x)
  then show ?thesis
    by (cases x) (simp_all add: isExchangeState_def ExchangeState_values_def CredentialExchangeState_values_def)
qed (simp_all add: isExchangeState_def ExchangeState_values_def CredentialExchangeState_values_def)

lemma isExchangeState_Some: "isExchangeState v = Some st \<Longrightarrow> exchangeState_value st = v"
  by (auto simp: isExchangeState_def dest: find_Some)

section \<open>The history of an exchange\<close>

text \<open>
  What any later row keeps of an earlier one: its identity, a correlation with the backend once
  there is one, a submission once it is confirmed, and the state unless it moved forward.
\<close>

definition exch_later :: "exchange \<Rightarrow> exchange \<Rightarrow> bool" where
  "exch_later r r' \<longleftrightarrow>
     exch_id r' = exch_id r \<and> exch_tenantId r' = exch_tenantId r \<and> exch_connectorId r' = exch_connectorId r
     \<and> (js_truthy (exch_externalId r) \<longrightarrow> exch_externalId r' = exch_externalId r)
     \<and> (exch_state r' = exch_state r \<or> exchange_forward (exch_state r) (exch_state r'))
     \<and> (exch_issueSubmission r = Submitted \<longrightarrow> exch_issueSubmission r' = Submitted)
     \<and> (exch_issueSubmission r \<noteq> NotSubmitted \<longrightarrow> exch_issueSubmission r' \<noteq> NotSubmitted)"

definition exch_history :: "db \<Rightarrow> db \<Rightarrow> bool" where
  "exch_history s s' \<longleftrightarrow>
     (key_table exch_id (exchanges s) \<longrightarrow>
        key_table exch_id (exchanges s') \<and> rows_step exch_later (\<lambda>_. False) exchanges s s')"

lemma exch_later_refl [simp]: "exch_later r r"
  by (simp add: exch_later_def)

interpretation later: table_step exchanges exch_later "\<lambda>_. False"
proof
  fix r r' r'' assume "exch_later r r'" "exch_later r' r''"
  then show "exch_later r r''" by (auto simp: exch_later_def intro: exchange_forward_trans)
qed simp_all

interpretation history: store_preorder exch_history
proof
  fix s t u assume "exch_history s t" "exch_history t u"
  then show "exch_history s u" by (auto simp: exch_history_def intro: later.step_trans)
qed (simp add: exch_history_def later.step_refl)

lemma exch_history_same: "exchanges s' = exchanges s \<Longrightarrow> exch_history s s'"
  by (auto simp: exch_history_def intro!: rows_step_same)

lemma put_exchanges_history:
  "exch_history s (s\<lparr>exchanges := t\<rparr>) \<Longrightarrow> exch_history s (snd (put_exchanges t s))"
  by (auto simp: put_exchanges_def throw_def modifies_def history.step_refl)

lemma exch_save_history:
  assumes "e \<in> set (exchanges s)" and "exch_later e e'"
  shows "exch_history s (snd (exch_save E e' s))"
proof -
  have "exch_history s (s\<lparr>exchanges := save_row exch_id row (exchanges s)\<rparr>)"
    if later: "exch_later e row" for row
  proof -
    from later have id: "exch_id row = exch_id e" by (simp add: exch_later_def)
    have "exch_later r row" if "key_table exch_id (exchanges s)" "r \<in> set (exchanges s)" "exch_id r = exch_id row" for r
      using key_table_unique [OF that(1) that(2) assms(1)] that id later by simp
    then show ?thesis
      using id assms(1) unfolding exch_history_def
      by (auto simp: key_table_save_row intro!: rows_step_overwrite [where r = e and key = exch_id and e = row])
  qed
  moreover have "exch_later e (e'\<lparr>exch_updatedAt := db_now E\<rparr>)"
    using assms(2) by (simp add: exch_later_def)
  ultimately show ?thesis
    using assms(2) unfolding exch_save_def Let_def
    by (auto simp: bindA_ret_snd intro!: put_exchanges_history)
qed

lemma exch_advance_later: "exch_advance e nxt = Some (e', tr) \<Longrightarrow> exch_later e e'"
  by (auto simp: exch_advance_iff exch_later_def)

lemma settle_submission_later: "exch_later e (settle_submission e)"
  by (simp add: exch_later_def settle_submission_def)

lemma exch_observed_later:
  assumes "js_truthy (exch_externalId e) \<Longrightarrow> exch_externalId e = Some externalId"
  shows "exch_later e (fst (exch_observed externalId state e))"
proof -
  let ?e = "e\<lparr>exch_externalId := Some externalId\<rparr>"
  have "exch_later e ?e" using assms by (simp add: exch_later_def)
  moreover have "exch_later ?e (fst (exch_observed externalId state e))"
    using settle_submission_later [of ?e] later.rel_trans [OF exch_advance_later settle_submission_later]
    by (auto simp: exch_observed_def Let_def split: option.splits)
  ultimately show ?thesis by (rule later.rel_trans)
qed

lemma history_exch_observe: "keeps exch_history (exch_observe E t c x st i)"
proof (rule keepsI)
  fix s :: db
  let ?found = "List.find (\<lambda>e. exch_tenantId e = t \<and> exch_connectorId e = c
       \<and> (if js_truthy i then Some (exch_id e) = i else exch_externalId e = Some x)) (exchanges s)"
  show "exch_history s (snd (exch_observe E t c x st i s))"
  proof (cases ?found)
    case (Some e)
    then have e: "e \<in> set (exchanges s)" by (auto dest: find_Some)
    show ?thesis
    proof (cases "js_truthy (exch_externalId e) \<and> exch_externalId e \<noteq> Some x")
      case False
      then have "exch_later e (fst (exch_observed x st e))" by (intro exch_observed_later) blast
      from exch_save_history [OF e this] Some False show ?thesis
        by (auto simp: exch_observe_def bindA_ret_snd)
    qed (simp add: exch_observe_def Some throw_def history.step_refl)
  qed (simp add: exch_observe_def ret_def history.step_refl)
qed

lemma history_exch_markFailed: "keeps exch_history (exch_markFailed E t i)"
proof (rule keepsI)
  fix s :: db
  show "exch_history s (snd (exch_markFailed E t i s))"
  proof (cases "exch_findForTenant t i s")
    case (Some e)
    then have e: "e \<in> set (exchanges s)" by (auto simp: exch_findForTenant_def dest: find_Some)
    show ?thesis
    proof (cases "exch_advance e ExFailed")
      case adv: (Some p)
      from exch_save_history [OF e exch_advance_later, of ExFailed "fst p" "snd p"] adv Some show ?thesis
        by (cases p) (simp add: exch_markFailed_def exch_lock_def bindA_ret_snd)
    qed (simp add: exch_markFailed_def exch_lock_def Some ret_def history.step_refl)
  qed (simp add: exch_markFailed_def exch_lock_def ret_def history.step_refl)
qed

lemma history_exch_setSubmission:
  assumes "st \<noteq> NotSubmitted"
  shows "keeps exch_history (exch_setSubmission E t i st)"
proof (rule keepsI)
  fix s :: db
  let ?P = "\<lambda>e. exch_tenantId e = t \<and> exch_id e = i \<and> exch_issueSubmission e = Submitting"
  let ?f = "\<lambda>e :: exchange. e\<lparr>exch_issueSubmission := st, exch_updatedAt := db_now E\<rparr>"
  have "exch_history s (s\<lparr>exchanges := update_where ?P ?f (exchanges s)\<rparr>)"
    unfolding exch_history_def
    by (auto simp: key_table_update_where exch_later_def assms intro!: rows_step_update_where)
  then show "exch_history s (snd (exch_setSubmission E t i st s))"
    by (simp add: exch_setSubmission_def put_exchanges_history)
qed

text \<open>The writes of the repository, as calls that may arrive in any order; a call that fails is over.\<close>

datatype exchange_call =
    Observe uuid uuid string string "uuid option"
  | MarkFailed uuid uuid
  | Resolve uuid uuid bool

fun exchange_call_run :: "env \<Rightarrow> exchange_call \<Rightarrow> db \<Rightarrow> db" where
  "exchange_call_run E (Observe t c x st i) s = snd (exch_observe E t c x st i s)"
| "exchange_call_run E (MarkFailed t i) s = snd (exch_markFailed E t i s)"
| "exchange_call_run E (Resolve t i confirmed) s =
     snd (exch_setSubmission E t i (if confirmed then Submitted else Uncertain) s)"

lemma exchange_calls_history: "exch_history s (fold (\<lambda>(E, call). exchange_call_run E call) calls s)"
proof (induction calls arbitrary: s)
  case (Cons c calls)
  obtain E call where c: "c = (E, call)" by fastforce
  have "exch_history s (exchange_call_run E call s)"
    using keepsD [OF history_exch_observe] keepsD [OF history_exch_markFailed] keepsD [OF history_exch_setSubmission]
    by (cases call) (simp_all add: prod_eq_iff)
  from history.step_trans [OF this Cons.IH] show ?case by (simp add: c)
qed (simp add: history.step_refl)

text \<open>
  C14 Whatever observations, failures and submission results arrive and in whatever order, an
  exchange keeps its tenant, its connector and its correlation with the backend, its state only
  advances, a confirmed submission stays confirmed, and once a credential was issued no late failure
  turns the exchange into a failed one.
\<close>

theorem exchange_history_monotone:
  assumes "key_table exch_id (exchanges s)" and "e \<in> set (exchanges s)"
  shows "\<exists>e' \<in> set (exchanges (fold (\<lambda>(E, call). exchange_call_run E call) calls s)).
    exch_id e' = exch_id e \<and> exch_tenantId e' = exch_tenantId e \<and> exch_connectorId e' = exch_connectorId e
    \<and> STATE_RANK (exch_state e) \<le> STATE_RANK (exch_state e')
    \<and> (js_truthy (exch_externalId e) \<longrightarrow> exch_externalId e' = exch_externalId e)
    \<and> (exch_issueSubmission e = Submitted \<longrightarrow> exch_issueSubmission e' = Submitted)
    \<and> (exch_state e \<in> {Ex CredentialIssued, Ex CredentialReceived, Ex ExchangeDone}
         \<longrightarrow> exch_state e' \<notin> {ExFailed, Ex ExchangeAbandoned})"
proof -
  let ?s = "fold (\<lambda>(E, call). exchange_call_run E call) calls s"
  have "rows_step exch_later (\<lambda>_. False) exchanges s ?s"
    using exchange_calls_history assms(1) by (auto simp: exch_history_def)
  then obtain e' where "e' \<in> set (exchanges ?s)" and later: "exch_later e e'"
    using assms(2) by (blast dest: rows_step_row)
  then show ?thesis
    by (intro bexI [of _ e']) (auto simp: exch_later_def exchange_forward_def)
qed

definition sample_exchange :: "ExchangeState \<Rightarrow> exchange" where
  "sample_exchange state =
     \<lparr>exch_id = ''e1'', exch_tenantId = ''t1'', exch_connectorId = ''k1'', exch_connectionId = Some ''n1'',
      exch_role = Issuer, exch_protocol = ''didcomm-v1'', exch_format = FmtAnoncreds, exch_state = state,
      exch_externalId = Some ''x1'', exch_issueSubmission = NotSubmitted, exch_issueOperationId = None,
      exch_createdAt = 1, exch_updatedAt = 1\<rparr>"

theorem exchange_history_monotone_witness:
  "\<exists>e' \<in> set (exchanges (exchange_call_run sample_env (MarkFailed ''t1'' ''e1'')
       (empty_db\<lparr>exchanges := [sample_exchange (Ex CredentialIssued)]\<rparr>))).
     exch_id e' = ''e1'' \<and> 4 \<le> STATE_RANK (exch_state e') \<and> exch_state e' \<noteq> ExFailed"
proof -
  let ?e = "sample_exchange (Ex CredentialIssued)"
  have "key_table exch_id (exchanges (empty_db\<lparr>exchanges := [?e]\<rparr>))" by (simp add: key_table_def)
  from exchange_history_monotone [OF this, of ?e "[(sample_env, MarkFailed ''t1'' ''e1'')]"] show ?thesis
    by (auto simp: sample_exchange_def simp del: exchange_call_run.simps)
qed

end
