(* ===== verification/Connection_Service.thy ===== *)
theory Connection_Service
  imports Connection
begin

text \<open>
  \<open>connection.service.ts\<close>: creating a connection through the tenant's connector, reconciling a row
  with the backend, deletion, the lists, and the writes the protocol worker uses.

  The connector adapter and its registry are parameters: \<open>resolve\<close> gives the adapter for a tenant
  and an optional connector, and the adapter's calls give a result or throw. Every adapter call
  the service makes is one application of the corresponding field.
\<close>

section \<open>The connection port\<close>

record InvitationOptions =
  io_alias :: "string option"
  io_label :: "string option"
  io_goalCode :: "string option"
  io_multiUse :: "bool option"

record Invitation =
  inv_invitationId :: string
  inv_invitationUrl :: string
  inv_connectionId :: "string option"

record AdapterConnection =
  adc_id :: string
  adc_state :: AgentConnectionState
  adc_protocol :: "string option"
  adc_theirLabel :: "string option"
  adc_theirDid :: "string option"
  adc_invitationId :: "string option"

record ConnectionPort =
  port_createInvitation :: "InvitationOptions \<Rightarrow> err + Invitation"
  port_acceptInvitation :: "string \<Rightarrow> err + AdapterConnection"
  port_getById :: "string \<Rightarrow> err + AdapterConnection"
  port_list :: "string \<Rightarrow> err + AdapterConnection list"
  port_deleteById :: "string \<Rightarrow> err + unit"

record Connector =
  ktr_id :: uuid
  ktr_connectorType :: ConnectorType

type_synonym registry = "uuid \<Rightarrow> uuid option \<Rightarrow> err + (ConnectionPort \<times> Connector)"

fun mapAdapterConnectionState :: "AgentConnectionState \<Rightarrow> ConnectionState" where
  "mapAdapterConnectionState AgentInvitation = ConnInvited"
| "mapAdapterConnectionState AgentRequest = ConnRequested"
| "mapAdapterConnectionState AgentResponse = ConnResponded"
| "mapAdapterConnectionState AgentActive = ConnActive"
| "mapAdapterConnectionState AgentCompleted = ConnCompleted"
| "mapAdapterConnectionState AgentError = ConnAbandoned"

section \<open>Metadata\<close>

type_synonym metadata = "(string \<times> json) list"

definition meta_delete :: "string \<Rightarrow> metadata \<Rightarrow> metadata" where
  "meta_delete k m = AList.delete k m"

definition meta_set :: "string \<Rightarrow> json \<Rightarrow> metadata \<Rightarrow> metadata" where
  "meta_set k v m = AList.update k v m"

definition sanitizeCallerMetadata :: "metadata \<Rightarrow> metadata" where
  "sanitizeCallerMetadata m = meta_delete ''multiUse'' (meta_delete ''invitationUrl'' (meta_delete ''invitationId'' m))"

definition string_field :: "metadata \<Rightarrow> string \<Rightarrow> string option" where
  "string_field m k = (case map_of m k of Some (JStr x) \<Rightarrow> Some x | _ \<Rightarrow> None)"

definition extractInvitationOptions :: "metadata \<Rightarrow> InvitationOptions" where
  "extractInvitationOptions m =
     \<lparr>io_alias = string_field m ''alias'', io_label = string_field m ''label'',
      io_goalCode = string_field m ''goalCode'',
      io_multiUse = (case map_of m ''multiUse'' of Some (JBool b) \<Rightarrow> Some b | _ \<Rightarrow> None)\<rparr>"

text \<open>JavaScript truthiness of a metadata value.\<close>

definition js_truthy_json :: "json option \<Rightarrow> bool" where
  "js_truthy_json v =
     (case v of None \<Rightarrow> False | Some JNull \<Rightarrow> False | Some (JBool b) \<Rightarrow> b | Some (JNum n) \<Rightarrow> n \<noteq> 0
      | Some (JStr x) \<Rightarrow> x \<noteq> '''' | Some _ \<Rightarrow> True)"

section \<open>Creation\<close>

record CreateConnectionDto =
  dto_protocol :: ConnectionProtocol
  dto_invitationUrl :: "string option"
  dto_metadata :: metadata
  dto_body :: json

definition connection_not_found :: "uuid \<Rightarrow> err" where
  "connection_not_found i = NotFoundException (''Connection '' @ [CHR 0x27] @ i @ [CHR 0x27] @ '' was not found.'')"

definition applyInvitationResult :: "env \<Rightarrow> uuid \<Rightarrow> Invitation \<Rightarrow> bool option \<Rightarrow> connection service" where
  "applyInvitationResult E connectionId invitation multiUse =
     bindA (reads (conn_findById connectionId)) (\<lambda>row.
     bindA (found (connection_not_found connectionId) row) (\<lambda>c.
       conn_save E (c\<lparr>
         conn_externalConnectionId :=
           (if js_truthy (inv_connectionId invitation) then inv_connectionId invitation
            else conn_externalConnectionId c),
         conn_metadata :=
           meta_set ''multiUse'' (JBool (multiUse = Some True))
             (meta_set ''invitationId'' (JStr (inv_invitationId invitation))
               (meta_set ''invitationUrl'' (JStr (inv_invitationUrl invitation)) (conn_metadata c)))\<rparr>)))"

definition createInvitation ::
    "env \<Rightarrow> ConnectionPort \<Rightarrow> connection \<Rightarrow> CreateConnectionDto \<Rightarrow> json service" where
  "createInvitation E port created dto =
     (let opts = extractInvitationOptions (dto_metadata dto)
      in bindA (lift (port_createInvitation port opts)) (\<lambda>invitation.
         bindA (applyInvitationResult E (conn_id created) invitation (io_multiUse opts)) (\<lambda>_.
           ret (JObj [(''connection_id'', JStr (conn_id created)),
                      (''invitation_url'', JStr (inv_invitationUrl invitation))]))))"

definition applyRemoteConnectionState :: "env \<Rightarrow> connection \<Rightarrow> AdapterConnection \<Rightarrow> connection service" where
  "applyRemoteConnectionState E c remote =
     (let state = mapAdapterConnectionState (adc_state remote)
      in if conn_state c = state \<and> conn_theirLabel c = adc_theirLabel remote
            \<and> conn_theirDid c = adc_theirDid remote \<and> conn_externalConnectionId c = Some (adc_id remote)
         then ret c
         else conn_save E (c\<lparr>conn_state := state,
                conn_theirLabel := undefined_keeps (adc_theirLabel remote) (conn_theirLabel c),
                conn_theirDid := undefined_keeps (adc_theirDid remote) (conn_theirDid c),
                conn_externalConnectionId := Some (adc_id remote)\<rparr>))"

definition acceptInvitation :: "env \<Rightarrow> ConnectionPort \<Rightarrow> connection \<Rightarrow> string \<Rightarrow> json service" where
  "acceptInvitation E port created invitationUrl =
     bindA (lift (port_acceptInvitation port invitationUrl)) (\<lambda>remote.
     bindA (applyRemoteConnectionState E created remote) (\<lambda>updated.
       ret (JObj [(''connection_id'', JStr (conn_id updated)),
                  (''state'', JStr (connectionState_value (conn_state updated)))])))"

definition markAbandoned :: "env \<Rightarrow> uuid \<Rightarrow> unit service" where
  "markAbandoned E connectionId =
     bindA (reads (conn_findById connectionId)) (\<lambda>row.
       case row of
         None \<Rightarrow> ret ()
       | Some c \<Rightarrow> bindA (conn_save E (c\<lparr>conn_state := ConnAbandoned\<rparr>)) (\<lambda>_. ret ()))"

text \<open>The text of an error: exceptions of this model carry theirs; a database error has the driver's.\<close>

definition error_message :: "err \<Rightarrow> string" where
  "error_message e =
     (case e of
        NotFoundException m \<Rightarrow> m | ConflictException m \<Rightarrow> m | BadRequestException m \<Rightarrow> m
      | ForbiddenException m \<Rightarrow> m | BadGatewayException m \<Rightarrow> m | ServiceUnavailableException m \<Rightarrow> m
      | UnprocessableEntityException m \<Rightarrow> m | TenantNotActiveException _ _ \<Rightarrow> ''Tenant Not Active Exception''
      | AuthenticationRequiredException _ _ \<Rightarrow> ''Authentication Required Exception''
      | InsufficientScopeException _ _ _ \<Rightarrow> ''Insufficient Scope Exception'' | BadRequestBody _ m \<Rightarrow> m
      | ThrottlerException \<Rightarrow> ''ThrottlerException: Too Many Requests''
      | TenantAccessDeniedException _ \<Rightarrow> ''Tenant Access Denied Exception'' | QueryFailed c k \<Rightarrow> c @ k | EnqueueFailed m \<Rightarrow> m
      | AdapterErr a \<Rightarrow> adapter_message a | JsError m \<Rightarrow> m)"

text \<open>
  A method called outside a transaction reads what is committed, which is the current store.
\<close>

definition transitionState_now ::
    "env \<Rightarrow> uuid \<Rightarrow> OperationState \<Rightarrow> json option \<Rightarrow> operation service" where
  "transitionState_now E i state result = (\<lambda>s. transitionState E s i state result None s)"

definition connection_create ::
    "env \<Rightarrow> registry \<Rightarrow> uuid \<Rightarrow> uuid \<Rightarrow> uuid \<Rightarrow> CreateConnectionDto \<Rightarrow> AuthContext option \<Rightarrow> operation service" where
  "connection_create E resolve connId opId tenantId dto auth =
     bindA (lift (assertTenantAccess auth tenantId)) (\<lambda>_.
     bindA (lift (resolve tenantId None)) (\<lambda>(port, connector).
     bindA (conn_insert
              \<lparr>conn_id = connId, conn_tenantId = tenantId, conn_externalConnectionId = None,
               conn_theirLabel = None, conn_theirDid = None,
               conn_state = (if js_truthy (dto_invitationUrl dto) then ConnRequested else ConnInvited),
               conn_connectorType = ktr_connectorType connector, conn_connectorId = Some (ktr_id connector),
               conn_protocol = dto_protocol dto, conn_metadata = sanitizeCallerMetadata (dto_metadata dto),
               conn_createdAt = db_now E, conn_updatedAt = db_now E\<rparr>) (\<lambda>created.
     bindA (domainAudit_emit E (conn_tenantId created) AuditCreate ''connection'' (conn_id created) []) (\<lambda>_.
     bindA (createOperation E opId
              \<lparr>in_tenantId = tenantId, in_type = CONNECTION_CREATE,
               in_request = \<lparr>req_method = ''POST'',
                 req_path = ''/api/v1/tenants/'' @ tenantId @ ''/connections'', req_body = dto_body dto\<rparr>,
               in_batchId = None, in_externalId = None, in_exchangeId = None\<rparr>) (\<lambda>op.
     bindA (transitionState_now E (op_id op) OpProcessing None) (\<lambda>_.
       catchA
         (bindA (if js_truthy (dto_invitationUrl dto)
                 then acceptInvitation E port created (the (dto_invitationUrl dto))
                 else createInvitation E port created dto) (\<lambda>result.
            transitionState_now E (op_id op) OpCompleted (Some result)))
         (\<lambda>e. bindA (markAbandoned E (conn_id created)) (\<lambda>_.
            transitionState_now E (op_id op) OpFailed
              (Some (JObj [(''code'', JStr ''CONNECTION_CREATE_FAILED''), (''message'', JStr (error_message e))]))))))))))"

section \<open>Reconciliation\<close>

definition resolveRemoteIdentity ::
    "registry \<Rightarrow> uuid \<Rightarrow> uuid \<Rightarrow> uuid option \<Rightarrow> (connection \<times> AdapterConnection \<times> uuid) service" where
  "resolveRemoteIdentity resolve tenantId i selectedConnectorId =
     bindA (reads (conn_findByIdForTenant tenantId i)) (\<lambda>row.
     bindA (found (NotFoundException ''Connection not found'') row) (\<lambda>c.
     bindA (require (\<not> (js_truthy_json (map_of (conn_metadata c) ''multiUse'')
                        \<and> \<not> js_truthy (conn_externalConnectionId c)))
              (BadRequestException ''Select a holder connection, not a reusable invitation'')) (\<lambda>_.
     bindA (require (\<not> (js_truthy (conn_connectorId c) \<and> js_truthy selectedConnectorId
                        \<and> conn_connectorId c \<noteq> selectedConnectorId))
              (BadRequestException ''Connection and definition belong to different connectors'')) (\<lambda>_.
     let chosen = (case conn_connectorId c of Some k \<Rightarrow> Some k | None \<Rightarrow> selectedConnectorId) in
     bindA (require (js_truthy chosen)
              (ConflictException ''Legacy connection requires an explicit connector for verified invitation reconciliation'')) (\<lambda>_.
     bindA (lift (resolve tenantId chosen)) (\<lambda>(port, _).
     bindA (if js_truthy (conn_externalConnectionId c) \<and> js_truthy (conn_connectorId c)
            then bindA (lift (case port_getById port (the (conn_externalConnectionId c)) of
                     Inl (AdapterErr (BackendNotFound m)) \<Rightarrow> Inl (ConflictException ''Backend connection was not found'')
                   | r \<Rightarrow> r)) (\<lambda>remote.
                 bindA (require (Some (adc_id remote) = conn_externalConnectionId c)
                          (ConflictException ''Backend returned a different connection'')) (\<lambda>_. ret remote))
            else (case map_of (conn_metadata c) ''invitationId'' of
                    Some (JStr invitationId) \<Rightarrow>
                      bindA (require (invitationId \<noteq> '''')
                               (ConflictException ''Connection has no verifiable invitation correlation'')) (\<lambda>_.
                      bindA (lift (port_list port invitationId)) (\<lambda>matches.
                      bindA (require (list_all (\<lambda>m. adc_invitationId m = Some invitationId) matches)
                               (ConflictException ''Backend returned a different invitation'')) (\<lambda>_.
                      bindA (require (length matches = 1)
                               (ConflictException (if matches \<noteq> [] then ''Invitation matches multiple connections''
                                  else ''Holder connection is not yet visible''))) (\<lambda>_.
                      bindA (require (\<not> js_truthy (conn_externalConnectionId c)
                                      \<or> Some (adc_id (hd matches)) = conn_externalConnectionId c)
                               (ConflictException ''Invitation connection does not match the saved connection'')) (\<lambda>_.
                        ret (hd matches))))))
                  | _ \<Rightarrow> throw (ConflictException ''Connection has no verifiable invitation correlation'')))
       (\<lambda>remote.
     bindA (require (adc_protocol remote = Some ''didcomm-v1'')
              (ConflictException ''A completed DIDComm v1 handshake is required'')) (\<lambda>_.
       ret (c, remote, the chosen)))))))))"

definition to_remote :: "AdapterConnection \<Rightarrow> ConnectionState \<Rightarrow> remote_connection" where
  "to_remote remote state =
     \<lparr>rem_id = adc_id remote, rem_state = state, rem_theirLabel = adc_theirLabel remote,
      rem_theirDid = adc_theirDid remote\<rparr>"

definition connection_reconcile :: "env \<Rightarrow> registry \<Rightarrow> uuid \<Rightarrow> uuid \<Rightarrow> uuid option \<Rightarrow> connection service" where
  "connection_reconcile E resolve tenantId i selectedConnectorId =
     bindA (resolveRemoteIdentity resolve tenantId i selectedConnectorId) (\<lambda>(c, remote, connectorId).
     bindA (require (adc_state remote \<in> {AgentActive, AgentCompleted})
              (ConflictException ''A completed DIDComm v1 handshake is required'')) (\<lambda>_.
     let state = mapAdapterConnectionState (adc_state remote) in
     bindA (conn_reconcile E tenantId i connectorId (to_remote remote state) (connectionStatesBelow state)
              (sendInTransaction E (WebhookDispatch tenantId ''connection.established'' (adc_id remote) (js_now E))))
       (\<lambda>updated.
     bindA (found (ConflictException ''Connection binding changed during reconciliation'') updated) (\<lambda>(saved, established).
     bindA (whenA established (eventEmitter_emit ''connection.established'' tenantId (adc_id remote))) (\<lambda>_.
     bindA (domainAudit_emit E tenantId AuditUpdate ''connection'' (conn_id c) []) (\<lambda>_.
       ret saved))))))"

definition resolveForIssuance :: "env \<Rightarrow> registry \<Rightarrow> uuid \<Rightarrow> uuid \<Rightarrow> uuid \<Rightarrow> connection service" where
  "resolveForIssuance E resolve tenantId i connectorId =
     bindA (connection_reconcile E resolve tenantId i (Some connectorId)) (\<lambda>c.
     bindA (require (js_truthy (conn_externalConnectionId c) \<and> conn_state c \<in> {ConnActive, ConnCompleted})
              (ConflictException ''Connection handshake is not complete'')) (\<lambda>_.
       ret c))"

definition resolveIdentity :: "env \<Rightarrow> registry \<Rightarrow> uuid \<Rightarrow> uuid \<Rightarrow> uuid \<Rightarrow> connection service" where
  "resolveIdentity E resolve tenantId i connectorId =
     bindA (resolveRemoteIdentity resolve tenantId i (Some connectorId)) (\<lambda>(c, remote, _).
       if js_truthy (conn_connectorId c) \<and> js_truthy (conn_externalConnectionId c) then ret c
       else bindA (conn_reconcile E tenantId i connectorId (to_remote remote (conn_state c)) [] (ret ())) (\<lambda>adopted.
            bindA (found (ConflictException ''Connection binding changed during reconciliation'') adopted)
              (\<lambda>(saved, _). ret saved)))"

section \<open>Reads and deletion\<close>

definition connection_findById :: "uuid \<Rightarrow> uuid \<Rightarrow> AuthContext option \<Rightarrow> connection service" where
  "connection_findById tenantId i auth =
     bindA (reads (conn_findById i)) (\<lambda>row.
       case row of
         None \<Rightarrow> throw (connection_not_found i)
       | Some c \<Rightarrow>
           if conn_tenantId c \<noteq> tenantId then throw (connection_not_found i)
           else if assertResourceTenantOrNotFound auth (conn_tenantId c) '''' \<noteq> Inr ()
           then throw (connection_not_found i) else ret c)"

record PaginatedConnections =
  pgc_data :: "connection list"
  pgc_next_cursor :: "string option"
  pgc_has_more :: bool

definition connection_findPage ::
    "cursor_lib \<Rightarrow> uuid \<Rightarrow> nat option \<Rightarrow> string option \<Rightarrow> ConnectionState option \<Rightarrow> ConnectionProtocol option \<Rightarrow>
     PaginatedConnections service" where
  "connection_findPage L tenantId limit cursor state protocol =
     bindA (if js_truthy cursor then decode_query_cursor L cursor else ret None) (\<lambda>cur.
     bindA (\<lambda>s. lift (conn_findPageForTenant L tenantId (case limit of None \<Rightarrow> 20 | Some n \<Rightarrow> n) cur state protocol s) s)
       (\<lambda>page.
       ret \<lparr>pgc_data = cpage_items page,
            pgc_next_cursor = map_option (encodeCursor L) (cpage_nextCursor page),
            pgc_has_more = cpage_hasMore page\<rparr>))"

definition connection_delete :: "env \<Rightarrow> registry \<Rightarrow> uuid \<Rightarrow> uuid \<Rightarrow> AuthContext option \<Rightarrow> unit service" where
  "connection_delete E resolve tenantId i auth =
     bindA (connection_findById tenantId i auth) (\<lambda>c.
     bindA (if js_truthy (conn_externalConnectionId c)
            then bindA (lift (resolve tenantId (if js_truthy (conn_connectorId c) then conn_connectorId c else None)))
                   (\<lambda>(port, _). lift (port_deleteById port (the (conn_externalConnectionId c))))
            else ret ()) (\<lambda>_.
     bindA (conn_delete i) (\<lambda>_.
       domainAudit_emit E (conn_tenantId c) AuditDelete ''connection'' i [])))"

section \<open>Writes of the protocol worker\<close>

definition createFromInvitationTemplate ::
    "env \<Rightarrow> uuid \<Rightarrow> connection \<Rightarrow> string \<Rightarrow> ConnectionState \<Rightarrow> string option \<Rightarrow> connection service" where
  "createFromInvitationTemplate E newId template externalId state theirDid =
     bindA (conn_insert
              \<lparr>conn_id = newId, conn_tenantId = conn_tenantId template,
               conn_externalConnectionId = Some externalId, conn_theirLabel = None, conn_theirDid = theirDid,
               conn_state = state, conn_connectorType = conn_connectorType template,
               conn_connectorId = conn_connectorId template, conn_protocol = conn_protocol template,
               conn_metadata = meta_delete ''invitationId'' (meta_delete ''invitationUrl'' (conn_metadata template)),
               conn_createdAt = db_now E, conn_updatedAt = db_now E\<rparr>) (\<lambda>created.
     bindA (domainAudit_emit E (conn_tenantId created) AuditCreate ''connection'' (conn_id created) []) (\<lambda>_.
       ret created))"

definition applyProtocolStateIfForward ::
    "env \<Rightarrow> connection \<Rightarrow> ConnectionState \<Rightarrow> ConnectionState list \<Rightarrow> connection option service" where
  "applyProtocolStateIfForward E c state fromStates =
     bindA (conn_updateStateIfForward E (conn_id c) (conn_tenantId c) state fromStates) (\<lambda>won.
       if \<not> won then ret None
       else bindA (domainAudit_emit E (conn_tenantId c) AuditUpdate ''connection'' (conn_id c) []) (\<lambda>_.
              ret (Some (c\<lparr>conn_state := state\<rparr>))))"

end
