(* ===== verification/Tenant_Steps.thy ===== *)
theory Tenant_Steps
  imports Credential_Exchange Connection_Service
begin

text \<open>
  The safety contract of every handler that acts for a tenant, as one preorder on stores: rows keep
  their identity and their place, rows of other tenants are untouched, states of operations,
  credentials, connections and exchanges only move forward, and rows and jobs are only added, for
  that tenant. The lemmas below discharge it for each repository write; a handler built from them keeps
  it by the composition rules of \<open>store_preorder\<close>.
\<close>

section \<open>Rows\<close>

definition op_rel :: "uuid \<Rightarrow> operation \<Rightarrow> operation \<Rightarrow> bool" where
  "op_rel T r r' \<longleftrightarrow>
     op_id r' = op_id r \<and> op_tenantId r' = op_tenantId r \<and> op_type r' = op_type r
     \<and> op_createdAt r' = op_createdAt r \<and> (op_tenantId r \<noteq> T \<longrightarrow> r' = r)
     \<and> (op_state r' = op_state r \<or> isForwardOperationTransition (op_state r) (op_state r'))"

definition credential_moves :: "(CredentialState \<times> CredentialState) set" where
  "credential_moves = {(a, b). isForwardCredentialTransition a b}"

definition cred_rel :: "uuid \<Rightarrow> credential \<Rightarrow> credential \<Rightarrow> bool" where
  "cred_rel T r r' \<longleftrightarrow>
     cred_id r' = cred_id r \<and> cred_tenantId r' = cred_tenantId r \<and> cred_operationId r' = cred_operationId r
     \<and> (cred_tenantId r \<noteq> T \<longrightarrow> r' = r) \<and> (cred_state r, cred_state r') \<in> credential_moves\<^sup>*"

definition conn_rel :: "uuid \<Rightarrow> connection \<Rightarrow> connection \<Rightarrow> bool" where
  "conn_rel T r r' \<longleftrightarrow>
     conn_id r' = conn_id r \<and> conn_tenantId r' = conn_tenantId r \<and> (conn_tenantId r \<noteq> T \<longrightarrow> r' = r)
     \<and> (conn_state r' = conn_state r \<or> isForwardConnectionTransition (conn_state r) (conn_state r'))"

definition exch_rel :: "uuid \<Rightarrow> exchange \<Rightarrow> exchange \<Rightarrow> bool" where
  "exch_rel T r r' \<longleftrightarrow>
     exch_id r' = exch_id r \<and> exch_tenantId r' = exch_tenantId r \<and> exch_connectorId r' = exch_connectorId r
     \<and> (exch_tenantId r \<noteq> T \<longrightarrow> r' = r)
     \<and> (exch_state r' = exch_state r \<or> exchange_forward (exch_state r) (exch_state r'))"

lemma rel_refl [simp]: "op_rel T o1 o1" "cred_rel T c c" "conn_rel T n n" "exch_rel T x x"
  by (simp_all add: op_rel_def cred_rel_def conn_rel_def exch_rel_def)

interpretation op_table: table_step operations "op_rel T" "\<lambda>r. op_tenantId r = T" for T
proof
  fix r r' r'' assume "op_rel T r r'" "op_rel T r' r''"
  then show "op_rel T r r''" by (auto simp: op_rel_def isForwardOperationTransition_def)
qed (auto simp: op_rel_def)

interpretation cred_table: table_step credentials "cred_rel T" "\<lambda>r. cred_tenantId r = T" for T
proof
  fix r r' r'' assume a: "cred_rel T r r'" "cred_rel T r' r''"
  then have "(cred_state r, cred_state r'') \<in> credential_moves\<^sup>*"
    by (auto simp: cred_rel_def intro: rtrancl_trans)
  with a show "cred_rel T r r''" by (auto simp: cred_rel_def)
qed (auto simp: cred_rel_def)

interpretation conn_table: table_step connections "conn_rel T" "\<lambda>r. conn_tenantId r = T" for T
proof
  fix r r' r'' assume "conn_rel T r r'" "conn_rel T r' r''"
  then show "conn_rel T r r''" by (auto simp: conn_rel_def isForwardConnectionTransition_def)
qed (auto simp: conn_rel_def)

interpretation exch_table: table_step exchanges "exch_rel T" "\<lambda>r. exch_tenantId r = T" for T
proof
  fix r r' r'' assume a: "exch_rel T r r'" "exch_rel T r' r''"
  then show "exch_rel T r r''" by (auto simp: exch_rel_def intro: exchange_forward_trans)
qed (auto simp: exch_rel_def)

section \<open>Stores\<close>

definition ids_unique :: "db \<Rightarrow> bool" where
  "ids_unique s \<longleftrightarrow> key_table op_id (operations s) \<and> key_table cred_id (credentials s)
     \<and> key_table conn_id (connections s) \<and> key_table exch_id (exchanges s)"

fun job_tenant :: "job \<Rightarrow> uuid" where
  "job_tenant (WebhookDispatch t _ _ _) = t"
| "job_tenant (AuditWrite t _ _ _ _) = t"
| "job_tenant (TenantStatusChange t _ _) = t"
| "job_tenant (TenantConfigChange t _) = t"

definition jobs_added :: "uuid \<Rightarrow> db \<Rightarrow> db \<Rightarrow> bool" where
  "jobs_added T s s' \<longleftrightarrow> (\<exists>new. jobs s' = jobs s @ new \<and> (\<forall>j \<in> set new. job_tenant j = T))"

definition tenant_step :: "uuid \<Rightarrow> db \<Rightarrow> db \<Rightarrow> bool" where
  "tenant_step T s s' \<longleftrightarrow> (ids_unique s \<longrightarrow>
     ids_unique s'
     \<and> rows_step (op_rel T) (\<lambda>r. op_tenantId r = T) operations s s' \<and> rows_step (cred_rel T) (\<lambda>r. cred_tenantId r = T) credentials s s'
     \<and> rows_step (conn_rel T) (\<lambda>r. conn_tenantId r = T) connections s s' \<and> rows_step (exch_rel T) (\<lambda>r. exch_tenantId r = T) exchanges s s'
     \<and> tenants s' = tenants s \<and> jobs_added T s s')"

interpretation tenant: store_preorder "tenant_step T" for T
proof
  fix s show "tenant_step T s s"
    by (simp add: tenant_step_def jobs_added_def op_table.step_refl cred_table.step_refl
          conn_table.step_refl exch_table.step_refl)
next
  fix s t u assume a: "tenant_step T s t" "tenant_step T t u"
  have "jobs_added T s u" if "jobs_added T s t" "jobs_added T t u"
    using that by (auto simp: jobs_added_def)
  with a show "tenant_step T s u"
    by (auto simp: tenant_step_def intro: op_table.step_trans cred_table.step_trans
          conn_table.step_trans exch_table.step_trans)
qed

lemma tenant_stepI:
  assumes "ids_unique s \<Longrightarrow> ids_unique s'"
    and "ids_unique s \<Longrightarrow> rows_step (op_rel T) (\<lambda>r. op_tenantId r = T) operations s s'"
    and "ids_unique s \<Longrightarrow> rows_step (cred_rel T) (\<lambda>r. cred_tenantId r = T) credentials s s'"
    and "ids_unique s \<Longrightarrow> rows_step (conn_rel T) (\<lambda>r. conn_tenantId r = T) connections s s'"
    and "ids_unique s \<Longrightarrow> rows_step (exch_rel T) (\<lambda>r. exch_tenantId r = T) exchanges s s'"
    and "tenants s' = tenants s" and "jobs_added T s s'"
  shows "tenant_step T s s'"
  using assms by (simp add: tenant_step_def)

text \<open>A step that changes one table only.\<close>

lemma jobs_added_same: "jobs s' = jobs s \<Longrightarrow> jobs_added T s s'"
  by (simp add: jobs_added_def)

lemma tenant_step_operations:
  assumes "ids_unique s \<Longrightarrow> key_table op_id t"
    and "ids_unique s \<Longrightarrow> rows_step (op_rel T) (\<lambda>r. op_tenantId r = T) operations s (s\<lparr>operations := t\<rparr>)"
  shows "tenant_step T s (s\<lparr>operations := t\<rparr>)"
  by (rule tenant_stepI) (use assms in \<open>auto simp: ids_unique_def rows_step_def jobs_added_def\<close>)

lemma tenant_step_credentials:
  assumes "ids_unique s \<Longrightarrow> key_table cred_id t"
    and "ids_unique s \<Longrightarrow> rows_step (cred_rel T) (\<lambda>r. cred_tenantId r = T) credentials s (s\<lparr>credentials := t\<rparr>)"
  shows "tenant_step T s (s\<lparr>credentials := t\<rparr>)"
  by (rule tenant_stepI) (use assms in \<open>auto simp: ids_unique_def rows_step_def jobs_added_def\<close>)

lemma tenant_step_connections:
  assumes "ids_unique s \<Longrightarrow> key_table conn_id t"
    and "ids_unique s \<Longrightarrow> rows_step (conn_rel T) (\<lambda>r. conn_tenantId r = T) connections s (s\<lparr>connections := t\<rparr>)"
  shows "tenant_step T s (s\<lparr>connections := t\<rparr>)"
  by (rule tenant_stepI) (use assms in \<open>auto simp: ids_unique_def rows_step_def jobs_added_def\<close>)

lemma tenant_step_exchanges:
  assumes "ids_unique s \<Longrightarrow> key_table exch_id t"
    and "ids_unique s \<Longrightarrow> rows_step (exch_rel T) (\<lambda>r. exch_tenantId r = T) exchanges s (s\<lparr>exchanges := t\<rparr>)"
  shows "tenant_step T s (s\<lparr>exchanges := t\<rparr>)"
  by (rule tenant_stepI) (use assms in \<open>auto simp: ids_unique_def rows_step_def jobs_added_def\<close>)

lemma put_operations_step:
  "tenant_step T s (s\<lparr>operations := t\<rparr>) \<Longrightarrow> tenant_step T s (snd (put_operations t s))"
  by (auto simp: put_operations_def throw_def modifies_def tenant.step_refl)

lemma put_credentials_step:
  "tenant_step T s (s\<lparr>credentials := t\<rparr>) \<Longrightarrow> tenant_step T s (snd (put_credentials t s))"
  by (auto simp: put_credentials_def throw_def modifies_def tenant.step_refl)

lemma put_connections_step:
  "tenant_step T s (s\<lparr>connections := t\<rparr>) \<Longrightarrow> tenant_step T s (snd (put_connections t s))"
  by (auto simp: put_connections_def throw_def modifies_def tenant.step_refl)

lemma put_exchanges_step:
  "tenant_step T s (s\<lparr>exchanges := t\<rparr>) \<Longrightarrow> tenant_step T s (snd (put_exchanges t s))"
  by (auto simp: put_exchanges_def throw_def modifies_def tenant.step_refl)

section \<open>Writes\<close>

lemma keeps_sendInTransaction [keeps_intros]:
  "job_tenant j = T \<Longrightarrow> keeps (tenant_step T) (sendInTransaction E j)"
  by (rule keepsI)
     (auto simp: sendInTransaction_def modifies_def throw_def tenant.step_refl ids_unique_def rows_step_def
        jobs_added_def intro!: tenant_stepI)

lemma keeps_domainAudit_emit [keeps_intros]: "keeps (tenant_step T) (domainAudit_emit E T a rt ri m)"
  unfolding domainAudit_emit_def
  by (intro tenant.keeps_catchA keeps_sendInTransaction tenant.keeps_ret) simp

lemma keeps_events [keeps_intros]: "keeps (tenant_step T) (eventEmitter_emit n t x)"
  unfolding eventEmitter_emit_def
  by (rule tenant.keeps_modifies) (auto simp: ids_unique_def rows_step_def jobs_added_def intro!: tenant_stepI)

lemma keeps_recordTerminalOutcome [keeps_intros]: "keeps (tenant_step T) (recordTerminalOutcome ty st)"
  unfolding recordTerminalOutcome_def
  by (intro keeps_if tenant.keeps_ret tenant.keeps_modifies)
     (auto simp: ids_unique_def rows_step_def jobs_added_def intro!: tenant_stepI)

lemma keeps_to_timestamp [keeps_intros]: "keeps (tenant_step T) (to_timestamp d)"
  unfolding to_timestamp_def by (intro keeps_option tenant.keeps_throw tenant.keeps_ret)

lemma keeps_tenants_findById [keeps_intros]: "keeps (tenant_step T) (tenants_findById t)"
  by (rule keepsI) (simp add: tenant.step_refl)

lemma operations_update_step:
  assumes "\<And>r. r \<in> set (operations s) \<Longrightarrow> P r \<Longrightarrow> op_rel T r (f r)" and "\<And>r. op_id (f r) = op_id r"
  shows "tenant_step T s (s\<lparr>operations := update_where P f (operations s)\<rparr>)"
  by (rule tenant_step_operations)
     (auto simp: ids_unique_def key_table_update_where assms intro!: rows_step_update_where)

lemma credentials_update_step:
  assumes "\<And>r. r \<in> set (credentials s) \<Longrightarrow> P r \<Longrightarrow> cred_rel T r (f r)" and "\<And>r. cred_id (f r) = cred_id r"
  shows "tenant_step T s (s\<lparr>credentials := update_where P f (credentials s)\<rparr>)"
  by (rule tenant_step_credentials)
     (auto simp: ids_unique_def key_table_update_where assms intro!: rows_step_update_where)

lemma connections_update_step:
  assumes "\<And>r. r \<in> set (connections s) \<Longrightarrow> P r \<Longrightarrow> conn_rel T r (f r)" and "\<And>r. conn_id (f r) = conn_id r"
  shows "tenant_step T s (s\<lparr>connections := update_where P f (connections s)\<rparr>)"
  by (rule tenant_step_connections)
     (auto simp: ids_unique_def key_table_update_where assms intro!: rows_step_update_where)

lemma exchanges_update_step:
  assumes "\<And>r. r \<in> set (exchanges s) \<Longrightarrow> P r \<Longrightarrow> exch_rel T r (f r)" and "\<And>r. exch_id (f r) = exch_id r"
  shows "tenant_step T s (s\<lparr>exchanges := update_where P f (exchanges s)\<rparr>)"
  by (rule tenant_step_exchanges)
     (auto simp: ids_unique_def key_table_update_where assms intro!: rows_step_update_where)

lemma keeps_op_transitionIfForward [keeps_intros]:
  assumes "\<And>st. st \<in> set fromStates \<Longrightarrow> isForwardOperationTransition st (pat_state patch)"
  shows "keeps (tenant_step T) (op_transitionIfForward E i T fromStates patch)"
  unfolding op_transitionIfForward_def
  by (rule tenant.keeps_bindA [OF keeps_to_timestamp], rule keepsI, unfold Let_def bindA_ret_snd,
      intro put_operations_step operations_update_step)
     (auto simp: op_rel_def apply_patch_def assms)

lemma keeps_op_claimBatchSettlement [keeps_intros]:
  assumes "isForwardOperationTransition OpProcessing state"
  shows "keeps (tenant_step T) (op_claimBatchSettlement E i T state)"
  unfolding op_claimBatchSettlement_def
  by (rule keepsI, unfold Let_def bindA_ret_snd, intro put_operations_step operations_update_step)
     (use assms in \<open>auto simp: op_rel_def\<close>)

lemma keeps_op_insert [keeps_intros]:
  assumes "op_tenantId op = T"
  shows "keeps (tenant_step T) (op_insert op)"
proof (rule keepsI)
  fix s
  have "key_table op_id (operations s @ [op])" if "op_findById (op_id op) s = None" "ids_unique s"
    using that by (auto simp: ids_unique_def key_table_def op_findById_def find_None)
  then show "tenant_step T s (snd (op_insert op s))"
    unfolding op_insert_def
    by (auto simp: tenant.step_refl bindA_ret_snd assms
          intro!: put_operations_step tenant_step_operations rows_step_append)
qed

lemma keeps_cred_updateStateIfForward [keeps_intros]:
  assumes "\<And>st. st \<in> set fromStates \<Longrightarrow> isForwardCredentialTransition st state"
  shows "keeps (tenant_step T) (cred_updateStateIfForward E i T state fromStates stamp)"
  unfolding cred_updateStateIfForward_def
  by (rule keepsI, unfold Let_def bindA_ret_snd, intro put_credentials_step credentials_update_step)
     (auto simp: cred_rel_def apply_stamp_def credential_moves_def assms)

lemma keeps_conn_updateStateIfForward [keeps_intros]:
  assumes "\<And>st. st \<in> set fromStates \<Longrightarrow> isForwardConnectionTransition st state"
  shows "keeps (tenant_step T) (conn_updateStateIfForward E i T state fromStates)"
  unfolding conn_updateStateIfForward_def
  by (rule keepsI, unfold Let_def bindA_ret_snd, intro put_connections_step connections_update_step)
     (auto simp: conn_rel_def assms)

lemma keeps_conn_insert [keeps_intros]:
  assumes "conn_tenantId c = T"
  shows "keeps (tenant_step T) (conn_insert c)"
proof (rule keepsI)
  fix s
  have "key_table conn_id (connections s @ [c])" if "conn_findById (conn_id c) s = None" "ids_unique s"
    using that by (auto simp: ids_unique_def key_table_def conn_findById_def find_None)
  then show "tenant_step T s (snd (conn_insert c s))"
    unfolding conn_insert_def
    by (auto simp: tenant.step_refl bindA_ret_snd assms
          intro!: put_connections_step tenant_step_connections rows_step_append)
qed

lemma exch_save_step:
  assumes "e \<in> set (exchanges s)" and "exch_rel T e e'"
    and "exch_rel T e (e'\<lparr>exch_updatedAt := db_now E\<rparr>)"
  shows "tenant_step T s (snd (exch_save E e' s))"
proof -
  have "tenant_step T s (s\<lparr>exchanges := save_row exch_id row (exchanges s)\<rparr>)"
    if row: "row = e' \<or> row = e'\<lparr>exch_updatedAt := db_now E\<rparr>" for row
  proof (rule tenant_step_exchanges)
    assume u: "ids_unique s"
    then show "key_table exch_id (save_row exch_id row (exchanges s))"
      by (simp add: ids_unique_def key_table_save_row)
    have rel: "exch_rel T e row" using row assms(2,3) by blast
    then have id: "exch_id row = exch_id e" unfolding exch_rel_def by blast
    have "r = e" if "r \<in> set (exchanges s)" "exch_id r = exch_id e" for r
      using u that assms(1) by (auto simp: ids_unique_def intro: key_table_unique)
    then show "rows_step (exch_rel T) (\<lambda>r. exch_tenantId r = T) exchanges s
        (s\<lparr>exchanges := save_row exch_id row (exchanges s)\<rparr>)"
      using id rel by (intro rows_step_overwrite [where r = e and key = exch_id and e = row]) (auto simp: assms(1))
  qed
  then show ?thesis
    unfolding exch_save_def Let_def bindA_ret_snd
    by (intro put_exchanges_step) (auto split: if_splits)
qed

section \<open>Steps inside a transaction\<close>

text \<open>
  Inside a transaction that began in \<open>c\<close> the store is a step away from \<open>c\<close>, so what was read from
  \<open>c\<close> still identifies its rows.
\<close>

definition tenant_since :: "uuid \<Rightarrow> db \<Rightarrow> db \<Rightarrow> db \<Rightarrow> bool" where
  "tenant_since T c s s' \<longleftrightarrow> (ids_unique c \<and> tenant_step T c s \<longrightarrow> tenant_step T s s')"

interpretation since: store_preorder "tenant_since T c" for T c
proof
  fix s show "tenant_since T c s s" by (simp add: tenant_since_def tenant.step_refl)
next
  fix s t u assume "tenant_since T c s t" "tenant_since T c t u"
  then show "tenant_since T c s u" by (auto simp: tenant_since_def intro: tenant.step_trans)
qed

lemma keeps_since: "keeps (tenant_step T) m \<Longrightarrow> keeps (tenant_since T c) m"
  by (simp add: keeps_def tenant_since_def)

lemma keeps_transaction_since:
  assumes "\<And>c. keeps (tenant_since T c) (body c)"
  shows "keeps (tenant_step T) (transaction body)"
proof (rule keepsI)
  fix s
  have "tenant_since T s s (snd (body s s))" using assms by (simp add: keeps_def)
  then have "ids_unique s \<Longrightarrow> tenant_step T s (snd (body s s))"
    by (simp add: tenant_since_def tenant.step_refl)
  then have "tenant_step T s (snd (body s s))" by (auto simp: tenant_step_def)
  then show "tenant_step T s (snd (transaction body s))"
    by (auto simp: transaction_def tenant.step_refl split: prod.splits sum.splits)
qed

definition op_owned :: "uuid \<Rightarrow> uuid \<Rightarrow> db \<Rightarrow> bool" where
  "op_owned T i s \<longleftrightarrow> (\<forall>r \<in> set (operations s). op_id r = i \<longrightarrow> op_tenantId r = T)"

lemma op_owned_since:
  assumes "ids_unique c" and "tenant_step T c s" and "op \<in> set (operations c)" and "op_tenantId op = T"
  shows "op_owned T (op_id op) s"
  unfolding op_owned_def
proof (intro ballI impI)
  fix r assume r: "r \<in> set (operations s)" "op_id r = op_id op"
  have u: "ids_unique s" and st: "rows_step (op_rel T) (\<lambda>r. op_tenantId r = T) operations c s"
    using assms(1,2) by (auto simp: tenant_step_def)
  from rows_step_row [OF st assms(3)] obtain r' where r': "r' \<in> set (operations s)" "op_rel T op r'" by blast
  then have "op_id r' = op_id op" "op_tenantId r' = T" using assms(4) by (auto simp: op_rel_def)
  with r r'(1) u show "op_tenantId r = T"
    by (metis ids_unique_def key_table_unique)
qed

lemma transitionStateIfForward_step:
  assumes "op_owned T i s" and "\<And>st. st \<in> set fromStates \<Longrightarrow> isForwardOperationTransition st state"
  shows "tenant_step T s (snd (transitionStateIfForward E i state fromStates result externalId s))"
proof (cases "op_findById i s")
  case None
  then show ?thesis
    by (simp add: transitionStateIfForward_def found_def tenant.step_refl)
next
  case (Some op)
  then have op: "op_tenantId op = T" using assms(1) by (auto simp: op_owned_def op_findById_def dest: find_Some)
  have "keeps (tenant_step T) (bindA (tenants_findById (op_tenantId op)) (\<lambda>tenant.
     let expiresAt = computeExpiresAt state (to_js (op_createdAt op))
                       (map_option to_js (op_viewedAt op)) (ten_config tenant)
     in bindA (op_transitionIfForward E i (op_tenantId op) fromStates
              \<lparr>pat_state = state, pat_result = result, pat_expiresAt = expiresAt,
               pat_externalId = externalId\<rparr>) (\<lambda>won.
        if \<not> won then ret None
        else bindA (reads (op_findById i)) (\<lambda>reloaded.
             bindA (found (NotFoundException ''Operation not found'') reloaded) (\<lambda>updated.
             bindA (recordTerminalOutcome (op_type updated) state) (\<lambda>_.
               ret (Some updated)))))))"
    unfolding op by (intro tenant.keeps_rules keeps_intros) (simp add: assms(2))
  then show ?thesis
    using Some by (simp add: transitionStateIfForward_def found_def keeps_def)
qed

lemma keeps_transitionStateIfForward [keeps_intros]:
  assumes "op \<in> set (operations c)" and "op_tenantId op = T" and "op_id op = i"
    and "\<And>st. st \<in> set fromStates \<Longrightarrow> isForwardOperationTransition st state"
  shows "keeps (tenant_since T c) (transitionStateIfForward E i state fromStates result externalId)"
proof (rule keepsI, unfold tenant_since_def, intro impI, elim conjE)
  fix s assume "ids_unique c" "tenant_step T c s"
  from op_owned_since [OF this assms(1,2)] have "op_owned T i s" by (simp add: assms(3))
  from transitionStateIfForward_step [OF this assms(4)]
  show "tenant_step T s (snd (transitionStateIfForward E i state fromStates result externalId s))" by simp
qed

lemma op_save_step:
  assumes "r \<in> set (operations s)" and "op_id r = op_id e"
    and "op_rel T r e" and "op_rel T r (e\<lparr>op_updatedAt := db_now E\<rparr>)"
  shows "tenant_step T s (snd (op_save E e s))"
proof -
  have "tenant_step T s (s\<lparr>operations := save_row op_id row (operations s)\<rparr>)"
    if row: "row = e \<or> row = e\<lparr>op_updatedAt := db_now E\<rparr>" for row
  proof (rule tenant_step_operations)
    assume u: "ids_unique s"
    then show "key_table op_id (save_row op_id row (operations s))"
      by (simp add: ids_unique_def key_table_save_row)
    have rel: "op_rel T r row" using row assms(3,4) by blast
    then have id: "op_id row = op_id r" unfolding op_rel_def by blast
    have "r' = r" if "r' \<in> set (operations s)" "op_id r' = op_id r" for r'
      using u that assms(1) by (auto simp: ids_unique_def intro: key_table_unique)
    then show "rows_step (op_rel T) (\<lambda>r. op_tenantId r = T) operations s
        (s\<lparr>operations := save_row op_id row (operations s)\<rparr>)"
      using id rel by (intro rows_step_overwrite [where r = r and key = op_id and e = row]) (auto simp: assms(1))
  qed
  then show ?thesis
    unfolding op_save_def Let_def bindA_ret_snd
    by (intro put_operations_step) (auto split: if_splits)
qed

text \<open>
  The unguarded \<open>transitionState\<close>, used to finish an operation whose state was claimed before: it
  reads the committed row and writes it over the claimed one.
\<close>

lemma transitionState_claimed_step:
  assumes "ids_unique c" and "tenant_step T c s"
    and "r \<in> set (operations s)" and "op_id r = i" and "op_tenantId r = T" and "op_state r = state"
  shows "tenant_step T s (snd (transitionState E c i state result None s))"
proof (cases "op_findById i c")
  case None
  then show ?thesis by (simp add: transitionState_def found_def tenant.step_refl)
next
  case (Some op)
  then have op: "op \<in> set (operations c)" "op_id op = i" by (auto simp: op_findById_def dest: find_Some)
  have u: "ids_unique s" and st: "rows_step (op_rel T) (\<lambda>r. op_tenantId r = T) operations c s"
    using assms(1,2) by (auto simp: tenant_step_def)
  from rows_step_row [OF st op(1)] obtain r' where "r' \<in> set (operations s)" "op_rel T op r'" by blast
  moreover from this have "op_id r' = i" using op(2) by (simp add: op_rel_def)
  ultimately have rel: "op_rel T op r"
    using u assms(3,4) by (metis ids_unique_def key_table_unique)
  define new where "new = (\<lambda>expires. op\<lparr>op_state := state,
      op_result := (case result of None \<Rightarrow> op_result op | Some j \<Rightarrow> j), op_expiresAt := expires\<rparr>)"
  have new: "op_rel T r (new expires)" "op_rel T r (new expires\<lparr>op_updatedAt := db_now E\<rparr>)"
    "op_id r = op_id (new expires)" for expires
    using rel assms(4-6) op(2) by (auto simp: op_rel_def new_def)
  have tail: "keeps (tenant_step T) (bindA (recordTerminalOutcome (op_type saved) state) (\<lambda>_. ret saved))" for saved :: operation
    by (intro tenant.keeps_rules keeps_intros)
  have save: "tenant_step T s (snd (bindA (op_save E (new expires))
      (\<lambda>saved. bindA (recordTerminalOutcome (op_type saved) state) (\<lambda>_. ret saved)) s))" for expires
  proof -
    obtain x s1 where x: "op_save E (new expires) s = (x, s1)" by (cases "op_save E (new expires) s")
    then have s1: "tenant_step T s s1"
      using op_save_step [OF assms(3) new(3) new(1,2)] by (metis snd_conv)
    show ?thesis
    proof (cases x)
      case (Inl e)
      with x s1 show ?thesis by (simp add: bindA_def)
    next
      case (Inr saved)
      have "tenant_step T s1 (snd (bindA (recordTerminalOutcome (op_type saved) state) (\<lambda>_. ret saved) s1))"
        using tail by (simp add: keeps_def)
      with s1 x Inr show ?thesis by (auto simp: bindA_def intro: tenant.step_trans)
    qed
  qed
  show ?thesis
  proof (cases "tenants_findById (op_tenantId op) s")
    case (Pair x t)
    then have t: "t = s" by (metis snd_conv tenants_findById_store)
    show ?thesis
      using Pair t Some save
      by (cases x) (auto simp: transitionState_def found_def bindA_def reads_def to_timestamp_def throw_def ret_def
          tenant.step_refl new_def split: option.split)
  qed
qed

end
