(* ===== verification/Protocol_State_Change.thy ===== *)
theory Protocol_State_Change
  imports Tenant_Steps
begin

text \<open>
  \<open>protocol-state-change.service.ts\<close> and its worker: one agent event applied to the exchange, the
  operation, the batch it belongs to, the credential or the connection, with the notifications,
  in one transaction.

  Inside the transaction the source reads operations, credentials and connections through
  repositories that are not given the transaction, so those reads see the committed store \<open>c\<close>.
\<close>

record ProtocolStateChangeJobData =
  psc_tenantId :: uuid
  psc_topic :: ProtocolTopic
  psc_externalId :: string
  psc_protocolState :: string
  psc_payload :: json

record ApplyOutcomeResult =
  aor_matched :: bool
  aor_transitioned :: bool
  aor_established :: bool

definition outcome_result :: "bool \<Rightarrow> bool \<Rightarrow> bool \<Rightarrow> ApplyOutcomeResult" where
  "outcome_result m t e = \<lparr>aor_matched = m, aor_transitioned = t, aor_established = e\<rparr>"

fun topic_upper :: "ProtocolTopic \<Rightarrow> string" where
  "topic_upper issue_credential = ''ISSUE_CREDENTIAL''"
| "topic_upper present_proof = ''PRESENT_PROOF''"
| "topic_upper connections_topic = ''CONNECTIONS''"
| "topic_upper revocation_registry = ''REVOCATION_REGISTRY''"

section \<open>Operations and batches\<close>

definition resolveOperationResult :: "ProtocolStateChangeJobData \<Rightarrow> OperationState option \<Rightarrow> json" where
  "resolveOperationResult data state =
     (if state = Some OpFailed
      then JObj [(''code'', JStr (topic_upper (psc_topic data) @ ''_FAILED'')),
                 (''message'', JStr (psc_protocolState data))]
      else if state = Some OpProcessing then JNull
      else psc_payload data)"

definition counts_json :: "BatchStateCounts \<Rightarrow> json" where
  "counts_json counts =
     JObj [(''pending'', jnat (counts OpPending)), (''processing'', jnat (counts OpProcessing)),
           (''completed'', jnat (counts OpCompleted)), (''failed'', jnat (counts OpFailed))]"

definition settleBatchParent :: "env \<Rightarrow> db \<Rightarrow> uuid \<Rightarrow> uuid \<Rightarrow> unit service" where
  "settleBatchParent E c batchId tenantId =
     bindA (op_lockBatchParent batchId tenantId) (\<lambda>_.
     bindA (reads (op_countByBatchGroupedByState batchId tenantId)) (\<lambda>counts.
       if counts OpPending + counts OpProcessing > 0 then ret ()
       else
         let finalState = (if counts OpFailed > 0 then OpFailed else OpCompleted) in
         bindA (op_claimBatchSettlement E batchId tenantId finalState) (\<lambda>claimed.
           if \<not> claimed then ret ()
           else
             bindA (transitionState E c batchId finalState (Some (counts_json counts)) None) (\<lambda>_.
               sendInTransaction E (WebhookDispatch tenantId
                 (''operation.batch.'' @ operationState_value finalState) batchId (js_now E))))))"

text \<open>
  An outcome without an operation state (see \<open>inherited_outcome\<close>) turns into an update whose state
  list is empty: the row and its tenant are loaded and nothing matches.
\<close>

definition transition_outcome ::
    "env \<Rightarrow> ProtocolStateChangeJobData \<Rightarrow> OperationState option \<Rightarrow> uuid \<Rightarrow> operation option service" where
  "transition_outcome E data state i =
     (case state of
        Some st \<Rightarrow> transitionStateIfForward E i st (operationStatesBelow st)
                     (Some (resolveOperationResult data (Some st))) None
      | None \<Rightarrow>
          bindA (reads (op_findById i)) (\<lambda>row.
          bindA (found (NotFoundException ''Operation not found'') row) (\<lambda>op.
          bindA (tenants_findById (op_tenantId op)) (\<lambda>_. ret None))))"

definition settleRelatedOfferOperation ::
    "env \<Rightarrow> db \<Rightarrow> ProtocolStateChangeJobData \<Rightarrow> OperationState \<Rightarrow> unit service" where
  "settleRelatedOfferOperation E c data state =
     (case cred_findByExternalId (psc_tenantId data) (psc_externalId data) c of
        None \<Rightarrow> ret ()
      | Some credential \<Rightarrow>
          (case op_findByIdForTenant (cred_operationId credential) (psc_tenantId data) c of
             None \<Rightarrow> ret ()
           | Some offer \<Rightarrow>
               bindA (transition_outcome E data (Some state) (op_id offer)) (\<lambda>updated.
                 if updated = None then ret ()
                 else sendInTransaction E (WebhookDispatch (psc_tenantId data)
                        (''operation.offer.'' @ operationState_value state) (op_id offer) (js_now E)))))"

definition applyOperationOutcome ::
    "env \<Rightarrow> db \<Rightarrow> ProtocolStateChangeJobData \<Rightarrow> ProtocolOutcome \<Rightarrow>
     (bool \<times> bool \<times> string option) service" where
  "applyOperationOutcome E c data outcome =
     (case op_findByExternalIdForTenant (psc_tenantId data) (psc_externalId data)
             (TOPIC_OPERATION_TYPES (psc_topic data)) c of
        None \<Rightarrow>
          ret (op_existsByExternalIdForTenant (psc_tenantId data) (psc_externalId data)
                 (TOPIC_OPERATION_TYPES (psc_topic data)) c, False, None)
      | Some op \<Rightarrow>
          bindA (transition_outcome E data (out_operationState outcome) (op_id op)) (\<lambda>updated.
            if updated = None then ret (True, False, Some (op_type op))
            else
              bindA (whenA (js_truthy (op_batchId op))
                       (settleBatchParent E c (the (op_batchId op)) (psc_tenantId data))) (\<lambda>_.
              bindA (whenA (op_type op \<in> {CREDENTIAL_ACCEPT, CREDENTIAL_ISSUE, CREDENTIAL_REJECT}
                            \<and> out_operationState outcome \<in> {Some OpCompleted, Some OpFailed})
                       (settleRelatedOfferOperation E c data (the (out_operationState outcome)))) (\<lambda>_.
                ret (True, True, Some (op_type op))))))"

section \<open>Credentials and connections\<close>

definition applyCredentialOutcome ::
    "env \<Rightarrow> db \<Rightarrow> ProtocolStateChangeJobData \<Rightarrow> ProtocolOutcome \<Rightarrow> ApplyOutcomeResult service" where
  "applyCredentialOutcome E c data outcome =
     (case out_credentialState outcome of
        None \<Rightarrow> ret (outcome_result False False False)
      | Some state \<Rightarrow>
          (case cred_findByExternalId (psc_tenantId data) (psc_externalId data) c of
             None \<Rightarrow> ret (outcome_result False False False)
           | Some credential \<Rightarrow>
               bindA (cred_updateStateIfForward E (cred_id credential) (psc_tenantId data) state
                        (credentialStatesBelow state)
                        \<lparr>stamp_issuedAt = (if state = CredIssued then Some (js_now E) else None),
                         stamp_revokedAt = (if state = CredRevoked then Some (js_now E) else None),
                         stamp_externalId = None\<rparr>) (\<lambda>won.
                 if \<not> won then ret (outcome_result True False False)
                 else
                   bindA (domainAudit_emit E (psc_tenantId data) AuditUpdate ''credential'' (cred_id credential) []) (\<lambda>_.
                     ret (outcome_result True True False)))))"

text \<open>
  A connection state inherited from the prototype of the table is a function: it is no state of the
  forward tables, so a guarded write with it matches nothing, and an insert with it fails.
\<close>

definition applyConnectionOutcome ::
    "env \<Rightarrow> db \<Rightarrow> uuid \<Rightarrow> ProtocolStateChangeJobData \<Rightarrow> ProtocolOutcome \<Rightarrow> ApplyOutcomeResult service" where
  "applyConnectionOutcome E c newId data outcome =
     (let unmatched = ret (outcome_result False False False);
          update = (\<lambda>connection.
            case out_connectionState outcome of
              Own target \<Rightarrow>
                bindA (transitionConnectionState target (applyProtocolStateIfForward E connection))
                  (\<lambda>(moved, established). ret (outcome_result True (moved \<noteq> None) established))
            | _ \<Rightarrow> ret (outcome_result True False False))
      in if out_connectionState outcome = Undefined then unmatched
         else case conn_findByExternalConnectionIdForTenant (psc_tenantId data) (psc_externalId data) c of
                Some connection \<Rightarrow> update connection
              | None \<Rightarrow>
                  (let template =
                         (case jget (psc_payload data) ''invitation_msg_id'' of
                            Some (JStr msgId) \<Rightarrow> conn_findByInvitationMsgIdForTenant (psc_tenantId data) msgId c
                          | _ \<Rightarrow> None);
                       multiUse = (case template of None \<Rightarrow> False
                                   | Some t \<Rightarrow> js_truthy_json (map_of (conn_metadata t) ''multiUse''))
                   in if multiUse \<and> out_connectionState outcome \<noteq> Own ConnInvited
                      then (case out_connectionState outcome of
                              Own target \<Rightarrow>
                                bindA (createFromInvitationTemplate E newId (the template) (psc_externalId data) target
                                         (case jget (psc_payload data) ''their_did'' of Some (JStr d) \<Rightarrow> Some d | _ \<Rightarrow> None))
                                  (\<lambda>_. ret (outcome_result True True (target \<in> {ConnActive, ConnCompleted})))
                            | _ \<Rightarrow> throw (JsError ''connection state is not a value of its column''))
                      else if \<not> multiUse
                      then (case template of None \<Rightarrow> unmatched | Some connection \<Rightarrow> update connection)
                      else ret (outcome_result True False False)))"

section \<open>The event\<close>

definition observeExchange ::
    "env \<Rightarrow> db \<Rightarrow> ProtocolStateChangeJobData \<Rightarrow> (uuid \<times> uuid) option \<Rightarrow> ExchangeTransition option service" where
  "observeExchange E c data correlation =
     (if psc_topic data \<noteq> issue_credential then ret None
      else
        let connectorId =
              (case correlation of
                 Some (_, k) \<Rightarrow> Some k
               | None \<Rightarrow> map_option cred_connectorId (cred_findByExternalId (psc_tenantId data) (psc_externalId data) c))
        in if js_truthy connectorId
           then exch_observe E (psc_tenantId data) (the connectorId) (psc_externalId data)
                  (psc_protocolState data) (map_option fst correlation)
           else ret None)"

record process_result =
  pr_matched :: bool
  pr_transitioned :: bool
  pr_event :: "string option"

definition domain_event_of :: "ProtocolOutcome \<Rightarrow> bool \<Rightarrow> string option \<Rightarrow> string option" where
  "domain_event_of outcome established operationType =
     (if established then Some ''connection.established''
      else if out_event outcome = Some ''credential.issued'' \<and> operationType = Some CREDENTIAL_ACCEPT
      then Some ''credential.accepted''
      else out_event outcome)"

definition dispatchTransition ::
    "env \<Rightarrow> ProtocolStateChangeJobData \<Rightarrow> bool \<Rightarrow> string option \<Rightarrow> process_result service" where
  "dispatchTransition E data matched event =
     bindA (sendInTransaction E (WebhookDispatch (psc_tenantId data)
              (case event of Some e \<Rightarrow> e
               | None \<Rightarrow> topic_value (psc_topic data) @ ''.'' @ psc_protocolState data)
              (psc_externalId data) (js_now E))) (\<lambda>_.
       ret \<lparr>pr_matched = matched, pr_transitioned = True, pr_event = event\<rparr>)"

definition process_body ::
    "env \<Rightarrow> uuid \<Rightarrow> ProtocolStateChangeJobData \<Rightarrow> (uuid \<times> uuid) option \<Rightarrow> ProtocolOutcome \<Rightarrow> db \<Rightarrow>
     process_result service" where
  "process_body E newId data correlation outcome c =
     bindA (observeExchange E c data correlation) (\<lambda>exchangeTransition.
     bindA (case exchangeTransition of
              Some tr \<Rightarrow> whenA (xt_to tr = Ex RequestReceived)
                 (sendInTransaction E (WebhookDispatch (psc_tenantId data)
                    ''credential-exchange.request-received'' (xt_exchangeId tr) (js_now E)))
            | None \<Rightarrow> ret ()) (\<lambda>_.
     bindA (applyOperationOutcome E c data outcome) (\<lambda>(matched0, transitioned0, operationType).
       if psc_topic data = connections_topic
       then
         bindA (applyConnectionOutcome E c newId data outcome) (\<lambda>r.
           let matched = (aor_matched r \<or> matched0); transitioned = (aor_transitioned r \<or> transitioned0)
           in if \<not> aor_transitioned r
              then ret \<lparr>pr_matched = matched, pr_transitioned = transitioned, pr_event = None\<rparr>
              else dispatchTransition E data matched
                     (domain_event_of outcome (aor_established r) operationType))
       else
         bindA (if operationType = None \<or> transitioned0 then applyCredentialOutcome E c data outcome
                else ret (outcome_result False False False)) (\<lambda>r.
           let matched = (aor_matched r \<or> matched0); transitioned = (aor_transitioned r \<or> transitioned0)
           in if \<not> transitioned
              then ret \<lparr>pr_matched = matched \<or> exchangeTransition \<noteq> None,
                        pr_transitioned = (exchangeTransition \<noteq> None), pr_event = None\<rparr>
              else dispatchTransition E data matched (domain_event_of outcome False operationType)))))"

datatype SettledOutcome = Ignored | Applied | NoOp | Unmatched

definition process ::
    "env \<Rightarrow> uuid \<Rightarrow> ProtocolStateChangeJobData \<Rightarrow> (uuid \<times> uuid) option \<Rightarrow> SettledOutcome service" where
  "process E newId data correlation =
     (case resolveProtocolOutcome (psc_topic data) (psc_protocolState data) of
        None \<Rightarrow> ret Ignored
      | Some outcome \<Rightarrow>
          bindA (transaction (process_body E newId data correlation outcome)) (\<lambda>result.
          bindA (case pr_event result of
                   None \<Rightarrow> ret ()
                 | Some event \<Rightarrow> eventEmitter_emit event (psc_tenantId data) (psc_externalId data)) (\<lambda>_.
            ret (if pr_transitioned result then Applied
                 else if pr_matched result then NoOp else Unmatched))))"

section \<open>The worker\<close>

text \<open>The queued job as it arrives: the topic is any string, the payload any value, fields may be missing.\<close>

record raw_job =
  raw_tenantId :: "string option"
  raw_topic :: "string option"
  raw_externalId :: "string option"
  raw_protocolState :: "string option"
  raw_payload :: "json option"

definition UUID_RE :: "string \<Rightarrow> bool" where
  "UUID_RE s = uuid_shape s"

definition KNOWN_TOPICS :: "(string \<times> ProtocolTopic) list" where
  "KNOWN_TOPICS =
     map (\<lambda>t. (topic_value t, t)) [issue_credential, present_proof, connections_topic, revocation_registry]"

definition assertValidPayload :: "raw_job \<Rightarrow> err + ProtocolStateChangeJobData" where
  "assertValidPayload raw =
     (let invalid = Inl (JsError ''Invalid protocol.state-change payload'')
      in if \<not> js_truthy (raw_tenantId raw) \<or> \<not> js_truthy (raw_topic raw) \<or> \<not> js_truthy (raw_externalId raw)
            \<or> \<not> js_truthy (raw_protocolState raw) \<or> \<not> js_truthy_json (raw_payload raw)
         then invalid
         else if \<not> UUID_RE (the (raw_tenantId raw)) then invalid
         else case map_of KNOWN_TOPICS (the (raw_topic raw)) of
                None \<Rightarrow> invalid
              | Some topic \<Rightarrow>
                  (case raw_payload raw of
                     Some (JObj kvs) \<Rightarrow>
                       Inr \<lparr>psc_tenantId = the (raw_tenantId raw), psc_topic = topic,
                            psc_externalId = the (raw_externalId raw),
                            psc_protocolState = the (raw_protocolState raw), psc_payload = JObj kvs\<rparr>
                   | _ \<Rightarrow> invalid))"

definition worker_handle :: "env \<Rightarrow> uuid \<Rightarrow> raw_job \<Rightarrow> SettledOutcome service" where
  "worker_handle E newId raw =
     bindA (lift (assertValidPayload raw)) (\<lambda>data. process E newId data None)"

section \<open>The event keeps the tenant contract\<close>

lemma forward_below: "st \<in> set (operationStatesBelow state) \<Longrightarrow> isForwardOperationTransition st state"
  by (simp add: operationStatesBelow_iff)

lemma keeps_settleBatchParent [keeps_intros]:
  "keeps (tenant_since T c) (settleBatchParent E c batchId T)"
proof (rule keepsI, unfold tenant_since_def, intro impI, elim conjE)
  fix s assume c: "ids_unique c" "tenant_step T c s"
  define counts where "counts = op_countByBatchGroupedByState batchId T s"
  define final where "final = (if counts OpFailed > 0 then OpFailed else OpCompleted)"
  obtain x s1 where x: "op_claimBatchSettlement E batchId T final s = (x, s1)"
    by (cases "op_claimBatchSettlement E batchId T final s")
  have "keeps (tenant_step T) (op_claimBatchSettlement E batchId T final)"
    by (intro keeps_intros) (simp add: final_def isForwardOperationTransition_def)
  then have s1: "tenant_step T s s1" using x by (rule keepsD)
  define send where "send = sendInTransaction E
    (WebhookDispatch T (''operation.batch.'' @ operationState_value final) batchId (js_now E))"
  have send: "keeps (tenant_step T) send" unfolding send_def by (intro keeps_intros) simp
  have run: "settleBatchParent E c batchId T s =
    (if counts OpPending + counts OpProcessing > 0 then (Inr (), s)
     else case x of Inl e \<Rightarrow> (Inl e, s1)
          | Inr claimed \<Rightarrow> if \<not> claimed then (Inr (), s1)
              else bindA (transitionState E c batchId final (Some (counts_json counts)) None) (\<lambda>_. send) s1)"
  proof -
    have "settleBatchParent E c batchId T s =
      (if counts OpPending + counts OpProcessing > 0 then ret ()
       else bindA (op_claimBatchSettlement E batchId T final) (\<lambda>claimed. if \<not> claimed then ret ()
              else bindA (transitionState E c batchId final (Some (counts_json counts)) None) (\<lambda>_. send))) s"
      unfolding settleBatchParent_def op_lockBatchParent_def bindA_assoc counts_def final_def send_def Let_def
      by simp
    then show ?thesis
      using x by (auto simp: ret_def bindA_def split: sum.split)
  qed
  have claimed: "tenant_step T s1 (snd (transitionState E c batchId final (Some (counts_json counts)) None s1))"
    if "x = Inr True"
  proof -
    let ?hit = "\<lambda>op. op_id op = batchId \<and> op_tenantId op = T \<and> op_state op = OpProcessing"
    have "\<exists>op \<in> set (operations s). ?hit op"
      and rows: "operations s1 = update_where ?hit (\<lambda>op. op\<lparr>op_state := final, op_updatedAt := db_now E\<rparr>) (operations s)"
      using x that by (auto simp: op_claimBatchSettlement_def Let_def run_Inr put_Inr count_where_pos)
    then obtain op where "op \<in> set (operations s)" "?hit op" by blast
    then have "op\<lparr>op_state := final, op_updatedAt := db_now E\<rparr> \<in> set (operations s1)"
      unfolding rows update_where_def by force
    then show ?thesis
      using \<open>?hit op\<close> tenant.step_trans [OF c(2) s1] c(1)
      by (intro transitionState_claimed_step) auto
  qed
  show "tenant_step T s (snd (settleBatchParent E c batchId T s))"
  proof (cases "x = Inr True \<and> counts OpPending + counts OpProcessing = 0")
    case False
    then show ?thesis using s1 by (auto simp: run tenant.step_refl split: sum.split)
  next
    case True
    obtain y s2 where y: "transitionState E c batchId final (Some (counts_json counts)) None s1 = (y, s2)"
      by (cases "transitionState E c batchId final (Some (counts_json counts)) None s1")
    have "tenant_step T s s2" using claimed True y tenant.step_trans [OF s1] by simp
    moreover have "tenant_step T s2 (snd (send s2))" using send by (simp add: keeps_def)
    ultimately show ?thesis
      using True y by (cases y) (auto simp: run bindA_def intro: tenant.step_trans)
  qed
qed

lemma keeps_transition_outcome [keeps_intros]:
  assumes "op \<in> set (operations c)" and "op_tenantId op = T" and "op_id op = i"
  shows "keeps (tenant_since T c) (transition_outcome E data state i)"
proof (cases state)
  case None
  then show ?thesis
    by (simp add: transition_outcome_def)
       (intro since.keeps_rules keeps_since [OF keeps_tenants_findById])
next
  case (Some st)
  then show ?thesis
    by (simp add: transition_outcome_def)
       (rule keeps_transitionStateIfForward [OF assms], rule forward_below)
qed

lemma found_in_tenant:
  "op_findByIdForTenant i T c = Some op \<Longrightarrow> op \<in> set (operations c) \<and> op_tenantId op = T"
  "op_findByExternalIdForTenant T x types c = Some op \<Longrightarrow> op \<in> set (operations c) \<and> op_tenantId op = T"
  by (auto simp: op_findByIdForTenant_def op_findByExternalIdForTenant_def dest: find_Some find_latest_Some)

lemma keeps_settleRelatedOfferOperation [keeps_intros]:
  "psc_tenantId data = T \<Longrightarrow> keeps (tenant_since T c) (settleRelatedOfferOperation E c data state)"
  unfolding settleRelatedOfferOperation_def
  by (intro since.keeps_rules keeps_if keeps_option keeps_transition_outcome
        keeps_since [OF keeps_sendInTransaction])
     (auto dest: found_in_tenant)

lemma keeps_applyOperationOutcome [keeps_intros]:
  "psc_tenantId data = T \<Longrightarrow> keeps (tenant_since T c) (applyOperationOutcome E c data outcome)"
  unfolding applyOperationOutcome_def
  by (intro since.keeps_rules keeps_if keeps_option keeps_transition_outcome
        keeps_settleRelatedOfferOperation)
     (auto dest: found_in_tenant intro: keeps_settleBatchParent)

lemma keeps_applyCredentialOutcome [keeps_intros]:
  "psc_tenantId data = T \<Longrightarrow> keeps (tenant_step T) (applyCredentialOutcome E c data outcome)"
  unfolding applyCredentialOutcome_def
  by (auto intro!: tenant.keeps_rules keeps_if keeps_option keeps_intros simp: credentialStatesBelow_iff)

lemma keeps_applyProtocolStateIfForward [keeps_intros]:
  "conn_tenantId n = T \<Longrightarrow> keeps (tenant_step T) (applyProtocolStateIfForward E n st (connectionStatesBelow st))"
  unfolding applyProtocolStateIfForward_def
  by (auto intro!: tenant.keeps_rules keeps_if keeps_intros simp: connectionStatesBelow_iff)

lemma keeps_transitionConnectionState [keeps_intros]:
  "(\<And>st. keeps R (attempt st (connectionStatesBelow st))) \<Longrightarrow> store_preorder R \<Longrightarrow>
   keeps R (transitionConnectionState target attempt)"
  unfolding transitionConnectionState_def
  by (auto intro!: store_preorder.keeps_bindA store_preorder.keeps_ret keeps_if)

lemma conn_insert_returns: "bindA (conn_insert n) f = bindA (conn_insert n) (\<lambda>_. f n)"
  by (rule ext) (auto simp: conn_insert_def bindA_def ret_def throw_def split: prod.split sum.split)

lemma keeps_createFromInvitationTemplate [keeps_intros]:
  "conn_tenantId n = T \<Longrightarrow> keeps (tenant_step T) (createFromInvitationTemplate E i n x st d)"
  unfolding createFromInvitationTemplate_def
  by (subst conn_insert_returns) (auto intro!: tenant.keeps_rules keeps_intros)

lemma conn_found_in_tenant:
  "conn_findByExternalConnectionIdForTenant T x c = Some n \<Longrightarrow> conn_tenantId n = T"
  "conn_findByInvitationMsgIdForTenant T m c = Some n \<Longrightarrow> conn_tenantId n = T"
  by (auto simp: conn_findByExternalConnectionIdForTenant_def conn_findByInvitationMsgIdForTenant_def
      dest: find_Some)

lemma keeps_update_connection:
  assumes "conn_tenantId n = T"
  shows "keeps (tenant_step T) (case st of Own target \<Rightarrow>
      bindA (transitionConnectionState target (applyProtocolStateIfForward E n))
        (\<lambda>(moved, established). ret (outcome_result True (moved \<noteq> None) established))
    | Inherited \<Rightarrow> ret (outcome_result True False False) | Undefined \<Rightarrow> ret (outcome_result True False False))"
  using assms
  by (cases st)
     (auto intro!: tenant.keeps_rules keeps_pair keeps_transitionConnectionState
        keeps_applyProtocolStateIfForward tenant.store_preorder_axioms)

lemma keeps_applyConnectionOutcome [keeps_intros]:
  assumes "psc_tenantId data = T"
  shows "keeps (tenant_step T) (applyConnectionOutcome E c newId data outcome)"
proof -
  let ?template = "case jget (psc_payload data) ''invitation_msg_id'' of
      Some (JStr msgId) \<Rightarrow> conn_findByInvitationMsgIdForTenant (psc_tenantId data) msgId c | _ \<Rightarrow> None"
  have t: "conn_tenantId n = T" if "?template = Some n" for n
    using that assms by (auto dest: conn_found_in_tenant split: option.splits json.splits)
  show ?thesis
    unfolding applyConnectionOutcome_def Let_def
    using t assms
    by (auto intro!: keeps_if keeps_option keeps_update_connection tenant.keeps_ret tenant.keeps_throw
          tenant.keeps_bindA keeps_createFromInvitationTemplate keeps_transitionConnectionState
          keeps_applyProtocolStateIfForward tenant.store_preorder_axioms
        dest: conn_found_in_tenant split: js_prop.split option.splits)
qed

lemma keeps_exch_observe [keeps_intros]:
  "keeps (tenant_step T) (exch_observe E T k x st i)"
proof (rule keepsI)
  fix s
  define P where "P = (\<lambda>e :: exchange. exch_tenantId e = T \<and> exch_connectorId e = k
      \<and> (if js_truthy i then Some (exch_id e) = i else exch_externalId e = Some x))"
  show "tenant_step T s (snd (exch_observe E T k x st i s))"
  proof (cases "List.find P (exchanges s)")
    case None
    then show ?thesis by (simp add: exch_observe_def P_def [symmetric] tenant.step_refl)
  next
    case (Some e)
    then have e: "e \<in> set (exchanges s)" "exch_tenantId e = T" by (auto simp: P_def dest: find_Some)
    have rel: "exch_rel T e (fst (exch_observed x st e))"
      "exch_rel T e ((fst (exch_observed x st e))\<lparr>exch_updatedAt := db_now E\<rparr>)"
      using e(2)
      by (auto simp: exch_rel_def exch_observed_def Let_def exch_advance_iff split: option.split)
    show ?thesis
      using exch_save_step [OF e(1) rel] Some
      by (simp add: exch_observe_def P_def [symmetric] bindA_ret_snd tenant.step_refl)
  qed
qed

lemma keeps_observeExchange [keeps_intros]:
  "psc_tenantId data = T \<Longrightarrow> keeps (tenant_step T) (observeExchange E c data correlation)"
  unfolding observeExchange_def Let_def
  by (auto intro!: keeps_if keeps_exch_observe tenant.keeps_ret)

lemma keeps_dispatchTransition [keeps_intros]:
  "psc_tenantId data = T \<Longrightarrow> keeps (tenant_step T) (dispatchTransition E data m ev)"
  unfolding dispatchTransition_def
  by (intro tenant.keeps_rules keeps_sendInTransaction) simp

lemma keeps_process_body:
  assumes "psc_tenantId data = T"
  shows "keeps (tenant_since T c) (process_body E newId data correlation outcome c)"
proof -
  note steps = keeps_since [OF keeps_observeExchange] keeps_since [OF keeps_sendInTransaction]
    keeps_since [OF keeps_applyConnectionOutcome] keeps_since [OF keeps_applyCredentialOutcome]
    keeps_since [OF keeps_dispatchTransition] keeps_applyOperationOutcome
  show ?thesis
    unfolding process_body_def Let_def
    by (intro since.keeps_rules keeps_if keeps_option keeps_pair steps) (simp_all add: assms)
qed

text \<open>
  C1 Applying an agent event keeps the tenant contract, whether it returns or throws: rows of other
  tenants are untouched, no operation, credential, connection or exchange moves backwards, new
  rows and jobs belong to the tenant of the event, and row ids stay unique.
\<close>

theorem process_keeps_tenant_contract:
  assumes "process E newId data correlation s = (r, s')" and "ids_unique s" and "T = psc_tenantId data"
  shows "ids_unique s' \<and> tenants s' = tenants s \<and> jobs_added T s s'
    \<and> rows_step (op_rel T) (\<lambda>r. op_tenantId r = T) operations s s'
    \<and> rows_step (cred_rel T) (\<lambda>r. cred_tenantId r = T) credentials s s'
    \<and> rows_step (conn_rel T) (\<lambda>r. conn_tenantId r = T) connections s s'
    \<and> rows_step (exch_rel T) (\<lambda>r. exch_tenantId r = T) exchanges s s'"
proof -
  have "keeps (tenant_step (psc_tenantId data)) (process E newId data correlation)"
    unfolding process_def
    by (intro keeps_option tenant.keeps_ret tenant.keeps_bindA keeps_events keeps_transaction_since
        keeps_process_body refl)
  from keepsD [OF this assms(1)] assms(2,3) show ?thesis by (simp add: tenant_step_def)
qed

definition event_data :: "ProtocolTopic \<Rightarrow> string \<Rightarrow> ProtocolStateChangeJobData" where
  "event_data topic state =
     \<lparr>psc_tenantId = ''t1'', psc_topic = topic, psc_externalId = ''x1'', psc_protocolState = state,
      psc_payload = JObj [(''k'', JNull)]\<rparr>"

definition offered_db :: db where
  "offered_db = empty_db\<lparr>operations := [sample_operation ''o1'' CREDENTIAL_OFFER OpPending],
     credentials := [sample_credential ''c1'' CredOffered ''o1'']\<rparr>"

theorem process_keeps_tenant_contract_witness:
  "\<exists>r s'. process sample_env ''n'' (event_data issue_credential ''done'') None offered_db = (r, s')
     \<and> rows_step (op_rel ''t1'') (\<lambda>r. op_tenantId r = ''t1'') operations offered_db s' \<and> ids_unique s'"
proof -
  obtain r s' where run: "process sample_env ''n'' (event_data issue_credential ''done'') None offered_db = (r, s')"
    by (cases "process sample_env ''n'' (event_data issue_credential ''done'') None offered_db")
  have "ids_unique offered_db"
    by (simp add: offered_db_def ids_unique_def key_table_def empty_db_def)
  from process_keeps_tenant_contract [OF run this] run show ?thesis
    by (simp add: event_data_def)
qed

section \<open>Atomicity and silence\<close>

lemma eventEmitter_emit_returns: "fst (eventEmitter_emit n t x s) = Inr ()"
  by (simp add: eventEmitter_emit_def modifies_def)

text \<open>
  C12 An event is applied as a whole or not at all: when handling it throws, in particular because the
  notification could not be queued, the store is exactly as before and a redelivery starts over.
\<close>

theorem process_all_or_nothing:
  assumes "process E newId data correlation s = (Inl e, s')"
  shows "s' = s"
proof -
  from assms obtain outcome where
    o: "resolveProtocolOutcome (psc_topic data) (psc_protocolState data) = Some outcome"
    by (auto simp: process_def ret_def split: option.splits)
  with assms have "bindA (transaction (process_body E newId data correlation outcome)) (\<lambda>result.
          bindA (case pr_event result of
                   None \<Rightarrow> ret ()
                 | Some event \<Rightarrow> eventEmitter_emit event (psc_tenantId data) (psc_externalId data)) (\<lambda>_.
            ret (if pr_transitioned result then Applied
                 else if pr_matched result then NoOp else Unmatched))) s = (Inl e, s')"
    by (simp add: process_def)
  then have "transaction (process_body E newId data correlation outcome) s = (Inl e, s')"
  proof (cases rule: bindA_Inl_cases)
    case (2 x t)
    then show ?thesis
      by (auto simp: eventEmitter_emit_def modifies_def ret_def bindA_def split: option.splits)
  qed
  then show ?thesis by (rule transaction_error_rolls_back)
qed

definition refusing_env :: env where
  "refusing_env = sample_env\<lparr>enqueue_ok := (\<lambda>_. False)\<rparr>"

theorem process_all_or_nothing_witness:
  "process refusing_env ''n'' (event_data issue_credential ''done'') None offered_db =
     (Inl (EnqueueFailed ''pg-boss''), offered_db)"
proof -
  let ?run = "process refusing_env ''n'' (event_data issue_credential ''done'') None offered_db"
  have f: "map_sum id (\<lambda>_. ()) (fst ?run) = Inl (EnqueueFailed ''pg-boss'')" by code_simp
  then have "fst ?run = Inl (EnqueueFailed ''pg-boss'')" by (cases "fst ?run") auto
  then have run: "?run = (Inl (EnqueueFailed ''pg-boss''), snd ?run)" by (simp add: prod_eq_iff)
  from process_all_or_nothing [OF run] run show ?thesis by simp
qed

text \<open>The parts of the store that anyone outside the exchange record can observe.\<close>

definition quiet :: "db \<Rightarrow> db \<Rightarrow> bool" where
  "quiet s s' \<longleftrightarrow> operations s' = operations s \<and> credentials s' = credentials s
     \<and> connections s' = connections s \<and> jobs s' = jobs s \<and> events s' = events s
     \<and> metrics s' = metrics s \<and> audit_log s' = audit_log s"

interpretation silence: store_preorder quiet
  by unfold_locales (simp_all add: quiet_def)

lemma keeps_quiet_observe: "keeps quiet (observeExchange E c data correlation)"
proof -
  have save: "keeps quiet (exch_save E e)" for e
    by (rule keepsI) (auto simp: exch_save_def Let_def bindA_ret_snd put_exchanges_def throw_def modifies_def quiet_def)
  have "keeps quiet (exch_observe E t k x st i)" for t k x st i
    unfolding exch_observe_def
    by (intro silence.keeps_rules keeps_option keeps_if save)
  then show ?thesis unfolding observeExchange_def Let_def by (intro keeps_if silence.keeps_ret)
qed

lemma transitionStateIfForward_lost:
  assumes "transitionStateIfForward E i state fromStates result externalId s = (Inr None, s')"
  shows "s' = s"
proof -
  obtain old :: operation and m s1 where
    tr: "op_transitionIfForward E i (op_tenantId old) fromStates
        \<lparr>pat_state = state, pat_result = result, pat_expiresAt = m, pat_externalId = externalId\<rparr> s = (Inr False, s1)"
    and rest: "s' = s1"
    using assms by (auto simp: transitionStateIfForward_def Let_def run_Inr split: if_splits)
  let ?p = "(E, i, op_tenantId old, fromStates,
    \<lparr>pat_state = state, pat_result = result, pat_expiresAt = m, pat_externalId = externalId\<rparr>)"
  from tr have "s1 = s\<lparr>operations := update_where (transition_hit ?p) (transition_upd ?p) (operations s)\<rparr>"
    and "\<not> (\<exists>op \<in> set (operations s). transition_hit ?p op)"
    by (simp_all only: op_transitionIfForward_Inr put_operations_Inr) blast+
  moreover from this have "update_where (transition_hit ?p) (transition_upd ?p) (operations s) = operations s"
    by (intro update_where_no_match) (simp add: count_where_def filter_empty_conv)
  ultimately show ?thesis using rest by simp
qed

lemma transition_outcome_lost: "transition_outcome E data state i s = (Inr None, s') \<Longrightarrow> s' = s"
  by (cases state) (auto simp: transition_outcome_def run_Inr dest: transitionStateIfForward_lost)

lemma applyOperationOutcome_lost:
  "applyOperationOutcome E c data outcome s = (Inr (m, False, ty), s') \<Longrightarrow> s' = s"
  by (auto simp: applyOperationOutcome_def run_Inr dest: transition_outcome_lost split: option.splits if_splits)

lemma conn_updateStateIfForward_lost:
  assumes "conn_updateStateIfForward E i t st from s = (Inr False, s')"
  shows "s' = s"
proof -
  let ?p = "(E, i, t, st, from)"
  from assms have "s' = s\<lparr>connections := update_where (conn_hit ?p) (conn_upd ?p) (connections s)\<rparr>"
    and "\<not> (\<exists>c \<in> set (connections s). conn_hit ?p c)"
    by (simp_all only: conn_updateStateIfForward_Inr put_connections_Inr) blast+
  moreover from this have "update_where (conn_hit ?p) (conn_upd ?p) (connections s) = connections s"
    by (intro update_where_no_match) (simp add: count_where_def filter_empty_conv)
  ultimately show ?thesis by simp
qed

lemma cred_updateStateIfForward_lost:
  assumes "cred_updateStateIfForward E i t st from stamp s = (Inr False, s')"
  shows "s' = s"
proof -
  let ?p = "(E, i, t, st, from, stamp)"
  from assms have "s' = s\<lparr>credentials := update_where (cred_hit ?p) (cred_upd ?p) (credentials s)\<rparr>"
    and "\<not> (\<exists>c \<in> set (credentials s). cred_hit ?p c)"
    by (simp_all only: cred_updateStateIfForward_Inr put_credentials_Inr) blast+
  moreover from this have "update_where (cred_hit ?p) (cred_upd ?p) (credentials s) = credentials s"
    by (intro update_where_no_match) (simp add: count_where_def filter_empty_conv)
  ultimately show ?thesis by simp
qed

lemma applyCredentialOutcome_lost:
  "applyCredentialOutcome E c data outcome s = (Inr r, s') \<Longrightarrow> \<not> aor_transitioned r \<Longrightarrow> s' = s"
  by (auto simp: applyCredentialOutcome_def run_Inr outcome_result_def
        dest: cred_updateStateIfForward_lost split: option.splits if_splits)

lemma applyProtocolStateIfForward_lost:
  "applyProtocolStateIfForward E n st from s = (Inr None, s') \<Longrightarrow> s' = s"
  by (auto simp: applyProtocolStateIfForward_def run_Inr dest: conn_updateStateIfForward_lost split: if_splits)

lemma transitionConnectionState_lost:
  assumes "transitionConnectionState target (applyProtocolStateIfForward E n) s = (Inr (None, est), s')"
  shows "s' = s"
  using assms
  by (auto simp: transitionConnectionState_def run_Inr dest!: applyProtocolStateIfForward_lost
        split: if_splits option.splits)

lemma applyConnectionOutcome_lost:
  "applyConnectionOutcome E c newId data outcome s = (Inr r, s') \<Longrightarrow> \<not> aor_transitioned r \<Longrightarrow> s' = s"
  by (auto simp: applyConnectionOutcome_def run_Inr throw_def Let_def outcome_result_def
        dest: transitionConnectionState_lost split: option.splits if_splits js_prop.splits)

lemma process_body_lost:
  assumes "process_body E newId data correlation outcome c s = (Inr r, s')" and "\<not> pr_transitioned r"
  shows "quiet s s' \<and> pr_event r = None"
proof -
  obtain xt s1 s2 m0 t0 ty s3 where
    ob: "observeExchange E c data correlation s = (Inr xt, s1)"
    and req: "(case xt of Some tr \<Rightarrow> whenA (xt_to tr = Ex RequestReceived)
                 (sendInTransaction E (WebhookDispatch (psc_tenantId data)
                    ''credential-exchange.request-received'' (xt_exchangeId tr) (js_now E)))
            | None \<Rightarrow> ret ()) s1 = (Inr (), s2)"
    and op: "applyOperationOutcome E c data outcome s2 = (Inr (m0, t0, ty), s3)"
    and rest: "(if psc_topic data = connections_topic
       then
         bindA (applyConnectionOutcome E c newId data outcome) (\<lambda>r.
           let matched = (aor_matched r \<or> m0); transitioned = (aor_transitioned r \<or> t0)
           in if \<not> aor_transitioned r
              then ret \<lparr>pr_matched = matched, pr_transitioned = transitioned, pr_event = None\<rparr>
              else dispatchTransition E data matched (domain_event_of outcome (aor_established r) ty))
       else
         bindA (if ty = None \<or> t0 then applyCredentialOutcome E c data outcome
                else ret (outcome_result False False False)) (\<lambda>r.
           let matched = (aor_matched r \<or> m0); transitioned = (aor_transitioned r \<or> t0)
           in if \<not> transitioned
              then ret \<lparr>pr_matched = matched \<or> xt \<noteq> None,
                        pr_transitioned = (xt \<noteq> None), pr_event = None\<rparr>
              else dispatchTransition E data matched (domain_event_of outcome False ty))) s3 = (Inr r, s')"
    using assms(1) by (auto simp: process_body_def run_Inr)
  have disp: "pr_transitioned r'" if "dispatchTransition E data m ev t = (Inr r', t')" for m ev t r' t'
    using that by (auto simp: dispatchTransition_def run_Inr)
  have q1: "quiet s s1" using keepsD [OF keeps_quiet_observe ob] .
  have "\<not> t0 \<and> s' = s3 \<and> pr_event r = None \<and> (xt = None \<or> psc_topic data = connections_topic)"
    using rest assms(2)
    by (auto simp: run_Inr Let_def outcome_result_def dest: disp
          dest!: applyConnectionOutcome_lost applyCredentialOutcome_lost split: if_splits)
  moreover have "xt = None" if "psc_topic data = connections_topic"
    using ob that by (simp add: observeExchange_def ret_def)
  ultimately have "xt = None" "\<not> t0" "s' = s3" "pr_event r = None" by auto
  with req op q1 show ?thesis by (auto simp: ret_def dest: applyOperationOutcome_lost)
qed



section \<open>Settling a batch\<close>

lemma op_claimBatchSettlement_Inr:
  "op_claimBatchSettlement E b t st s = (Inr won, s') \<Longrightarrow>
   s' = s\<lparr>operations := update_where (\<lambda>op. op_id op = b \<and> op_tenantId op = t \<and> op_state op = OpProcessing)
          (\<lambda>op. op\<lparr>op_state := st, op_updatedAt := db_now E\<rparr>) (operations s)\<rparr>
   \<and> (won \<longleftrightarrow> (\<exists>op \<in> set (operations s). op_id op = b \<and> op_tenantId op = t \<and> op_state op = OpProcessing))"
  by (auto simp: op_claimBatchSettlement_def Let_def run_Inr put_operations_Inr count_where_pos)

lemma op_save_Inr:
  assumes "op_save E op s = (Inr saved, s')"
  shows "saved \<in> {op, op\<lparr>op_updatedAt := db_now E\<rparr>} \<and> s' = s\<lparr>operations := save_row op_id saved (operations s)\<rparr>"
proof -
  define row where "row = (if op_findById (op_id op) s = Some op then op else op\<lparr>op_updatedAt := db_now E\<rparr>)"
  from assms have "saved = row \<and> s' = s\<lparr>operations := save_row op_id row (operations s)\<rparr>"
    unfolding op_save_def Let_def row_def [symmetric] by (auto simp: run_Inr put_operations_Inr)
  then show ?thesis by (simp add: row_def)
qed

lemma transitionState_committed:
  assumes "transitionState E c i st (Some j) None s = (Inr saved, s')" and "op_findById i c = Some parent"
  shows "\<exists>row. op_id row = op_id parent \<and> op_state row = st \<and> op_result row = j
    \<and> operations s' = save_row op_id row (operations s) \<and> jobs s' = jobs s"
proof -
  from assms obtain expires row s1 u where
    save: "op_save E (parent\<lparr>op_state := st, op_result := j, op_expiresAt := expires\<rparr>) s = (Inr row, s1)"
    and rec: "recordTerminalOutcome (op_type row) st s1 = (Inr u, s')"
    unfolding transitionState_def by (simp add: run_Inr) blast
  from op_save_Inr [OF save] recordTerminalOutcome_tables [OF rec] show ?thesis
    by (intro exI [of _ row]) auto
qed

lemma save_row_keeps:
  "r \<in> set t \<Longrightarrow> key r \<noteq> key e \<Longrightarrow> r \<in> set (save_row key e t)"
  by (auto simp: save_row_def image_iff)

text \<open>
  C21 A batch parent is settled exactly when none of its items is in flight any more and it is still
  processing: it fails if some item failed and completes otherwise, its result is the recount, and
  one notification is queued. Before that, and for a parent already settled, nothing is written.
\<close>

theorem settleBatchParent_settles:
  assumes "settleBatchParent E c b T s = (Inr (), s')"
    and "key_table op_id (operations s)" and "parent \<in> set (operations s)"
    and "op_id parent = b" and "op_tenantId parent = T" and "op_findById b c = Some parent"
  shows "let counts = op_countByBatchGroupedByState b T s;
             final = (if 0 < counts OpFailed then OpFailed else OpCompleted)
    in if 0 < counts OpPending + counts OpProcessing \<or> op_state parent \<noteq> OpProcessing then s' = s
       else (\<exists>parent'. op_findById b s' = Some parent' \<and> op_state parent' = final
               \<and> op_result parent' = counts_json counts)
            \<and> jobs s' = jobs s @ [WebhookDispatch T (''operation.batch.'' @ operationState_value final) b (js_now E)]
            \<and> (\<forall>r \<in> set (operations s). op_id r \<noteq> b \<longrightarrow> r \<in> set (operations s'))"
proof -
  let ?counts = "op_countByBatchGroupedByState b T s"
  let ?final = "if 0 < ?counts OpFailed then OpFailed else OpCompleted"
  let ?hit = "\<lambda>op. op_id op = b \<and> op_tenantId op = T \<and> op_state op = OpProcessing"
  have hit: "(\<exists>op \<in> set (operations s). ?hit op) \<longleftrightarrow> op_state parent = OpProcessing"
    using assms(2-5) by (metis key_table_unique)
  have "s' = s" if "0 < ?counts OpPending + ?counts OpProcessing"
    using assms(1) that by (simp add: settleBatchParent_def op_lockBatchParent_def run_Inr)
  moreover have "s' = s" if "\<not> 0 < ?counts OpPending + ?counts OpProcessing" "op_state parent \<noteq> OpProcessing"
  proof -
    have none: "\<forall>op \<in> set (operations s). \<not> ?hit op" using hit that(2) by blast
    then have "update_where ?hit f (operations s) = operations s" for f
      by (intro update_where_no_match) (simp add: count_where_def filter_empty_conv)
    with none assms(1) that show ?thesis
      by (auto simp: settleBatchParent_def op_lockBatchParent_def run_Inr Let_def
            dest!: op_claimBatchSettlement_Inr split: if_splits)
  qed
  moreover have "(\<exists>parent'. op_findById b s' = Some parent' \<and> op_state parent' = ?final
               \<and> op_result parent' = counts_json ?counts)
            \<and> jobs s' = jobs s @ [WebhookDispatch T (''operation.batch.'' @ operationState_value ?final) b (js_now E)]
            \<and> (\<forall>r \<in> set (operations s). op_id r \<noteq> b \<longrightarrow> r \<in> set (operations s'))"
    if "\<not> 0 < ?counts OpPending + ?counts OpProcessing" "op_state parent = OpProcessing"
  proof -
    from assms(1) that hit obtain s1 saved s2 where
      claim: "op_claimBatchSettlement E b T ?final s = (Inr True, s1)"
      and tr: "transitionState E c b ?final (Some (counts_json ?counts)) None s1 = (Inr saved, s2)"
      and send: "sendInTransaction E (WebhookDispatch T (''operation.batch.'' @ operationState_value ?final) b (js_now E)) s2 = (Inr (), s')"
      by (auto simp: settleBatchParent_def op_lockBatchParent_def run_Inr Let_def
            dest: op_claimBatchSettlement_Inr split: if_splits)
    from transitionState_committed [OF tr assms(6)] obtain row where
      row: "op_id row = b" "op_state row = ?final" "op_result row = counts_json ?counts"
      and ops: "operations s2 = save_row op_id row (operations s1)" and jobs: "jobs s2 = jobs s1"
      using assms(4) by blast
    from send have s': "operations s' = operations s2"
      "jobs s' = jobs s2 @ [WebhookDispatch T (''operation.batch.'' @ operationState_value ?final) b (js_now E)]"
      by (auto simp: sendInTransaction_def modifies_def throw_def split: if_splits)
    have "op_findById b s' = Some row"
      using find_save_row [of op_id row "operations s1"] by (simp add: op_findById_def s' ops row(1))
    moreover have "r \<in> set (operations s')" if "r \<in> set (operations s)" "op_id r \<noteq> b" for r
    proof -
      from op_claimBatchSettlement_Inr [OF claim] that have "r \<in> set (operations s1)"
        by (auto simp: update_where_def image_iff)
      with that(2) row(1) show ?thesis by (simp add: s' ops save_row_keeps)
    qed
    moreover have "jobs s1 = jobs s" using op_claimBatchSettlement_Inr [OF claim] by simp
    ultimately show ?thesis using row s' jobs by auto
  qed
  ultimately show ?thesis
    unfolding Let_def
    by (cases "op_state parent = OpProcessing"; cases "0 < ?counts OpPending + ?counts OpProcessing") simp_all
qed

definition batch_db :: "OperationState \<Rightarrow> db" where
  "batch_db itemState = empty_db\<lparr>operations :=
     [sample_operation ''b1'' CREDENTIAL_OFFER_BATCH OpProcessing,
      (sample_operation ''o1'' CREDENTIAL_OFFER OpCompleted)\<lparr>op_batchId := Some ''b1''\<rparr>,
      (sample_operation ''o2'' CREDENTIAL_OFFER itemState)\<lparr>op_batchId := Some ''b1''\<rparr>]\<rparr>"

theorem settleBatchParent_settles_witness:
  "\<exists>s' parent'. settleBatchParent sample_env (batch_db OpFailed) ''b1'' ''t1'' (batch_db OpFailed) = (Inr (), s')
     \<and> op_findById ''b1'' s' = Some parent' \<and> op_state parent' = OpFailed"
proof -
  let ?s = "batch_db OpFailed" and ?parent = "sample_operation ''b1'' CREDENTIAL_OFFER_BATCH OpProcessing"
  let ?run = "settleBatchParent sample_env ?s ''b1'' ''t1'' ?s"
  have "fst ?run = Inr ()" by code_simp
  then have run: "?run = (Inr (), snd ?run)" by (simp add: prod_eq_iff)
  have "key_table op_id (operations ?s)" "?parent \<in> set (operations ?s)" "op_findById ''b1'' ?s = Some ?parent"
    by (simp_all add: batch_db_def sample_operation_def key_table_def op_findById_def)
  moreover have "op_countByBatchGroupedByState ''b1'' ''t1'' ?s OpPending = 0"
    "op_countByBatchGroupedByState ''b1'' ''t1'' ?s OpProcessing = 0"
    "op_countByBatchGroupedByState ''b1'' ''t1'' ?s OpFailed = 1" by code_simp+
  moreover have "op_id ?parent = ''b1''" "op_tenantId ?parent = ''t1''" "op_state ?parent = OpProcessing"
    by (simp_all add: sample_operation_def)
  moreover note settleBatchParent_settles [OF run]
  ultimately
  have "\<exists>parent'. op_findById ''b1'' (snd ?run) = Some parent' \<and> op_state parent' = OpFailed"
    unfolding Let_def by fastforce
  with run show ?thesis by blast
qed

end
