(* ===== verification/Credential_Issue.thy ===== *)
theory Credential_Issue
  imports Protocol_State_Change
begin

text \<open>
  \<open>credential-exchange.service.ts\<close>: reading, reconciling and issuing an exchange. Issuing claims the
  exchange in one transaction, calls the agent, and records what the agent answered. The agent and the
  registry that finds it are parameters. The last sections take the service apart at its awaits and let
  any number of requests and other handlers interleave.
\<close>

section \<open>The agent\<close>

record RemoteExchange =
  rx_id :: string
  rx_externalId :: "string option"
  rx_connectionId :: "string option"
  rx_state :: CredentialExchangeState

record IssuerAgent =
  ag_getExchange :: "string \<Rightarrow> err + RemoteExchange"
  ag_issueCredential :: "string \<Rightarrow> err + RemoteExchange"

definition CredentialFormat_values :: "string list" where
  "CredentialFormat_values = [''anoncreds'', ''jsonld'', ''sd-jwt-vc'', ''mdl'']"

definition toPortCredentialFormat :: "CredentialDefinitionFormat \<Rightarrow> string option" where
  "toPortCredentialFormat fmt = List.find (\<lambda>v. v = format_value fmt) CredentialFormat_values"

type_synonym issuer_registry = "uuid \<Rightarrow> string \<Rightarrow> uuid \<Rightarrow> err + IssuerAgent"

section \<open>Reading and reconciling\<close>

definition exchange_get :: "uuid \<Rightarrow> uuid \<Rightarrow> exchange service" where
  "exchange_get tenantId i =
     bindA (reads (exch_findForTenant tenantId i)) (\<lambda>e.
       found (NotFoundException ''Credential exchange not found'') e)"

definition exchange_resolve :: "issuer_registry \<Rightarrow> exchange \<Rightarrow> IssuerAgent service" where
  "exchange_resolve reg e =
     bindA (require (js_truthy (exch_externalId e))
              (ConflictException ''Exchange has no verified backend correlation; do not resend'')) (\<lambda>_.
     bindA (found (ConflictException ''Exchange format is not supported'') (toPortCredentialFormat (exch_format e)))
       (\<lambda>format. lift (reg (exch_tenantId e) format (exch_connectorId e))))"

definition assertCorrelation :: "env \<Rightarrow> registry \<Rightarrow> exchange \<Rightarrow> RemoteExchange \<Rightarrow> unit service" where
  "assertCorrelation E ports e remote =
     bindA (require (Some (case rx_externalId remote of Some x \<Rightarrow> x | None \<Rightarrow> rx_id remote) = exch_externalId e)
              (ConflictException ''Backend returned a different exchange'')) (\<lambda>_.
     bindA (require (exch_protocol e = ''didcomm-v1'' \<and> js_truthy (exch_connectionId e))
              (ConflictException ''Exchange delivery protocol is not supported'')) (\<lambda>_.
     let connectionId = the (exch_connectionId e);
         identity = resolveIdentity E ports (exch_tenantId e) connectionId (exch_connectorId e)
     in
     bindA (reads (conn_findByIdForTenant (exch_tenantId e) connectionId)) (\<lambda>row.
     let alreadyBound = (case row of None \<Rightarrow> False | Some c \<Rightarrow> js_truthy (conn_connectorId c)) in
     bindA (case row of
              None \<Rightarrow> ret None
            | Some c \<Rightarrow> if js_truthy (conn_connectorId c) then ret (Some c)
                        else bindA identity (\<lambda>c'. ret (Some c'))) (\<lambda>connection.
     bindA (require (case connection of
                       None \<Rightarrow> False
                     | Some c \<Rightarrow> conn_connectorId c = Some (exch_connectorId e)
                         \<and> js_truthy (conn_externalConnectionId c)
                         \<and> rx_connectionId remote = conn_externalConnectionId c)
              (ConflictException ''Exchange holder or connector correlation is inconsistent'')) (\<lambda>_.
       if alreadyBound then bindA identity (\<lambda>_. ret ()) else ret ())))))"

definition synchronize :: "env \<Rightarrow> uuid \<Rightarrow> exchange \<Rightarrow> RemoteExchange \<Rightarrow> unit service" where
  "synchronize E newId e remote =
     (let state = credentialExchangeState_value (rx_state remote); x = the (exch_externalId e)
      in bindA (process E newId
                 \<lparr>psc_tenantId = exch_tenantId e, psc_topic = issue_credential, psc_externalId = x,
                  psc_protocolState = state,
                  psc_payload = JObj [(''state'', JStr state), (''exchange_id'', JStr x)]\<rparr>
                 (Some (exch_id e, exch_connectorId e))) (\<lambda>_. ret ()))"

definition readRemote :: "IssuerAgent \<Rightarrow> exchange \<Rightarrow> RemoteExchange service" where
  "readRemote agent e =
     lift (case ag_getExchange agent (the (exch_externalId e)) of
             Inl (AdapterErr (BackendNotFound m)) \<Rightarrow> Inl (ConflictException ''Backend credential exchange was not found'')
           | r \<Rightarrow> r)"

definition exchange_reconcile ::
    "env \<Rightarrow> registry \<Rightarrow> issuer_registry \<Rightarrow> uuid \<Rightarrow> uuid \<Rightarrow> uuid \<Rightarrow> exchange service" where
  "exchange_reconcile E ports reg newId tenantId i =
     bindA (exchange_get tenantId i) (\<lambda>e.
     bindA (exchange_resolve reg e) (\<lambda>agent.
     bindA (readRemote agent e) (\<lambda>remote.
     bindA (assertCorrelation E ports e remote) (\<lambda>_.
     bindA (synchronize E newId e remote) (\<lambda>_.
       exchange_get tenantId i)))))"

section \<open>Issuing\<close>

definition retainedIssueOperation :: "exchange \<Rightarrow> operation service" where
  "retainedIssueOperation e =
     bindA (reads (\<lambda>s. if js_truthy (exch_issueOperationId e)
              then op_findByIdForTenant (the (exch_issueOperationId e)) (exch_tenantId e) s else None)) (\<lambda>existing.
     bindA (found (ConflictException ''Issuance already attempted; reconcile the exchange, do not resubmit'') existing) (\<lambda>op.
     bindA (require (op_exchangeId op = Some (exch_id e) \<and> op_type op = CREDENTIAL_ISSUE)
              (ConflictException ''Issuance already attempted; reconcile the exchange, do not resubmit'')) (\<lambda>_.
       ret op)))"

text \<open>The transaction that claims the exchange; the flag says whether the caller must submit.\<close>

definition issue_claim ::
    "env \<Rightarrow> uuid \<Rightarrow> uuid \<Rightarrow> uuid \<Rightarrow> exchange \<Rightarrow> RemoteExchange \<Rightarrow> (operation \<times> bool) service" where
  "issue_claim E opId tenantId i e remote =
     bindA (exch_lock tenantId i) (\<lambda>row.
     bindA (found (NotFoundException ''Credential exchange not found'') row) (\<lambda>locked.
       if exch_issueSubmission locked \<noteq> NotSubmitted
       then bindA (retainedIssueOperation locked) (\<lambda>existing. ret (existing, False))
       else
         bindA (require (exch_state locked = Ex RequestReceived \<and> rx_state remote = RequestReceived)
                  (ConflictException ''Exchange must have a holder request before explicit issuance'')) (\<lambda>_.
         bindA (createOperation E opId
                  \<lparr>in_tenantId = tenantId, in_type = CREDENTIAL_ISSUE,
                   in_request = \<lparr>req_method = ''POST'',
                     req_path = ''/api/v1/tenants/'' @ tenantId @ ''/credential-exchanges/'' @ i @ ''/issue'',
                     req_body = JObj []\<rparr>,
                   in_batchId = None, in_externalId = exch_externalId e, in_exchangeId = Some i\<rparr>) (\<lambda>op.
         bindA (exch_save E (locked\<lparr>exch_issueSubmission := Submitting, exch_issueOperationId := Some (op_id op)\<rparr>)) (\<lambda>_.
         bindA (transitionStateIfForward E (op_id op) OpProcessing [OpPending] None None) (\<lambda>_.
         bindA (domainAudit_emit E tenantId AuditIssue ''credential-exchange'' i
                  [(''operation_id'', JStr (op_id op))]) (\<lambda>_.
           ret (op, True))))))))"

text \<open>What follows a submission the agent accepted.\<close>

definition issue_confirm ::
    "env \<Rightarrow> registry \<Rightarrow> uuid \<Rightarrow> uuid \<Rightarrow> uuid \<Rightarrow> exchange \<Rightarrow> RemoteExchange \<Rightarrow> unit service" where
  "issue_confirm E ports newId tenantId i e issued =
     bindA (assertCorrelation E ports e issued) (\<lambda>_.
     bindA (exch_setSubmission E tenantId i Submitted) (\<lambda>_.
       synchronize E newId e issued))"

text \<open>The transaction after a submission the agent refused: the claim is given back.\<close>

definition issue_release :: "env \<Rightarrow> uuid \<Rightarrow> uuid \<Rightarrow> uuid \<Rightarrow> string \<Rightarrow> unit service" where
  "issue_release E tenantId i opId reason =
     bindA (exch_lock tenantId i) (\<lambda>row.
       case row of
         None \<Rightarrow> ret ()
       | Some locked \<Rightarrow>
           if exch_issueSubmission locked \<noteq> Submitting \<or> exch_issueOperationId locked \<noteq> Some opId then ret ()
           else
             bindA (transitionStateIfForward E opId OpFailed [OpProcessing]
                      (Some (JObj [(''code'', JStr (adapter_code (SubmissionRejected reason))),
                                   (''message'', JStr (adapter_message (SubmissionRejected reason)))])) None) (\<lambda>failed.
               if failed = None then ret ()
               else
                 bindA (exch_save E (locked\<lparr>exch_issueSubmission := NotSubmitted\<rparr>)) (\<lambda>_.
                   sendInTransaction E (WebhookDispatch tenantId ''operation.issue.failed'' opId (js_now E)))))"

definition rejection_error :: "string \<Rightarrow> err" where
  "rejection_error reason =
     (let m = adapter_message (SubmissionRejected reason)
      in if reason = ''not-found'' then ConflictException m
         else if reason = ''authentication'' then BadGatewayException m
         else BadRequestException m)"

definition issue_uncertain :: "env \<Rightarrow> uuid \<Rightarrow> uuid \<Rightarrow> 'a service" where
  "issue_uncertain E tenantId i =
     bindA (exch_setSubmission E tenantId i Uncertain) (\<lambda>_.
       throw (ServiceUnavailableException ''Issuance outcome uncertain; reconcile this exchange, do not resubmit''))"

definition issue_submit ::
    "env \<Rightarrow> registry \<Rightarrow> IssuerAgent \<Rightarrow> uuid \<Rightarrow> uuid \<Rightarrow> uuid \<Rightarrow> exchange \<Rightarrow> uuid \<Rightarrow> unit service" where
  "issue_submit E ports agent newId tenantId i e opId =
     (case ag_issueCredential agent (the (exch_externalId e)) of
        Inr issued \<Rightarrow> catchA (issue_confirm E ports newId tenantId i e issued) (\<lambda>_. issue_uncertain E tenantId i)
      | Inl (AdapterErr (SubmissionRejected reason)) \<Rightarrow>
          bindA (transaction (\<lambda>_. issue_release E tenantId i opId reason)) (\<lambda>_. throw (rejection_error reason))
      | Inl _ \<Rightarrow> issue_uncertain E tenantId i)"

text \<open>Everything before the claim: the answer of an earlier request, or what to submit.\<close>

datatype prepared = Answered operation | Submit IssuerAgent exchange RemoteExchange

definition issue_prepare ::
    "env \<Rightarrow> cursor_lib \<Rightarrow> registry \<Rightarrow> issuer_registry \<Rightarrow> uuid \<Rightarrow> uuid \<Rightarrow> uuid \<Rightarrow> prepared service" where
  "issue_prepare E L ports reg newId tenantId i =
     bindA (exchange_get tenantId i) (\<lambda>e.
     bindA (require (exch_role e = Issuer) (ConflictException ''Only issuer exchanges can issue'')) (\<lambda>_.
       if exch_issueSubmission e \<noteq> NotSubmitted
       then bindA (retainedIssueOperation e) (\<lambda>existing.
            bindA (getForTenant E L tenantId (op_id existing)) (\<lambda>op. ret (Answered op)))
       else
         bindA (exchange_resolve reg e) (\<lambda>agent.
         bindA (readRemote agent e) (\<lambda>remote.
         bindA (assertCorrelation E ports e remote) (\<lambda>_.
         bindA (synchronize E newId e remote) (\<lambda>_.
           ret (Submit agent e remote)))))))"

definition issue ::
    "env \<Rightarrow> cursor_lib \<Rightarrow> registry \<Rightarrow> issuer_registry \<Rightarrow> uuid \<Rightarrow> uuid \<Rightarrow> uuid \<Rightarrow> uuid \<Rightarrow> operation service" where
  "issue E L ports reg newId opId tenantId i =
     bindA (issue_prepare E L ports reg newId tenantId i) (\<lambda>p.
       case p of
         Answered op \<Rightarrow> ret op
       | Submit agent e remote \<Rightarrow>
           bindA (transaction (\<lambda>_. issue_claim E opId tenantId i e remote)) (\<lambda>(op, submit).
           bindA (if submit then issue_submit E ports agent newId tenantId i e (op_id op) else ret ()) (\<lambda>_.
             getForTenant E L tenantId (op_id op))))"

section \<open>What other handlers leave of an exchange\<close>

text \<open>
  Every handler but the release above keeps the history of exchanges: in particular none turns a
  submission that was claimed back into one that was not.
\<close>

lemma history_same:
  assumes "\<And>s. exchanges (snd (m s)) = exchanges s"
  shows "keeps exch_history m"
  by (rule keepsI) (simp add: exch_history_same assms)

lemma history_puts [simp]:
  "exch_history s (snd (put_operations t1 s))" "exch_history s (snd (put_credentials t2 s))"
  "exch_history s (snd (put_connections t3 s))"
  by (intro exch_history_same; simp add: put_defs throw_def modifies_def)+

lemma history_effects [keeps_intros]:
  "keeps exch_history (sendInTransaction E j)" "keeps exch_history (eventEmitter_emit n t x)"
  "keeps exch_history (to_timestamp d)" "keeps exch_history (tenants_findById t)"
  "keeps exch_history (recordTerminalOutcome ty st)"
  by (rule history_same; simp add: sendInTransaction_def eventEmitter_emit_def to_timestamp_def tenants_findById_def
      recordTerminalOutcome_def throw_def modifies_def ret_def reads_def found_def
      split: option.split)+

lemma history_domainAudit_emit [keeps_intros]: "keeps exch_history (domainAudit_emit E t a rt ri m)"
  unfolding domainAudit_emit_def by (intro history.keeps_rules keeps_intros)

lemma history_row_writes [keeps_intros]:
  "keeps exch_history (op_claimBatchSettlement E i t st)"
  "keeps exch_history (op_save E op)" "keeps exch_history (op_insert op)"
  "keeps exch_history (cred_updateStateIfForward E i t cst cfr stamp)"
  "keeps exch_history (conn_updateStateIfForward E i t nst nfr)"
  "keeps exch_history (conn_save E c)" "keeps exch_history (conn_insert c)"
  by (rule keepsI; simp add: op_claimBatchSettlement_def op_save_def op_insert_def cred_updateStateIfForward_def
      conn_updateStateIfForward_def conn_save_def conn_insert_def Let_def bindA_ret_snd throw_def history.step_refl)+

lemma history_timed_writes [keeps_intros]:
  "keeps exch_history (op_transitionIfForward E i t fr patch)" "keeps exch_history (op_markFirstView i v d)"
  unfolding op_transitionIfForward_def op_markFirstView_def
  by (intro history.keeps_bindA history_effects keepsI; simp add: Let_def bindA_ret_snd)+

lemma history_transitionStateIfForward [keeps_intros]:
  "keeps exch_history (transitionStateIfForward E i st fr r x)"
  unfolding transitionStateIfForward_def Let_def by (intro history.keeps_rules keeps_intros)

lemma history_transitionState [keeps_intros]: "keeps exch_history (transitionState E c i st r t)"
  unfolding transitionState_def Let_def by (intro history.keeps_rules keeps_intros)

lemma history_createOperation [keeps_intros]: "keeps exch_history (createOperation E i input)"
  unfolding createOperation_def Let_def by (intro history.keeps_rules keeps_intros)

lemma history_settleBatchParent [keeps_intros]: "keeps exch_history (settleBatchParent E c b t)"
  unfolding settleBatchParent_def op_lockBatchParent_def Let_def by (intro history.keeps_rules keeps_intros)

lemma history_transition_outcome [keeps_intros]: "keeps exch_history (transition_outcome E data st i)"
  unfolding transition_outcome_def by (intro history.keeps_rules keeps_intros)

lemma history_applyOperationOutcome [keeps_intros]: "keeps exch_history (applyOperationOutcome E c data out)"
  unfolding applyOperationOutcome_def settleRelatedOfferOperation_def by (intro history.keeps_rules keeps_intros)

lemma history_applyCredentialOutcome [keeps_intros]: "keeps exch_history (applyCredentialOutcome E c data out)"
  unfolding applyCredentialOutcome_def by (intro history.keeps_rules keeps_intros)

lemma history_applyProtocolStateIfForward [keeps_intros]: "keeps exch_history (applyProtocolStateIfForward E c st fr)"
  unfolding applyProtocolStateIfForward_def by (intro history.keeps_rules keeps_intros)

lemma history_createFromInvitationTemplate [keeps_intros]:
  "keeps exch_history (createFromInvitationTemplate E i n x st d)"
  unfolding createFromInvitationTemplate_def by (intro history.keeps_rules keeps_intros)

lemma keeps_own [keeps_intros]:
  "(\<And>t. st = Own t \<Longrightarrow> keeps R (f t)) \<Longrightarrow> keeps R g \<Longrightarrow> keeps R h \<Longrightarrow>
   keeps R (case st of Undefined \<Rightarrow> g | Own t \<Rightarrow> f t | Inherited \<Rightarrow> h)"
  by (cases st) simp_all

lemma history_applyConnectionOutcome [keeps_intros]: "keeps exch_history (applyConnectionOutcome E c n data out)"
  unfolding applyConnectionOutcome_def Let_def
  by (intro history.keeps_rules keeps_intros history.store_preorder_axioms)

lemma history_observeExchange [keeps_intros]: "keeps exch_history (observeExchange E c data corr)"
  unfolding observeExchange_def Let_def by (intro history.keeps_rules keeps_intros history_exch_observe)

lemma history_dispatchTransition [keeps_intros]: "keeps exch_history (dispatchTransition E data m ev)"
  unfolding dispatchTransition_def by (intro history.keeps_rules keeps_intros)

lemma history_process_body [keeps_intros]: "keeps exch_history (process_body E n data corr out c)"
  unfolding process_body_def Let_def by (intro history.keeps_rules keeps_intros)

lemma history_process [keeps_intros]: "keeps exch_history (process E n data corr)"
  unfolding process_def by (intro history.keeps_rules keeps_intros)

lemma history_conn_reconcile [keeps_intros]:
  "keeps exch_history m \<Longrightarrow> keeps exch_history (conn_reconcile E t i k r fr m)"
  unfolding conn_reconcile_def by (intro history.keeps_rules keeps_intros history.store_preorder_axioms)

lemma keeps_json_string [keeps_intros]:
  "(\<And>x. keeps R (f x)) \<Longrightarrow> keeps R g \<Longrightarrow> keeps R (case v of Some (JStr x) \<Rightarrow> f x | _ \<Rightarrow> g)"
  by (auto split: option.split json.split)

lemma history_resolveRemoteIdentity [keeps_intros]: "keeps exch_history (resolveRemoteIdentity ports t i k)"
  unfolding resolveRemoteIdentity_def Let_def by (intro history.keeps_rules keeps_intros)

lemma history_resolveIdentity [keeps_intros]: "keeps exch_history (resolveIdentity E ports t i k)"
  unfolding resolveIdentity_def by (intro history.keeps_rules keeps_intros)

lemma keeps_connected [keeps_intros]: "keeps R m \<Longrightarrow> keeps R (awaitWhileConnected Connected m)"
  by (simp add: awaitWhileConnected_def)

lemma history_lift_read [keeps_intros]: "keeps exch_history (\<lambda>s. lift (f s) s)"
  by (rule history_same) (simp add: lift_def)

lemma history_getForTenant [keeps_intros]: "keeps exch_history (getForTenant E L t i)"
  unfolding getForTenant_def prepareForRead_def batch_summary_def applyViewed_def Let_def
  by (intro history.keeps_rules keeps_intros)

lemma history_assertCorrelation [keeps_intros]: "keeps exch_history (assertCorrelation E ports e remote)"
  unfolding assertCorrelation_def Let_def by (intro history.keeps_rules keeps_intros)

lemma history_synchronize [keeps_intros]: "keeps exch_history (synchronize E n e remote)"
  unfolding synchronize_def Let_def by (intro history.keeps_rules keeps_intros)

lemma history_reads [keeps_intros]:
  "keeps exch_history (exchange_get t i)" "keeps exch_history (exchange_resolve reg e)"
  "keeps exch_history (readRemote agent e)" "keeps exch_history (retainedIssueOperation e)"
  unfolding exchange_get_def exchange_resolve_def readRemote_def retainedIssueOperation_def
  by (intro history.keeps_rules)+

lemma history_reconcile: "keeps exch_history (exchange_reconcile E ports reg n t i)"
  unfolding exchange_reconcile_def by (intro history.keeps_rules keeps_intros)

lemma history_prepare: "keeps exch_history (issue_prepare E L ports reg n t i)"
  unfolding issue_prepare_def by (intro history.keeps_rules keeps_intros)

lemma history_submitted [keeps_intros]:
  "keeps exch_history (exch_setSubmission E t i Submitted)" "keeps exch_history (exch_setSubmission E t i Uncertain)"
  by (rule history_exch_setSubmission; simp)+

lemma history_confirm: "keeps exch_history (issue_confirm E ports n t i e issued)"
  unfolding issue_confirm_def by (intro history.keeps_rules keeps_intros)

lemma history_uncertain: "keeps exch_history (issue_uncertain E t i)"
  unfolding issue_uncertain_def by (intro history.keeps_rules keeps_intros)

section \<open>Claiming and releasing\<close>

definition claimed :: "uuid \<Rightarrow> uuid \<Rightarrow> db \<Rightarrow> bool" where
  "claimed T i s \<longleftrightarrow> (\<exists>e \<in> set (exchanges s). exch_tenantId e = T \<and> exch_id e = i \<and> exch_issueSubmission e \<noteq> NotSubmitted)"

lemma claimed_history:
  assumes "exch_history s s'" and "key_table exch_id (exchanges s)" and "claimed T i s"
  shows "claimed T i s'"
proof -
  from assms(3) obtain e where e: "e \<in> set (exchanges s)" "exch_tenantId e = T" "exch_id e = i" "exch_issueSubmission e \<noteq> NotSubmitted"
    by (auto simp: claimed_def)
  from assms(1,2) have "rows_step exch_later (\<lambda>_. False) exchanges s s'" by (simp add: exch_history_def)
  with e(1) obtain e' where "e' \<in> set (exchanges s')" "exch_later e e'" by (blast dest: rows_step_row)
  with e show ?thesis by (auto simp: claimed_def exch_later_def)
qed

lemma exch_lock_Inr: "exch_lock T i s = (Inr x, s') \<longleftrightarrow> x = exch_findForTenant T i s \<and> s' = s"
  by (auto simp: exch_lock_def run_Inr)

lemma found_exchange:
  assumes "exch_findForTenant T i s = Some e"
  shows "e \<in> set (exchanges s)" "exch_tenantId e = T" "exch_id e = i"
  using assms by (auto simp: exch_findForTenant_def dest: find_Some)

lemma exch_save_Inr:
  assumes "exch_save E e s = (Inr x, s')"
  shows "(\<exists>row \<in> set (exchanges s'). exch_id row = exch_id e \<and> exch_tenantId row = exch_tenantId e
      \<and> exch_issueSubmission row = exch_issueSubmission e)
    \<and> (key_table exch_id (exchanges s) \<longrightarrow> key_table exch_id (exchanges s'))"
proof -
  define row where "row = (if List.find (\<lambda>r. exch_id r = exch_id e) (exchanges s) = Some e then e
      else e\<lparr>exch_updatedAt := db_now E\<rparr>)"
  have "exchanges s' = save_row exch_id row (exchanges s)"
    using assms unfolding exch_save_def Let_def row_def [symmetric] by (auto simp: run_Inr put_exchanges_Inr)
  moreover have "row \<in> set (save_row exch_id row (exchanges s))"
    using find_save_row [of exch_id row "exchanges s"] by (auto dest: find_Some)
  moreover have "exch_id row = exch_id e" "exch_tenantId row = exch_tenantId e"
    "exch_issueSubmission row = exch_issueSubmission e" by (simp_all add: row_def)
  ultimately show ?thesis by (auto simp: key_table_save_row)
qed

text \<open>A claim that is to be submitted found the exchange unclaimed and leaves it claimed.\<close>

lemma issue_claim_submits:
  assumes "issue_claim E opId T i e remote s = (Inr (op, True), s')" and k: "key_table exch_id (exchanges s)"
  shows "\<not> claimed T i s \<and> claimed T i s' \<and> key_table exch_id (exchanges s')"
proof -
  from assms(1) obtain l op1 s1 x s2 where l: "exch_findForTenant T i s = Some l" "exch_issueSubmission l = NotSubmitted"
    and c: "createOperation E opId
                  \<lparr>in_tenantId = T, in_type = CREDENTIAL_ISSUE,
                   in_request = \<lparr>req_method = ''POST'',
                     req_path = ''/api/v1/tenants/'' @ T @ ''/credential-exchanges/'' @ i @ ''/issue'',
                     req_body = JObj []\<rparr>,
                   in_batchId = None, in_externalId = exch_externalId e, in_exchangeId = Some i\<rparr> s = (Inr op1, s1)"
    and sv: "exch_save E (l\<lparr>exch_issueSubmission := Submitting, exch_issueOperationId := Some (op_id op1)\<rparr>) s1 = (Inr x, s2)"
    and rest: "bindA (transitionStateIfForward E (op_id op1) OpProcessing [OpPending] None None) (\<lambda>_.
         bindA (domainAudit_emit E T AuditIssue ''credential-exchange'' i
                  [(''operation_id'', JStr (op_id op1))]) (\<lambda>_. ret (op1, True))) s2 = (Inr (op, True), s')"
    unfolding issue_claim_def
    by (simp only: bindA_Inr_iff [where m = "exch_lock T i"] bindA_Inr_iff [where m = "found e' x'" for e' x']
        exch_lock_Inr found_Inr bindA_Inr_iff [where m = "require b' e'" for b' e'] require_Inr
        bindA_Inr_iff [where m = "createOperation E' i' j'" for E' i' j']
        bindA_Inr_iff [where m = "exch_save E' j'" for E' j'] split: if_splits)
      (auto simp: bindA_Inr_iff ret_Inr)
  note lk = found_exchange [OF l(1)]
  have "exch_issueSubmission r = NotSubmitted" if "r \<in> set (exchanges s)" "exch_id r = i" for r
    using key_table_unique [OF k lk(1) that(1)] that(2) lk(3) l(2) by simp
  then have none: "\<not> claimed T i s" by (auto simp: claimed_def)
  have "key_table exch_id (exchanges s1)"
    using keepsD [OF history_createOperation c] k by (simp add: exch_history_def)
  with exch_save_Inr [OF sv] lk have k2: "key_table exch_id (exchanges s2)" and "claimed T i s2"
    by (auto simp: claimed_def)
  moreover have "keeps exch_history (bindA (transitionStateIfForward E j OpProcessing [OpPending] None None)
      (\<lambda>_. bindA (domainAudit_emit E T AuditIssue x i m) (\<lambda>_. ret y)))" for j x m and y :: "operation \<times> bool"
    by (intro history.keeps_rules keeps_intros)
  then have "exch_history s2 s'" using rest by (rule keepsD)
  ultimately show ?thesis using none claimed_history by (auto simp: exch_history_def)
qed

lemma issue_claim_waits:
  assumes "issue_claim E opId T i e remote s = (Inr (op, False), s')"
  shows "s' = s"
proof -
  have "keeps (=) (retainedIssueOperation l)" for l
    by (auto simp: keeps_def retainedIssueOperation_def bindA_def reads_def found_def require_def throw_def ret_def
        split: option.split)
  then have "s = t" if "retainedIssueOperation l s = (r, t)" for l r t
    using that keepsD by metis
  with assms show ?thesis
    by (auto simp: issue_claim_def bindA_Inr_iff exch_lock_Inr found_Inr ret_Inr split: if_splits)
qed

lemma issue_claim_step:
  assumes run: "transaction (\<lambda>_. issue_claim E opId T i e remote) s = (res, s')" and k: "key_table exch_id (exchanges s)"
  shows "(\<exists>op. res = Inr (op, True)) \<and> \<not> claimed T i s \<and> claimed T i s' \<and> key_table exch_id (exchanges s')
    \<or> (\<nexists>op. res = Inr (op, True)) \<and> s' = s"
proof (cases res)
  case (Inl e)
  with run show ?thesis by (auto simp: transaction_def split: prod.splits sum.splits)
next
  case (Inr p)
  then obtain op b where p: "res = Inr (op, b)" by (cases p) auto
  with run have "issue_claim E opId T i e remote s = (Inr (op, b), s')" by (simp add: transaction_Inr_iff)
  with p show ?thesis using issue_claim_submits [OF _ k] issue_claim_waits by (cases b) auto
qed

text \<open>The release keeps the key of the table; what it may change is the claim.\<close>

definition exch_keyed :: "db \<Rightarrow> db \<Rightarrow> bool" where
  "exch_keyed s s' \<longleftrightarrow> (key_table exch_id (exchanges s) \<longrightarrow> key_table exch_id (exchanges s'))"

interpretation keyed: store_preorder exch_keyed
  by unfold_locales (auto simp: exch_keyed_def)

lemma keyed_history: "keeps exch_history m \<Longrightarrow> keeps exch_keyed m"
  by (auto simp: keeps_def exch_history_def exch_keyed_def)

lemma keyed_exch_save: "keeps exch_keyed (exch_save E e)"
  by (rule keepsI)
    (auto simp: exch_keyed_def exch_save_def Let_def bindA_ret_snd put_exchanges_def throw_def modifies_def key_table_save_row)

lemma keyed_release: "keeps exch_keyed (transaction (\<lambda>_. issue_release E T i opId reason))"
  unfolding issue_release_def
  by (intro keyed.keeps_rules keeps_intros keyed_exch_save keyed_history [OF history_transitionStateIfForward]
      keyed_history [OF history_effects(1)])
    (auto simp: exch_lock_def intro: keyed.keeps_reads)

section \<open>Interleaved requests\<close>

text \<open>
  A request between two awaits. \<open>Refused\<close> is known not to have been submitted; \<open>Sent\<close> stands for every
  request whose submission reached the agent or may have reached it.
\<close>

datatype request =
    Idle
  | Prepared exchange RemoteExchange
  | Claimed uuid
  | Refused uuid string
  | Sent
  | Done

type_synonym requests = "nat \<Rightarrow> request"

text \<open>
  One step of one request, or of any handler that keeps the history of exchanges: webhooks,
  reconciliations, failed offers, and all of \<open>issue\<close> but its claim and its release. A request may stop
  anywhere. The agent accepts, refuses or leaves open each submission at will.
\<close>

inductive issue_step :: "uuid \<Rightarrow> uuid \<Rightarrow> db \<times> requests \<Rightarrow> db \<times> requests \<Rightarrow> bool" for T i where
  work: "exch_history s s' \<Longrightarrow> issue_step T i (s, q) (s', q)"
| prepare: "q r = Idle \<Longrightarrow> issue_step T i (s, q) (s, q(r := Prepared e remote))"
| claim: "q r = Prepared e remote \<Longrightarrow>
    transaction (\<lambda>_. issue_claim E opId T i e remote) s = (res, s') \<Longrightarrow>
    issue_step T i (s, q) (s', q(r := (case res of Inr (op, True) \<Rightarrow> Claimed (op_id op) | _ \<Rightarrow> Done)))"
| submit: "q r = Claimed opId \<Longrightarrow> issue_step T i (s, q) (s, q(r := Sent))"
| refused: "q r = Claimed opId \<Longrightarrow> issue_step T i (s, q) (s, q(r := Refused opId reason))"
| release: "q r = Refused opId reason \<Longrightarrow>
    transaction (\<lambda>_. issue_release E T i opId reason) s = (res, s') \<Longrightarrow>
    issue_step T i (s, q) (s', q(r := Done))"
| stop: "q r \<noteq> Sent \<Longrightarrow> issue_step T i (s, q) (s, q(r := Done))"

inductive issue_run :: "uuid \<Rightarrow> uuid \<Rightarrow> db \<times> requests \<Rightarrow> db \<times> requests \<Rightarrow> bool" for T i where
  start: "issue_run T i c c"
| more: "issue_run T i a b \<Longrightarrow> issue_step T i b c \<Longrightarrow> issue_run T i a c"

fun holds_claim :: "request \<Rightarrow> bool" where
  "holds_claim (Claimed _) = True"
| "holds_claim (Refused _ _) = True"
| "holds_claim Sent = True"
| "holds_claim _ = False"

text \<open>At most one request holds the claim, and the row says so.\<close>

definition one_claim :: "uuid \<Rightarrow> uuid \<Rightarrow> db \<times> requests \<Rightarrow> bool" where
  "one_claim T i c \<longleftrightarrow> key_table exch_id (exchanges (fst c))
     \<and> (\<forall>r. holds_claim (snd c r) \<longrightarrow> claimed T i (fst c))
     \<and> (\<forall>r r'. holds_claim (snd c r) \<longrightarrow> holds_claim (snd c r') \<longrightarrow> r = r')"

lemma one_claim_step:
  assumes "issue_step T i c c'" and "one_claim T i c"
  shows "one_claim T i c'"
  using assms
proof (induction rule: issue_step.induct)
  case (work s s' q)
  then show ?case by (auto simp: one_claim_def exch_history_def dest: claimed_history [rotated 2])
next
  case (claim q r e remote E opId s res s')
  then have k: "key_table exch_id (exchanges s)" by (simp add: one_claim_def)
  from issue_claim_step [OF claim.hyps(2) k] show ?case
  proof (elim disjE conjE exE)
    fix op assume "res = Inr (op, True)" "\<not> claimed T i s" "claimed T i s'" "key_table exch_id (exchanges s')"
    with claim.prems show ?thesis by (auto simp: one_claim_def split: if_splits)
  next
    assume "\<nexists>op. res = Inr (op, True)" "s' = s"
    then have "(case res of Inr (op, True) \<Rightarrow> Claimed (op_id op) | _ \<Rightarrow> Done) = Done"
      by (auto split: sum.split prod.split bool.split)
    with claim.prems \<open>s' = s\<close> show ?thesis by (auto simp: one_claim_def split: if_splits)
  qed
next
  case (submit q r opId s)
  then have "holds_claim (q r)" by simp
  with submit.prems show ?case by (auto simp: one_claim_def split: if_splits)
next
  case (refused q r opId s reason)
  then have "holds_claim (q r)" by simp
  with refused.prems show ?case by (auto simp: one_claim_def split: if_splits)
next
  case (release q r opId reason E s res s')
  from keepsD [OF keyed_release release.hyps(2)] release.prems have "key_table exch_id (exchanges s')"
    by (simp add: exch_keyed_def one_claim_def)
  moreover have "\<not> holds_claim ((q(r := Done)) r')" for r'
    using release by (auto simp: one_claim_def)
  ultimately show ?case by (simp add: one_claim_def)
qed (auto simp: one_claim_def split: if_splits)

lemma one_claim_run: "issue_run T i a c \<Longrightarrow> one_claim T i a \<Longrightarrow> one_claim T i c"
  by (induction rule: issue_run.induct) (auto intro: one_claim_step)

text \<open>
  C2 However many requests ask to issue the same exchange, and however they, webhooks and
  reconciliations interleave, at most one submission reaches the agent or may have reached it; and from
  then on the exchange is on record as submitted to, so no later request submits again.
\<close>

theorem issue_submitted_once:
  assumes "key_table exch_id (exchanges s)" and "issue_run T i (s, \<lambda>_. Idle) (s', q)"
    and "q r = Sent"
  shows "claimed T i s' \<and> (\<forall>r'. q r' = Sent \<longrightarrow> r' = r)"
proof -
  have "one_claim T i (s, \<lambda>_. Idle)" using assms(1) by (simp add: one_claim_def)
  from one_claim_run [OF assms(2) this] assms(3) show ?thesis
    unfolding one_claim_def by (metis fst_conv holds_claim.simps(3) snd_conv)
qed

definition requested_db :: db where
  "requested_db = empty_db\<lparr>exchanges := [sample_exchange (Ex RequestReceived)]\<rparr>"

definition requested_remote :: RemoteExchange where
  "requested_remote = \<lparr>rx_id = ''x1'', rx_externalId = None, rx_connectionId = Some ''b1'', rx_state = RequestReceived\<rparr>"

theorem issue_submitted_once_witness:
  "\<exists>s' q. issue_run ''t1'' ''e1'' (requested_db, \<lambda>_. Idle) (s', q) \<and> claimed ''t1'' ''e1'' s' \<and> {r. q r = Sent} = {0}"
proof -
  let ?e = "sample_exchange (Ex RequestReceived)" and ?q = "(\<lambda>_. Idle) :: requests"
  let ?run = "transaction (\<lambda>_. issue_claim sample_env ''o9'' ''t1'' ''e1'' ?e requested_remote) requested_db"
  have "(case fst ?run of Inr (op, submit) \<Rightarrow> submit | Inl _ \<Rightarrow> False)" by code_simp
  then obtain op s' where run: "?run = (Inr (op, True), s')" by (cases ?run) (auto split: sum.splits)
  have "issue_run ''t1'' ''e1'' (requested_db, ?q) (requested_db, ?q(0 := Prepared ?e requested_remote))"
    by (rule issue_run.more [OF issue_run.start]) (simp add: issue_step.prepare)
  moreover have "issue_step ''t1'' ''e1'' (requested_db, ?q(0 := Prepared ?e requested_remote))
      (s', (?q(0 := Prepared ?e requested_remote))(0 := Claimed (op_id op)))"
    using issue_step.claim [OF _ run, where r = 0 and q = "?q(0 := Prepared ?e requested_remote)"] by simp
  ultimately have "issue_run ''t1'' ''e1'' (requested_db, ?q) (s', ?q(0 := Claimed (op_id op)))"
    by (auto dest: issue_run.more)
  moreover have "issue_step ''t1'' ''e1'' (s', ?q(0 := Claimed (op_id op))) (s', (?q(0 := Claimed (op_id op)))(0 := Sent))"
    by (rule issue_step.submit) simp
  ultimately have all: "issue_run ''t1'' ''e1'' (requested_db, ?q) (s', ?q(0 := Sent))"
    by (auto dest: issue_run.more)
  have k: "key_table exch_id (exchanges requested_db)" by (simp add: key_table_def requested_db_def)
  define q where "q = ?q(0 := Sent)"
  then have q0: "q 0 = Sent" by simp
  from all have all: "issue_run ''t1'' ''e1'' (requested_db, ?q) (s', q)" by (simp only: q_def)
  from issue_submitted_once [OF k this q0] have c: "claimed ''t1'' ''e1'' s'" and "\<forall>r'. q r' = Sent \<longrightarrow> r' = 0"
    by (rule conjunct1, rule conjunct2)
  then have "{r. q r = Sent} = {0}" using q0 by auto
  with all c show ?thesis by blast
qed

section \<open>The service is made of these steps\<close>

lemma issue_run_trans: "issue_run T i b c \<Longrightarrow> issue_run T i a b \<Longrightarrow> issue_run T i a c"
  by (induction rule: issue_run.induct) (auto intro: issue_run.more)

lemma issue_run_work: "issue_run T i a (s, q) \<Longrightarrow> exch_history s s' \<Longrightarrow> issue_run T i a (s', q)"
  by (rule issue_run.more) (auto intro: issue_step.work)

lemma history_answer:
  "keeps exch_history (catchA (issue_confirm E ports n T i e issued) (\<lambda>_. issue_uncertain E T i))"
  by (intro history.keeps_catchA history_confirm history_uncertain)

lemma issue_submit_runs:
  assumes c: "q r = Claimed opId" and run: "issue_submit E ports agent n T i e opId s = (res, s')"
  shows "\<exists>ph. issue_run T i (s, q) (s', q(r := ph))"
proof -
  have sent: "issue_run T i (s, q) (s, q(r := Sent))"
    using c by (auto intro: issue_run.intros issue_step.submit)
  have kept: "keeps exch_history m \<Longrightarrow> m s = (res, s') \<Longrightarrow> issue_run T i (s, q) (s', q(r := Sent))" for m :: "unit service"
    by (rule issue_run_work [OF sent]) (rule keepsD)
  show ?thesis
  proof (cases "\<exists>reason. ag_issueCredential agent (the (exch_externalId e)) = Inl (AdapterErr (SubmissionRejected reason))")
    case True
    then obtain reason where a: "ag_issueCredential agent (the (exch_externalId e)) = Inl (AdapterErr (SubmissionRejected reason))"
      by blast
    obtain rt t where t: "transaction (\<lambda>_. issue_release E T i opId reason) s = (rt, t)" by fastforce
    from run a t have "s' = t" by (auto simp: issue_submit_def bindA_def throw_def split: sum.splits)
    let ?q = "q(r := Refused opId reason)"
    have "issue_run T i (s, q) (s, ?q)" using c by (auto intro: issue_run.intros issue_step.refused)
    moreover have "issue_step T i (s, ?q) (t, ?q(r := Done))" using t by (intro issue_step.release) simp_all
    ultimately have "issue_run T i (s, q) (t, q(r := Done))" by (auto dest: issue_run.more)
    with \<open>s' = t\<close> show ?thesis by blast
  next
    case False
    show ?thesis
    proof (cases "ag_issueCredential agent (the (exch_externalId e))")
      case (Inr issued)
      with run have "catchA (issue_confirm E ports n T i e issued) (\<lambda>_. issue_uncertain E T i) s = (res, s')"
        by (simp add: issue_submit_def)
      from kept [OF history_answer this] show ?thesis by (rule exI)
    next
      case (Inl x)
      with False have "issue_submit E ports agent n T i e opId = issue_uncertain E T i"
        by (auto simp: issue_submit_def split: err.split adapter_error.split)
      with run have "issue_uncertain E T i s = (res, s')" by simp
      from kept [OF history_uncertain this] show ?thesis by (rule exI)
    qed
  qed
qed

lemma issue_runs_steps:
  assumes "q r = Idle"
  shows "\<exists>ph. issue_run T i (s, q) (snd (issue E L ports reg n opId T i s), q(r := ph))"
proof -
  obtain rp s1 where p: "issue_prepare E L ports reg n T i s = (rp, s1)" by fastforce
  have w1: "issue_run T i (s, q) (s1, q)"
    using issue_run_work [OF issue_run.start] keepsD [OF history_prepare p] by blast
  show ?thesis
  proof (cases "\<exists>agent e remote. rp = Inr (Submit agent e remote)")
    case False
    with p have "snd (issue E L ports reg n opId T i s) = s1"
      by (auto simp: issue_def bindA_def ret_def split: sum.splits prepared.splits)
    with w1 assms show ?thesis by (intro exI [of _ Idle]) (simp add: fun_upd_idem)
  next
    case True
    then obtain agent e remote where rp: "rp = Inr (Submit agent e remote)" by blast
    let ?q1 = "q(r := Prepared e remote)"
    have w2: "issue_run T i (s, q) (s1, ?q1)"
      using w1 assms by (auto intro: issue_run.more issue_step.prepare)
    obtain rc s2 where c: "transaction (\<lambda>_. issue_claim E opId T i e remote) s1 = (rc, s2)" by fastforce
    let ?ph = "case rc of Inr (op, True) \<Rightarrow> Claimed (op_id op) | _ \<Rightarrow> Done"
    have "issue_step T i (s1, ?q1) (s2, ?q1(r := ?ph))" using c by (intro issue_step.claim) simp_all
    then have w3: "issue_run T i (s, q) (s2, q(r := ?ph))" using issue_run.more [OF w2] by simp
    let ?tail = "\<lambda>op submit. bindA (if submit then issue_submit E ports agent n T i e (op_id op) else ret ()) (\<lambda>_.
        getForTenant E L T (op_id op))"
    have whole: "issue E L ports reg n opId T i s =
        (case rc of Inl x \<Rightarrow> (Inl x, s2) | Inr (op, submit) \<Rightarrow> ?tail op submit s2)"
      using p rp c by (simp add: issue_def bindA_def split: sum.split prod.split)
    show ?thesis
    proof (cases "\<exists>op. rc = Inr (op, True)")
      case False
      then have ph: "?ph = Done" by (auto split: sum.split prod.split bool.split)
      have "exch_history s2 (snd (issue E L ports reg n opId T i s))"
      proof (cases rc)
        case (Inl x)
        then show ?thesis by (simp add: whole history.step_refl)
      next
        case (Inr o1)
        with False obtain op where "rc = Inr (op, False)" by (cases o1) auto
        then show ?thesis using keeps_snd [OF history_getForTenant] by (simp add: whole bindA_def ret_def)
      qed
      with w3 ph show ?thesis using issue_run_work by metis
    next
      case True
      then obtain op where rc: "rc = Inr (op, True)" by blast
      obtain rs s3 where sub: "issue_submit E ports agent n T i e (op_id op) s2 = (rs, s3)" by fastforce
      from issue_submit_runs [where q = "q(r := Claimed (op_id op))" and r = r, OF _ sub]
      obtain ph where "issue_run T i (s2, q(r := Claimed (op_id op))) (s3, q(r := ph))" by auto
      with w3 rc have w4: "issue_run T i (s, q) (s3, q(r := ph))" by (auto intro: issue_run_trans)
      have "exch_history s3 (snd (issue E L ports reg n opId T i s))"
        using sub rc keeps_snd [OF history_getForTenant]
        by (cases rs) (simp_all add: whole bindA_def history.step_refl)
      with w4 show ?thesis using issue_run_work by blast
    qed
  qed
qed


end
