(* ===== verification/Credential_Actions.thy ===== *)
theory Credential_Actions
  imports Protocol_State_Change
begin

text \<open>
  \<open>credential-action.service.ts\<close> and \<open>credential-revoke.service.ts\<close>: accepting, rejecting and revoking.
  Each claims an operation (the in-flight one, a new one, or the winner of the race for the unique
  index), calls the agent and settles the operation in one transaction with its notification. The agent
  and the registry that finds it are parameters.
\<close>

section \<open>Settling an operation\<close>

text \<open>The read after a lost transition goes to the pool, so it sees the committed store \<open>c\<close>.\<close>

definition current_operation :: "db \<Rightarrow> uuid \<Rightarrow> operation service" where
  "current_operation c i = found (NotFoundException ''Operation not found'') (op_findById i c)"

definition settle_failed ::
    "env \<Rightarrow> uuid \<Rightarrow> uuid \<Rightarrow> string \<Rightarrow> string \<Rightarrow> string \<Rightarrow> string \<Rightarrow> operation service" where
  "settle_failed E tenantId i event externalId code message =
     transaction (\<lambda>c.
       bindA (transitionStateIfForward E i OpFailed (operationStatesBelow OpFailed)
                (Some (JObj [(''code'', JStr code), (''message'', JStr message)])) None) (\<lambda>failed.
         case failed of
           None \<Rightarrow> current_operation c i
         | Some op \<Rightarrow>
             bindA (sendInTransaction E (WebhookDispatch tenantId event externalId (js_now E))) (\<lambda>_. ret op)))"

definition on_adapter_error :: "'a service \<Rightarrow> (adapter_error \<Rightarrow> 'a service) \<Rightarrow> 'a service" where
  "on_adapter_error m h = catchA m (\<lambda>e. case e of AdapterErr a \<Rightarrow> h a | _ \<Rightarrow> throw e)"

section \<open>Revocation\<close>

record RevocationResult =
  rv_credentialId :: string
  rv_revoked :: bool
  rv_revokedAt :: "string option"
  rv_error :: "string option"

type_synonym revoker = "string \<Rightarrow> err + RevocationResult"
type_synonym revoke_registry = "uuid \<Rightarrow> uuid \<Rightarrow> err + revoker"

definition revocation_json :: "RevocationResult \<Rightarrow> json" where
  "revocation_json r =
     JObj ([(''credentialId'', JStr (rv_credentialId r)), (''revoked'', JBool (rv_revoked r))]
       @ (case rv_revokedAt r of None \<Rightarrow> [] | Some d \<Rightarrow> [(''revokedAt'', JStr d)])
       @ (case rv_error r of None \<Rightarrow> [] | Some m \<Rightarrow> [(''error'', JStr m)]))"

definition REVOCABLE_FORMATS :: "CredentialDefinitionFormat list" where
  "REVOCABLE_FORMATS = [FmtAnoncreds]"

definition revoke_audit :: "env \<Rightarrow> uuid \<Rightarrow> uuid \<Rightarrow> OperationState \<Rightarrow> unit service" where
  "revoke_audit E tenantId credentialId state =
     domainAudit_emit E tenantId AuditRevoke ''credential'' credentialId
       [(''state'', JStr (operationState_value state))]"

definition not_revocable :: "uuid \<Rightarrow> uuid \<Rightarrow> err" where
  "not_revocable credentialId operationId =
     JsError (''Credential '' @ [CHR 0x27] @ credentialId @ [CHR 0x27] @ '' was not in a revocable state despite Operation ''
       @ [CHR 0x27] @ operationId @ [CHR 0x27] @ '' winning its own guard'')"

text \<open>The transaction that completes the operation and revokes the credential, or does neither.\<close>

definition settle_revoked ::
    "env \<Rightarrow> cursor_lib \<Rightarrow> uuid \<Rightarrow> uuid \<Rightarrow> string \<Rightarrow> uuid \<Rightarrow> RevocationResult \<Rightarrow> (operation \<times> bool) service" where
  "settle_revoked E L tenantId credentialId externalId i result =
     transaction (\<lambda>c.
       bindA (transitionStateIfForward E i OpCompleted (operationStatesBelow OpCompleted)
                (Some (revocation_json result)) None) (\<lambda>updated.
         case updated of
           None \<Rightarrow> bindA (current_operation c i) (\<lambda>existing. ret (existing, False))
         | Some op \<Rightarrow>
             bindA (to_timestamp (if js_truthy (rv_revokedAt result) then Date_parse L (the (rv_revokedAt result))
                                  else Some (js_now E))) (\<lambda>_.
             bindA (cred_updateStateIfForward E credentialId tenantId CredRevoked (credentialStatesBelow CredRevoked)
                      \<lparr>stamp_issuedAt = None,
                       stamp_revokedAt = (if js_truthy (rv_revokedAt result) then Date_parse L (the (rv_revokedAt result))
                                          else Some (js_now E)),
                       stamp_externalId = None\<rparr>) (\<lambda>credentialUpdated.
             bindA (require credentialUpdated (not_revocable credentialId i)) (\<lambda>_.
             bindA (sendInTransaction E (WebhookDispatch tenantId ''credential.revoked'' externalId (js_now E))) (\<lambda>_.
               ret (op, True)))))))"

definition executeRevoke ::
    "env \<Rightarrow> cursor_lib \<Rightarrow> revoke_registry \<Rightarrow> uuid \<Rightarrow> uuid \<Rightarrow> credential \<Rightarrow> operation \<Rightarrow> operation service" where
  "executeRevoke E L reg tenantId credentialId credential operation =
     (let externalId = the (cred_externalId credential);
          audited = (\<lambda>current. bindA (revoke_audit E tenantId credentialId (op_state current)) (\<lambda>_. ret current))
      in on_adapter_error
           (bindA (lift (reg tenantId (cred_connectorId credential))) (\<lambda>adapter.
            bindA (lift (adapter externalId)) (\<lambda>result.
              if \<not> rv_revoked result
              then bindA (settle_failed E tenantId (op_id operation) ''credential.revoke.failed'' externalId
                            ''REVOCATION_FAILED'' (case rv_error result of Some m \<Rightarrow> m | None \<Rightarrow> ''Revocation was not applied''))
                     audited
              else bindA (settle_revoked E L tenantId credentialId externalId (op_id operation) result) (\<lambda>(current, won).
                   bindA (revoke_audit E tenantId credentialId (op_state current)) (\<lambda>_.
                   bindA (whenA won (eventEmitter_emit ''credential.revoked'' tenantId externalId)) (\<lambda>_.
                     ret current))))))
           (\<lambda>a. bindA (settle_failed E tenantId (op_id operation) ''credential.revoke.failed'' externalId
                        (adapter_code a) (adapter_message a)) audited))"

definition credential_missing :: "uuid \<Rightarrow> err" where
  "credential_missing i = NotFoundException (''Credential '' @ [CHR 0x27] @ i @ [CHR 0x27] @ '' was not found'')"

definition revoke ::
    "env \<Rightarrow> cursor_lib \<Rightarrow> revoke_registry \<Rightarrow> uuid \<Rightarrow> uuid \<Rightarrow> uuid \<Rightarrow> operation service" where
  "revoke E L reg newId tenantId credentialId =
     bindA (reads (cred_findByIdForTenant credentialId tenantId)) (\<lambda>row.
     bindA (found (credential_missing credentialId) row) (\<lambda>credential.
     bindA (require (cred_format credential \<in> set REVOCABLE_FORMATS)
              (BadRequestException (''Credential format '' @ [CHR 0x27] @ format_value (cred_format credential)
                 @ [CHR 0x27] @ '' does not support revocation''))) (\<lambda>_.
     bindA (require (js_truthy (cred_externalId credential))
              (BadRequestException (''Credential '' @ [CHR 0x27] @ credentialId @ [CHR 0x27]
                 @ '' has no adapter-assigned identifier to revoke''))) (\<lambda>_.
     let externalId = the (cred_externalId credential); run = executeRevoke E L reg tenantId credentialId credential in
     bindA (reads (op_findByExternalIdForTenant tenantId externalId [CREDENTIAL_REVOKE])) (\<lambda>inFlight.
       case inFlight of
         Some op \<Rightarrow> if op_state op = OpProcessing then ret op else run op
       | None \<Rightarrow>
           bindA (catchA
             (bindA (createOperation E newId
                \<lparr>in_tenantId = tenantId, in_type = CREDENTIAL_REVOKE,
                 in_request = \<lparr>req_method = ''POST'',
                   req_path = ''/api/v1/tenants/'' @ tenantId @ ''/credentials/'' @ credentialId @ ''/revoke'',
                   req_body = JObj []\<rparr>,
                 in_batchId = None, in_externalId = Some externalId, in_exchangeId = None\<rparr>)
                (\<lambda>op. ret (op, True)))
             (\<lambda>e. if \<not> isUniqueConstraintViolation e None then throw e
                  else bindA (reads (op_findLatestByExternalIdAndTypeForTenant tenantId externalId [CREDENTIAL_REVOKE]))
                    (\<lambda>winner. case winner of
                        None \<Rightarrow> throw e
                      | Some w \<Rightarrow> ret (w, op_state w = OpPending)))) (\<lambda>(op, execute).
             if execute then run op else ret op))))))"

section \<open>Accepting and rejecting\<close>

datatype CredentialHolderAction = Accept | Reject

fun action_value :: "CredentialHolderAction \<Rightarrow> string" where
  "action_value Accept = ''accept''"
| "action_value Reject = ''reject''"

fun action_type :: "CredentialHolderAction \<Rightarrow> string" where
  "action_type Accept = CREDENTIAL_ACCEPT"
| "action_type Reject = CREDENTIAL_REJECT"

fun domainEventName :: "CredentialHolderAction \<Rightarrow> string" where
  "domainEventName Accept = ''credential.accepted''"
| "domainEventName Reject = ''credential.rejected''"

text \<open>An accepted exchange is its state and its properties as they are stored in the result.\<close>

record HolderAgent =
  ha_acceptOffer :: "string \<Rightarrow> err + (CredentialExchangeState \<times> json)"
  ha_rejectOffer :: "string \<Rightarrow> err + unit"

type_synonym holder_registry = "uuid \<Rightarrow> err + HolderAgent"

record ActionOutcome =
  ao_state :: OperationState
  ao_result :: json

definition completeAccept :: "HolderAgent \<Rightarrow> string \<Rightarrow> err + ActionOutcome" where
  "completeAccept adapter externalId =
     map_sum id (\<lambda>(state, properties).
       if state = ExchangeDone then \<lparr>ao_state = OpCompleted, ao_result = properties\<rparr>
       else \<lparr>ao_state = OpProcessing, ao_result = JNull\<rparr>) (ha_acceptOffer adapter externalId)"

definition completeReject :: "HolderAgent \<Rightarrow> string \<Rightarrow> err + ActionOutcome" where
  "completeReject adapter externalId =
     map_sum id (\<lambda>_. \<lparr>ao_state = OpCompleted, ao_result = JObj []\<rparr>) (ha_rejectOffer adapter externalId)"

definition holder_audit :: "env \<Rightarrow> uuid \<Rightarrow> uuid \<Rightarrow> CredentialHolderAction \<Rightarrow> OperationState \<Rightarrow> unit service" where
  "holder_audit E tenantId exchangeId action state =
     domainAudit_emit E tenantId AuditHold ''credential'' exchangeId
       [(''action'', JStr (action_value action)), (''state'', JStr (operationState_value state))]"

definition settle_action ::
    "env \<Rightarrow> CredentialHolderAction \<Rightarrow> uuid \<Rightarrow> string \<Rightarrow> uuid \<Rightarrow> ActionOutcome \<Rightarrow> (operation \<times> bool) service" where
  "settle_action E action tenantId externalId i outcome =
     transaction (\<lambda>c.
       bindA (transitionStateIfForward E i (ao_state outcome) (operationStatesBelow (ao_state outcome))
                (Some (ao_result outcome)) None) (\<lambda>updated.
         case updated of
           None \<Rightarrow> bindA (current_operation c i) (\<lambda>current. ret (current, False))
         | Some op \<Rightarrow>
             bindA (whenA (ao_state outcome = OpCompleted)
                      (sendInTransaction E (WebhookDispatch tenantId (domainEventName action) externalId (js_now E)))) (\<lambda>_.
               ret (op, True))))"

definition executeAction ::
    "env \<Rightarrow> holder_registry \<Rightarrow> CredentialHolderAction \<Rightarrow> uuid \<Rightarrow> uuid \<Rightarrow> string \<Rightarrow> operation \<Rightarrow> operation service" where
  "executeAction E reg action tenantId exchangeId externalId operation =
     on_adapter_error
       (bindA (lift (reg tenantId)) (\<lambda>adapter.
        bindA (lift (case action of Accept \<Rightarrow> completeAccept adapter externalId
                     | Reject \<Rightarrow> completeReject adapter externalId)) (\<lambda>outcome.
        bindA (settle_action E action tenantId externalId (op_id operation) outcome) (\<lambda>(completed, won).
        bindA (holder_audit E tenantId exchangeId action (op_state completed)) (\<lambda>_.
        bindA (whenA (won \<and> ao_state outcome = OpCompleted)
                 (eventEmitter_emit (domainEventName action) tenantId externalId)) (\<lambda>_.
          ret completed))))))
       (\<lambda>a. bindA (settle_failed E tenantId (op_id operation) (''credential.'' @ action_value action @ ''.failed'')
                    externalId (adapter_code a) (adapter_message a)) (\<lambda>current.
            bindA (holder_audit E tenantId exchangeId action (op_state current)) (\<lambda>_. ret current)))"

definition already_acted :: "uuid \<Rightarrow> operation \<Rightarrow> err" where
  "already_acted exchangeId winner =
     ConflictException (''Credential offer '' @ [CHR 0x27] @ exchangeId @ [CHR 0x27] @ '' was already ''
       @ (if op_type winner = CREDENTIAL_ACCEPT then ''accepted'' else ''rejected''))"

definition perform ::
    "env \<Rightarrow> holder_registry \<Rightarrow> uuid \<Rightarrow> CredentialHolderAction \<Rightarrow> uuid \<Rightarrow> uuid \<Rightarrow> operation service" where
  "perform E reg newId action tenantId exchangeId =
     bindA (reads (op_findByIdForTenant exchangeId tenantId)) (\<lambda>offer.
     bindA (require (case offer of None \<Rightarrow> False
                     | Some o1 \<Rightarrow> op_type o1 = CREDENTIAL_OFFER \<and> js_truthy (op_externalId o1))
              (NotFoundException (''Credential offer '' @ [CHR 0x27] @ exchangeId @ [CHR 0x27] @ '' was not found''))) (\<lambda>_.
     let externalId = the (op_externalId (the offer));
         run = executeAction E reg action tenantId exchangeId externalId in
     bindA (reads (op_findByExternalIdForTenant tenantId externalId [action_type action])) (\<lambda>inFlight.
       case inFlight of
         Some op \<Rightarrow> if op_state op = OpProcessing then ret op else run op
       | None \<Rightarrow>
           bindA (catchA
             (bindA (createOperation E newId
                \<lparr>in_tenantId = tenantId, in_type = action_type action,
                 in_request = \<lparr>req_method = ''POST'',
                   req_path = ''/api/v1/tenants/'' @ tenantId @ ''/credentials/'' @ exchangeId @ ''/'' @ action_value action,
                   req_body = JObj []\<rparr>,
                 in_batchId = None, in_externalId = Some externalId, in_exchangeId = None\<rparr>)
                (\<lambda>op. ret (op, True)))
             (\<lambda>e. if \<not> isUniqueConstraintViolation e None then throw e
                  else bindA (reads (op_findLatestByExternalIdAndTypeForTenant tenantId externalId
                               [CREDENTIAL_ACCEPT, CREDENTIAL_REJECT])) (\<lambda>winner.
                    case winner of
                      None \<Rightarrow> throw e
                    | Some w \<Rightarrow> if op_type w \<noteq> action_type action then throw (already_acted exchangeId w)
                               else ret (w, op_state w = OpPending)))) (\<lambda>(op, execute).
             if execute then run op else ret op))))"

section \<open>What settling changes\<close>

text \<open>A step that leaves credentials, jobs and events alone, and one that leaves operations alone too.\<close>

definition only_ops :: "db \<Rightarrow> db \<Rightarrow> bool" where
  "only_ops s s' \<longleftrightarrow> credentials s' = credentials s \<and> jobs s' = jobs s \<and> events s' = events s \<and> tenants s' = tenants s"

interpretation ops: store_preorder only_ops
  by unfold_locales (auto simp: only_ops_def)

lemma ops_put [simp]: "only_ops s (snd (put_operations t s))"
  by (auto simp: put_operations_def throw_def modifies_def only_ops_def)

lemma ops_small [keeps_intros]:
  "keeps only_ops (tenants_findById t)" "keeps only_ops (recordTerminalOutcome ty st)" "keeps only_ops (to_timestamp d)"
  by (rule keepsI; simp add: tenants_findById_def recordTerminalOutcome_def throw_def modifies_def
      ret_def found_def to_timestamp_def only_ops_def split: option.split)+

lemma ops_insert [keeps_intros]: "keeps only_ops (op_insert op)"
  by (rule keepsI) (simp add: op_insert_def bindA_ret_snd throw_def ops.step_refl)

lemma ops_transitionIfForward [keeps_intros]: "keeps only_ops (op_transitionIfForward E i t fr patch)"
  unfolding op_transitionIfForward_def
  by (intro ops.keeps_bindA ops_small keepsI) (simp add: Let_def bindA_ret_snd)

lemma ops_transitionStateIfForward [keeps_intros]: "keeps only_ops (transitionStateIfForward E i st fr r x)"
  unfolding transitionStateIfForward_def Let_def by (intro ops.keeps_rules keeps_intros)

lemma ops_createOperation [keeps_intros]: "keeps only_ops (createOperation E i input)"
  unfolding createOperation_def by (intro ops.keeps_rules keeps_intros)

text \<open>The queued notifications; audit records are queued best-effort beside them.\<close>

definition dispatched :: "db \<Rightarrow> job list" where
  "dispatched s = filter (\<lambda>j. case j of WebhookDispatch _ _ _ _ \<Rightarrow> True | _ \<Rightarrow> False) (jobs s)"

lemma audit_effect:
  assumes "domainAudit_emit E t a rt ri m s = (r, s')"
  shows "r = Inr ()" "dispatched s' = dispatched s" "credentials s' = credentials s" "events s' = events s"
    "operations s' = operations s"
  using assms
  by (auto simp: domainAudit_emit_def catchA_def sendInTransaction_def modifies_def throw_def ret_def dispatched_def
      split: if_splits)

lemma send_Inr: "sendInTransaction E j s = (Inr x, s') \<longleftrightarrow> enqueue_ok E j \<and> s' = s\<lparr>jobs := jobs s @ [j]\<rparr>"
  by (auto simp: sendInTransaction_def modifies_def throw_def)

text \<open>
  How an attempt to settle operation \<open>i\<close> may end. \<open>Lost\<close>: another handler settled it, and its row is
  returned; \<open>Moved\<close>: it was moved to the state of the returned row, with these notifications and events,
  and the credentials are as \<open>cs\<close>.
\<close>

definition lost_to :: "uuid \<Rightarrow> db \<Rightarrow> operation \<Rightarrow> db \<Rightarrow> bool" where
  "lost_to i s cur s' \<longleftrightarrow> op_findById i s = Some cur \<and> op_state cur \<noteq> OpPending \<and> operations s' = operations s
     \<and> credentials s' = credentials s \<and> dispatched s' = dispatched s \<and> events s' = events s"

definition moved_to ::
    "uuid \<Rightarrow> OperationState \<Rightarrow> job list \<Rightarrow> domain_event list \<Rightarrow> db \<Rightarrow> operation \<Rightarrow> db \<Rightarrow> bool" where
  "moved_to i state js evs s cur s' \<longleftrightarrow> op_findById i s' = Some cur \<and> op_state cur = state
     \<and> (\<exists>old. op_findById i s = Some old \<and> op_state old \<in> set (operationStatesBelow state))
     \<and> dispatched s' = dispatched s @ js \<and> events s' = events s @ evs"

lemma transition_moves:
  assumes k: "key_table op_id (operations s)"
    and run: "transitionStateIfForward E i state (operationStatesBelow state) r x s = (Inr (Some op), s')"
  shows "moved_to i state [] [] s op s'" "credentials s' = credentials s" "jobs s' = jobs s"
proof -
  have o: "only_ops s s'" using keepsD [OF ops_transitionStateIfForward run] .
  then show "credentials s' = credentials s" "jobs s' = jobs s" by (simp_all add: only_ops_def)
  from transitionStateIfForward_cases [OF k run] o show "moved_to i state [] [] s op s'"
    by (auto simp: moved_to_def only_ops_def dispatched_def)
qed

lemma transition_lost:
  assumes k: "key_table op_id (operations s)" and st: "state \<noteq> OpPending"
    and run: "transitionStateIfForward E i state (operationStatesBelow state) r x s = (Inr None, s')"
    and cur: "op_findById i s = Some cur"
  shows "lost_to i s cur s'"
  using transitionStateIfForward_cases [OF k run] st cur
  by (cases state) (auto simp: lost_to_def operationStatesBelow_def OperationState_values_def Let_def)

lemma current_operation_Inr: "current_operation c i s = (Inr x, s') \<longleftrightarrow> op_findById i c = Some x \<and> s' = s"
  by (auto simp: current_operation_def found_Inr)

lemma settle_failed_cases:
  assumes k: "key_table op_id (operations s)" and run: "settle_failed E T i ev x code msg s = (Inr cur, s')"
  shows "lost_to i s cur s'
    \<or> moved_to i OpFailed [WebhookDispatch T ev x (js_now E)] [] s cur s' \<and> credentials s' = credentials s"
proof -
  from run obtain failed t where tr: "transitionStateIfForward E i OpFailed (operationStatesBelow OpFailed)
      (Some (JObj [(''code'', JStr code), (''message'', JStr msg)])) None s = (Inr failed, t)"
    and rest: "(case failed of None \<Rightarrow> current_operation s i
         | Some op \<Rightarrow> bindA (sendInTransaction E (WebhookDispatch T ev x (js_now E))) (\<lambda>_. ret op)) t = (Inr cur, s')"
    by (auto simp: settle_failed_def transaction_Inr_iff bindA_Inr_iff)
  show ?thesis
  proof (cases failed)
    case None
    with tr have "t = s" by (auto dest: transitionStateIfForward_lost)
    with None rest transition_lost [OF k _ tr [unfolded None]] show ?thesis by (auto simp: current_operation_Inr)
  next
    case (Some op)
    note m = transition_moves [OF k tr [unfolded Some]]
    from rest Some have "cur = op" "s' = t\<lparr>jobs := jobs t @ [WebhookDispatch T ev x (js_now E)]\<rparr>"
      by (auto simp: run_Inr send_Inr)
    with m show ?thesis by (auto simp: moved_to_def op_findById_def dispatched_def)
  qed
qed

lemma settle_failed_Inl: "settle_failed E T i ev x code msg s = (Inl e, s') \<Longrightarrow> s' = s"
  by (auto simp: settle_failed_def transaction_def split: prod.splits sum.splits)

text \<open>The credential was issued and is revoked; no other credential changed.\<close>

definition revoked_in :: "uuid \<Rightarrow> uuid \<Rightarrow> db \<Rightarrow> db \<Rightarrow> bool" where
  "revoked_in T i s s' \<longleftrightarrow>
     (\<exists>c c'. cred_findByIdForTenant i T s = Some c \<and> cred_state c = CredIssued
        \<and> cred_findByIdForTenant i T s' = Some c' \<and> cred_state c' = CredRevoked)
     \<and> filter (\<lambda>c. cred_id c \<noteq> i) (credentials s') = filter (\<lambda>c. cred_id c \<noteq> i) (credentials s)"

lemma filter_update_others: "(\<And>r. Q r \<Longrightarrow> \<not> P r \<and> \<not> P (f r)) \<Longrightarrow> filter P (update_where Q f t) = filter P t"
  by (induction t) (auto simp: update_where_def)

lemma cred_revoked:
  assumes k: "key_table cred_id (credentials s)"
    and run: "cred_updateStateIfForward E i T CredRevoked (credentialStatesBelow CredRevoked) st s = (Inr True, s')"
    and st: "stamp_externalId st = None"
  shows "revoked_in T i s s'" "jobs s' = jobs s" "events s' = events s" "operations s' = operations s"
proof -
  let ?p = "(E, i, T, CredRevoked, credentialStatesBelow CredRevoked, st)"
  from run have s': "s' = s\<lparr>credentials := update_where (cred_hit ?p) (cred_upd ?p) (credentials s)\<rparr>"
    and "\<exists>c \<in> set (credentials s). cred_hit ?p c"
    by (simp_all add: cred_updateStateIfForward_Inr put_credentials_Inr)
  then obtain c where c: "c \<in> set (credentials s)" and hit: "cred_hit ?p c" by blast
  from hit have ci: "cred_id c = i" "cred_tenantId c = T" "cred_state c = CredIssued"
    by (simp_all add: cred_hit_def credentialStatesBelow_def)
  have f: "cred_findByIdForTenant i T s = Some c"
    unfolding cred_findByIdForTenant_def using ci by (intro find_key [OF k c]) simp_all
  have "cred_findByIdForTenant i T s' = Some (cred_upd ?p c)"
    unfolding cred_findByIdForTenant_def s'
    by (simp, subst find_update_where)
       (use f hit in \<open>auto simp: cred_findByIdForTenant_def cred_upd_def apply_stamp_def\<close>)
  moreover have "filter (\<lambda>c. cred_id c \<noteq> i) (credentials s') = filter (\<lambda>c. cred_id c \<noteq> i) (credentials s)"
    unfolding s' by (simp, rule filter_update_others) (simp add: cred_hit_def cred_upd_def apply_stamp_def)
  ultimately show "revoked_in T i s s'"
    using f ci by (auto simp: revoked_in_def cred_upd_def apply_stamp_def)
  show "jobs s' = jobs s" "events s' = events s" "operations s' = operations s" by (simp_all add: s')
qed

lemma settle_revoked_cases:
  assumes k: "key_table op_id (operations s)" "key_table cred_id (credentials s)"
    and run: "settle_revoked E L T ci x i result s = (Inr (cur, won), s')"
  shows "if won then moved_to i OpCompleted [WebhookDispatch T ''credential.revoked'' x (js_now E)] [] s cur s' \<and> revoked_in T ci s s'
    else lost_to i s cur s'"
proof -
  let ?at = "if js_truthy (rv_revokedAt result) then Date_parse L (the (rv_revokedAt result)) else Some (js_now E)"
  from run obtain upd t where tr: "transitionStateIfForward E i OpCompleted (operationStatesBelow OpCompleted)
      (Some (revocation_json result)) None s = (Inr upd, t)"
    and rest: "(case upd of None \<Rightarrow> bindA (current_operation s i) (\<lambda>existing. ret (existing, False))
         | Some op \<Rightarrow> bindA (to_timestamp ?at) (\<lambda>_.
             bindA (cred_updateStateIfForward E ci T CredRevoked (credentialStatesBelow CredRevoked)
                      \<lparr>stamp_issuedAt = None, stamp_revokedAt = ?at, stamp_externalId = None\<rparr>) (\<lambda>credentialUpdated.
             bindA (require credentialUpdated (not_revocable ci i)) (\<lambda>_.
             bindA (sendInTransaction E (WebhookDispatch T ''credential.revoked'' x (js_now E))) (\<lambda>_.
               ret (op, True)))))) t = (Inr (cur, won), s')"
    unfolding settle_revoked_def transaction_Inr_iff bindA_Inr_iff [where m = "transitionStateIfForward a b c d e f" for a b c d e f]
    by blast
  show ?thesis
  proof (cases upd)
    case None
    with tr have "t = s" by (auto dest: transitionStateIfForward_lost)
    with None rest transition_lost [OF k(1) _ tr [unfolded None]] show ?thesis
      by (auto simp: run_Inr current_operation_Inr)
  next
    case (Some op)
    note m = transition_moves [OF k(1) tr [unfolded Some]]
    from rest Some obtain u where cu: "cred_updateStateIfForward E ci T CredRevoked (credentialStatesBelow CredRevoked)
           \<lparr>stamp_issuedAt = None, stamp_revokedAt = ?at, stamp_externalId = None\<rparr> t = (Inr True, u)"
      and s': "cur = op" "won" "s' = u\<lparr>jobs := jobs u @ [WebhookDispatch T ''credential.revoked'' x (js_now E)]\<rparr>"
      by (auto simp: run_Inr send_Inr)
    have kt: "key_table cred_id (credentials t)" using k(2) m(2) by simp
    note r = cred_revoked [OF kt cu]
    have "revoked_in T ci s s'" using r(1) m(2) s'(3) by (simp add: revoked_in_def cred_findByIdForTenant_def)
    with s' r m show ?thesis by (auto simp: moved_to_def op_findById_def dispatched_def)
  qed
qed

lemma settle_revoked_Inl: "settle_revoked E L T ci x i result s = (Inl e, s') \<Longrightarrow> s' = s"
  by (auto simp: settle_revoked_def transaction_def split: prod.splits sum.splits)

section \<open>A revocation is all or nothing\<close>

text \<open>The three ways a call that returned can have gone.\<close>

definition revoke_done :: "env \<Rightarrow> uuid \<Rightarrow> uuid \<Rightarrow> string \<Rightarrow> uuid \<Rightarrow> db \<Rightarrow> operation \<Rightarrow> db \<Rightarrow> bool" where
  "revoke_done E T ci x i s cur s' \<longleftrightarrow>
     lost_to i s cur s'
     \<or> moved_to i OpFailed [WebhookDispatch T ''credential.revoke.failed'' x (js_now E)] [] s cur s'
         \<and> credentials s' = credentials s
     \<or> moved_to i OpCompleted [WebhookDispatch T ''credential.revoked'' x (js_now E)]
           [\<lparr>ev_name = ''credential.revoked'', ev_tenantId = T, ev_externalId = x\<rparr>] s cur s'
         \<and> revoked_in T ci s s'"

lemma audited_run:
  assumes "bindA (domainAudit_emit E tn a rt ri m) f s = (r, s')"
  obtains t where "f () t = (r, s')" "dispatched t = dispatched s" "credentials t = credentials s"
    "events t = events s" "operations t = operations s"
proof -
  obtain ra t where a: "domainAudit_emit E tn a rt ri m s = (ra, t)" by fastforce
  note e = audit_effect [OF a]
  from assms a e(1) have "f () t = (r, s')" by (simp add: bindA_def)
  from that [OF this e(2-5)] show thesis .
qed

lemma lost_to_later:
  "lost_to i s cur t \<Longrightarrow> dispatched s' = dispatched t \<Longrightarrow> credentials s' = credentials t \<Longrightarrow> events s' = events t \<Longrightarrow>
   operations s' = operations t \<Longrightarrow> lost_to i s cur s'"
  by (simp add: lost_to_def)

lemma moved_to_later:
  "moved_to i state js evs s cur t \<Longrightarrow> dispatched s' = dispatched t \<Longrightarrow> events s' = events t @ evs' \<Longrightarrow>
   operations s' = operations t \<Longrightarrow> moved_to i state js (evs @ evs') s cur s'"
  by (auto simp: moved_to_def op_findById_def)

lemma revoked_in_later: "revoked_in T i s t \<Longrightarrow> credentials s' = credentials t \<Longrightarrow> revoked_in T i s s'"
  by (simp add: revoked_in_def cred_findByIdForTenant_def)

lemma settle_failed_done:
  assumes k: "key_table op_id (operations s)"
    and run: "bindA (settle_failed E T i ''credential.revoke.failed'' x code msg)
       (\<lambda>cur. bindA (revoke_audit E T ci (op_state cur)) (\<lambda>_. ret cur)) s = (r, s')"
  shows "case r of Inl _ \<Rightarrow> s' = s | Inr cur \<Rightarrow> revoke_done E T ci x i s cur s'"
proof -
  obtain rf t where f: "settle_failed E T i ''credential.revoke.failed'' x code msg s = (rf, t)" by fastforce
  show ?thesis
  proof (cases rf)
    case (Inl e)
    with f run settle_failed_Inl show ?thesis by (auto simp: bindA_def)
  next
    case (Inr cur)
    with f run have "bindA (revoke_audit E T ci (op_state cur)) (\<lambda>_. ret cur) t = (r, s')" by (simp add: bindA_def)
    then obtain u where u: "ret cur u = (r, s')" "dispatched u = dispatched t" "credentials u = credentials t"
      "events u = events t" "operations u = operations t" unfolding revoke_audit_def by (rule audited_run)
    from u(1) have r: "r = Inr cur" "s' = u" by (simp_all add: ret_def)
    from settle_failed_cases [OF k f [unfolded Inr]] show ?thesis
    proof (elim disjE conjE)
      assume "lost_to i s cur t"
      from lost_to_later [OF this u(2-5)] r show ?thesis by (simp add: revoke_done_def)
    next
      assume m: "moved_to i OpFailed [WebhookDispatch T ''credential.revoke.failed'' x (js_now E)] [] s cur t"
        and c: "credentials t = credentials s"
      from moved_to_later [OF m u(2), of "[]"] u c r show ?thesis by (simp add: revoke_done_def)
    qed
  qed
qed

lemma revoke_answer_done:
  assumes k: "key_table op_id (operations s)" "key_table cred_id (credentials s)"
    and run: "bindA (settle_revoked E L T ci x i result) (\<lambda>(current, won).
         bindA (revoke_audit E T ci (op_state current)) (\<lambda>_.
         bindA (whenA won (eventEmitter_emit ''credential.revoked'' T x)) (\<lambda>_. ret current))) s = (r, s')"
  shows "case r of Inl _ \<Rightarrow> s' = s | Inr cur \<Rightarrow> revoke_done E T ci x i s cur s'"
proof -
  obtain rf t where f: "settle_revoked E L T ci x i result s = (rf, t)" by fastforce
  show ?thesis
  proof (cases rf)
    case (Inl e)
    with f run settle_revoked_Inl show ?thesis by (auto simp: bindA_def)
  next
    case (Inr p)
    then obtain cur won where rf: "rf = Inr (cur, won)" by (cases p) auto
    with f run have "bindA (revoke_audit E T ci (op_state cur)) (\<lambda>_.
         bindA (whenA won (eventEmitter_emit ''credential.revoked'' T x)) (\<lambda>_. ret cur)) t = (r, s')" by (simp add: bindA_def)
    then obtain u where u: "bindA (whenA won (eventEmitter_emit ''credential.revoked'' T x)) (\<lambda>_. ret cur) u = (r, s')"
      "dispatched u = dispatched t" "credentials u = credentials t"
      "events u = events t" "operations u = operations t" unfolding revoke_audit_def by (rule audited_run)
    note c = settle_revoked_cases [OF k f [unfolded rf]]
    show ?thesis
    proof (cases won)
      case False
      with u(1) have r: "r = Inr cur" "s' = u" by (simp_all add: whenA_def bindA_def ret_def)
      from False c have "lost_to i s cur t" by simp
      from lost_to_later [OF this u(2-5)] r show ?thesis by (simp add: revoke_done_def)
    next
      case True
      with u(1) have r: "r = Inr cur"
        and s': "s' = u\<lparr>events := events u @ [\<lparr>ev_name = ''credential.revoked'', ev_tenantId = T, ev_externalId = x\<rparr>]\<rparr>"
        by (simp_all add: whenA_def eventEmitter_emit_def modifies_def bindA_def ret_def)
      from True c have m: "moved_to i OpCompleted [WebhookDispatch T ''credential.revoked'' x (js_now E)] [] s cur t"
        and v: "revoked_in T ci s t" by simp_all
      have "dispatched s' = dispatched t" "credentials s' = credentials t" "operations s' = operations t"
        "events s' = events t @ [\<lparr>ev_name = ''credential.revoked'', ev_tenantId = T, ev_externalId = x\<rparr>]"
        using u s' by (simp_all add: dispatched_def)
      with moved_to_later [OF m] revoked_in_later [OF v] r show ?thesis by (simp add: revoke_done_def)
    qed
  qed
qed

lemma executeRevoke_done:
  assumes k: "key_table op_id (operations s)" "key_table cred_id (credentials s)"
    and run: "executeRevoke E L reg T ci c op s = (r, s')"
  shows "case r of Inl _ \<Rightarrow> s' = s | Inr cur \<Rightarrow> revoke_done E T ci (the (cred_externalId c)) (op_id op) s cur s'"
proof -
  let ?x = "the (cred_externalId c)" and ?audited = "\<lambda>cur. bindA (revoke_audit E T ci (op_state cur)) (\<lambda>_. ret cur)"
  let ?body = "bindA (lift (reg T (cred_connectorId c))) (\<lambda>adapter.
            bindA (lift (adapter ?x)) (\<lambda>result.
              if \<not> rv_revoked result
              then bindA (settle_failed E T (op_id op) ''credential.revoke.failed'' ?x
                            ''REVOCATION_FAILED'' (case rv_error result of Some m \<Rightarrow> m | None \<Rightarrow> ''Revocation was not applied''))
                     ?audited
              else bindA (settle_revoked E L T ci ?x (op_id op) result) (\<lambda>(current, won).
                   bindA (revoke_audit E T ci (op_state current)) (\<lambda>_.
                   bindA (whenA won (eventEmitter_emit ''credential.revoked'' T ?x)) (\<lambda>_. ret current)))))"
  let ?fail = "\<lambda>a. bindA (settle_failed E T (op_id op) ''credential.revoke.failed'' ?x (adapter_code a) (adapter_message a)) ?audited"
  obtain rb t where b: "?body s = (rb, t)" by fastforce
  have body: "case rb of Inl _ \<Rightarrow> t = s | Inr cur \<Rightarrow> revoke_done E T ci ?x (op_id op) s cur t"
  proof (cases "reg T (cred_connectorId c)")
    case (Inl e)
    with b show ?thesis by (auto simp: throw_def)
  next
    case adapter: (Inr adapter)
    show ?thesis
    proof (cases "adapter ?x")
      case (Inl e)
      with b adapter show ?thesis by (auto simp: throw_def)
    next
      case (Inr result)
      show ?thesis
      proof (cases "rv_revoked result")
        case True
        with b adapter Inr have "bindA (settle_revoked E L T ci ?x (op_id op) result) (\<lambda>(current, won).
                   bindA (revoke_audit E T ci (op_state current)) (\<lambda>_.
                   bindA (whenA won (eventEmitter_emit ''credential.revoked'' T ?x)) (\<lambda>_. ret current))) s = (rb, t)"
          by simp
        then show ?thesis by (rule revoke_answer_done [OF k])
      next
        case False
        with b adapter Inr have "bindA (settle_failed E T (op_id op) ''credential.revoke.failed'' ?x
                ''REVOCATION_FAILED'' (case rv_error result of Some m \<Rightarrow> m | None \<Rightarrow> ''Revocation was not applied''))
              ?audited s = (rb, t)" by simp
        then show ?thesis by (rule settle_failed_done [OF k(1)])
      qed
    qed
  qed
  have whole: "executeRevoke E L reg T ci c op = on_adapter_error ?body ?fail"
    by (simp only: executeRevoke_def Let_def)
  show ?thesis
  proof (cases "\<exists>a. rb = Inl (AdapterErr a)")
    case True
    then obtain a where a: "rb = Inl (AdapterErr a)" by blast
    with body have "t = s" by simp
    with run whole b a have "?fail a s = (r, s')" by (simp add: on_adapter_error_def catchA_def)
    then show ?thesis by (rule settle_failed_done [OF k(1)])
  next
    case False
    then have "r = rb" "s' = t"
      using run whole b
      by (auto simp: on_adapter_error_def catchA_def throw_def split: sum.splits err.splits)
    with body show ?thesis by (cases rb) simp_all
  qed
qed

text \<open>Claiming an operation adds at most a pending row and changes nothing else.\<close>

definition op_claims :: "db \<Rightarrow> db \<Rightarrow> bool" where
  "op_claims s s' \<longleftrightarrow> only_ops s s'
     \<and> (key_table op_id (operations s) \<longrightarrow> key_table op_id (operations s'))"

interpretation claims: store_preorder op_claims
  by unfold_locales (auto simp: op_claims_def intro: ops.step_refl ops.step_trans)

lemma claimed_or:
  assumes "catchA (bindA m (\<lambda>op. ret (op, True))) h s = (Inr (op, b), t)"
    and "\<And>e u. h e u = (Inr (op, b), t) \<Longrightarrow> b \<or> P op"
  shows "b \<or> P op"
  using assms by (auto simp: catchA_def bindA_def ret_def split: prod.splits sum.splits)

lemma claims_insert [keeps_intros]: "keeps op_claims (op_insert op)"
proof (rule keepsI)
  fix s :: db
  have "only_ops s (snd (op_insert op s))" by (rule keeps_snd [OF ops_insert])
  moreover have "key_table op_id (operations (snd (op_insert op s)))" if "key_table op_id (operations s)"
    using that
    by (auto simp: op_insert_def throw_def bindA_ret_snd put_operations_def modifies_def key_table_def
        op_findById_def find_None)
  ultimately show "op_claims s (snd (op_insert op s))" by (simp add: op_claims_def)
qed

lemma claims_createOperation [keeps_intros]: "keeps op_claims (createOperation E i input)"
proof -
  have "keeps op_claims (tenants_findById t)" "keeps op_claims (to_timestamp d)" for t d
    by (rule keepsI; simp add: tenants_findById_def to_timestamp_def found_def throw_def ret_def claims.step_refl split: option.split)+
  then show ?thesis unfolding createOperation_def by (intro claims.keeps_rules keeps_intros)
qed

definition revoke_summary :: "env \<Rightarrow> uuid \<Rightarrow> uuid \<Rightarrow> string \<Rightarrow> db \<Rightarrow> operation \<Rightarrow> db \<Rightarrow> bool" where
  "revoke_summary E T ci x s cur s' \<longleftrightarrow>
     op_state cur = OpCompleted \<and> op_findById (op_id cur) s' = Some cur \<and> revoked_in T ci s s'
       \<and> dispatched s' = dispatched s @ [WebhookDispatch T ''credential.revoked'' x (js_now E)]
       \<and> events s' = events s @ [\<lparr>ev_name = ''credential.revoked'', ev_tenantId = T, ev_externalId = x\<rparr>]
     \<or> op_state cur = OpFailed \<and> op_findById (op_id cur) s' = Some cur \<and> credentials s' = credentials s
       \<and> dispatched s' = dispatched s @ [WebhookDispatch T ''credential.revoke.failed'' x (js_now E)]
       \<and> events s' = events s
     \<or> op_state cur \<noteq> OpPending \<and> credentials s' = credentials s \<and> dispatched s' = dispatched s \<and> events s' = events s"

lemma revoke_done_summary:
  assumes "only_ops s t" and "revoke_done E T ci x i t cur s'"
  shows "revoke_summary E T ci x s cur s'"
proof -
  have t: "credentials t = credentials s" "dispatched t = dispatched s" "events t = events s"
    using assms(1) by (simp_all add: only_ops_def dispatched_def)
  have "op_id cur = i" if "op_findById i s' = Some cur" using that by (auto simp: op_findById_def dest: find_Some)
  moreover have "revoked_in T ci s s'" if "revoked_in T ci t s'"
    using that t by (simp add: revoked_in_def cred_findByIdForTenant_def)
  ultimately show ?thesis
    using assms(2) t by (auto simp: revoke_done_def revoke_summary_def lost_to_def moved_to_def)
qed

lemma executeRevoke_summary:
  assumes "op_claims s t" and "key_table op_id (operations s)" "key_table cred_id (credentials s)"
    and "executeRevoke E L reg T ci c op t = (r, s')"
  shows "case r of Inl _ \<Rightarrow> only_ops s s' | Inr cur \<Rightarrow> revoke_summary E T ci (the (cred_externalId c)) s cur s'"
proof -
  have t: "key_table op_id (operations t)" "key_table cred_id (credentials t)" "only_ops s t"
    using assms(1-3) by (simp_all add: op_claims_def only_ops_def)
  from executeRevoke_done [OF t(1,2) assms(4)] revoke_done_summary [OF t(3)] t(3) show ?thesis
    by (cases r) auto
qed

text \<open>
  C13 Revoking is all or nothing. If a call returns with its operation completed by this call, the
  credential was issued before and is revoked now, no other credential changed, and exactly one
  notification and one event say so. If it returns with a failed operation, the credential is untouched
  and exactly one notification says so. In every other case, errors included, no credential changes and
  nobody is told anything.
\<close>

theorem revoke_all_or_nothing:
  assumes k: "key_table op_id (operations s)" "key_table cred_id (credentials s)"
    and c: "cred_findByIdForTenant ci T s = Some c"
    and run: "revoke E L reg newId T ci s = (r, s')"
  shows "case r of Inl _ \<Rightarrow> credentials s' = credentials s \<and> dispatched s' = dispatched s \<and> events s' = events s
    | Inr cur \<Rightarrow> revoke_summary E T ci (the (cred_externalId c)) s cur s'"
proof -
  let ?x = "the (cred_externalId c)" and ?run = "executeRevoke E L reg T ci c"
  let ?ok = "\<lambda>r s'. case r of Inl _ \<Rightarrow> only_ops s s' | Inr cur \<Rightarrow> revoke_summary E T ci ?x s cur s'"
  let ?claim = "catchA (bindA (createOperation E newId
                \<lparr>in_tenantId = T, in_type = CREDENTIAL_REVOKE,
                 in_request = \<lparr>req_method = ''POST'',
                   req_path = ''/api/v1/tenants/'' @ T @ ''/credentials/'' @ ci @ ''/revoke'',
                   req_body = JObj []\<rparr>,
                 in_batchId = None, in_externalId = Some ?x, in_exchangeId = None\<rparr>)
                (\<lambda>op. ret (op, True)))
             (\<lambda>e. if \<not> isUniqueConstraintViolation e None then throw e
                  else bindA (reads (op_findLatestByExternalIdAndTypeForTenant T ?x [CREDENTIAL_REVOKE]))
                    (\<lambda>winner. case winner of None \<Rightarrow> throw e | Some w \<Rightarrow> ret (w, op_state w = OpPending)))"
  have kept: "?ok (Inr op) t" if "op_claims s t" "op_state op \<noteq> OpPending" for op :: operation and t
    using that by (simp add: revoke_summary_def op_claims_def only_ops_def dispatched_def)
  have exec: "?ok r t" if "op_claims s u" "?run op u = (r, t)" for op u r t
    using executeRevoke_summary [OF that(1) k that(2)] .
  have "keeps op_claims ?claim" by (intro claims.keeps_rules keeps_intros)
  then have claim: "op_claims s t" if "?claim s = (q, t)" for q t using that by (rule keepsD)
  have settled: "b \<or> op_state op \<noteq> OpPending" if "?claim s = (Inr (op, b), t)" for op b t
    using that by (rule claimed_or) (auto simp: run_Inr reads_def bindA_def ret_def throw_def split: if_splits option.splits)
  have "?ok r s'"
  proof (cases "cred_format c \<in> set REVOCABLE_FORMATS \<and> js_truthy (cred_externalId c)")
    case False
    with c have "\<exists>e. revoke E L reg newId T ci s = throw e s"
      by (cases "cred_format c \<in> set REVOCABLE_FORMATS") (auto simp: revoke_def found_def require_def)
    with run show ?thesis by (auto simp: throw_def ops.step_refl)
  next
    case ok: True
    show ?thesis
    proof (cases "op_findByExternalIdForTenant T ?x [CREDENTIAL_REVOKE] s")
      case (Some op)
      with run c ok have "(if op_state op = OpProcessing then ret op else ?run op) s = (r, s')"
        by (simp add: revoke_def found_def require_def Let_def)
      with kept [OF claims.step_refl] exec [OF claims.step_refl] show ?thesis by (auto simp: ret_def split: if_splits)
    next
      case None
      obtain q t where q: "?claim s = (q, t)" by fastforce
      from run c ok None have rest: "bindA ?claim (\<lambda>(op, execute). if execute then ?run op else ret op) s = (r, s')"
        by (simp add: revoke_def found_def require_def Let_def)
      note t = claim [OF q]
      show ?thesis
      proof (cases q)
        case (Inl e)
        with rest q t show ?thesis by (auto simp: bindA_def op_claims_def)
      next
        case (Inr p)
        then obtain op b where ob: "q = Inr (op, b)" by (cases p) auto
        with rest q have "(if b then ?run op else ret op) t = (r, s')" by (simp add: bindA_def)
        with settled [OF q [unfolded ob]] kept [OF t] exec [OF t] show ?thesis by (auto simp: ret_def split: if_splits)
      qed
    qed
  qed
  then show ?thesis by (auto simp: only_ops_def dispatched_def split: sum.splits)
qed

definition issued_db :: db where
  "issued_db = empty_db\<lparr>credentials := [sample_credential ''c1'' CredIssued ''o1'']\<rparr>"

definition answers_revoked :: revoke_registry where
  "answers_revoked = (\<lambda>_ _. Inr (\<lambda>x. Inr \<lparr>rv_credentialId = x, rv_revoked = True, rv_revokedAt = None, rv_error = None\<rparr>))"

theorem revoke_all_or_nothing_witness:
  "\<exists>cur s'. revoke sample_env sample_lib answers_revoked ''o9'' ''t1'' ''c1'' issued_db = (Inr cur, s')
     \<and> op_state cur = OpCompleted \<and> revoke_summary sample_env ''t1'' ''c1'' ''x1'' issued_db cur s'"
proof -
  let ?run = "revoke sample_env sample_lib answers_revoked ''o9'' ''t1'' ''c1'' issued_db"
  have c: "cred_findByIdForTenant ''c1'' ''t1'' issued_db = Some (sample_credential ''c1'' CredIssued ''o1'')" by code_simp
  have st: "map_sum (\<lambda>_. ()) op_state (fst ?run) = Inr OpCompleted" by code_simp
  then obtain cur where cur: "fst ?run = Inr cur" "op_state cur = OpCompleted" by (cases "fst ?run") auto
  then have run: "?run = (Inr cur, snd ?run)" by (metis prod.collapse)
  have "revoke_summary sample_env ''t1'' ''c1'' ''x1'' issued_db cur (snd ?run)"
    using revoke_all_or_nothing [OF _ _ c run]
    by (simp add: key_table_def issued_db_def empty_db_def sample_credential_def)
  with run cur show ?thesis by blast
qed

section \<open>A revocation that cannot settle\<close>

text \<open>Only the agent raises adapter errors, so no write of a settling transaction is taken for one.\<close>

definition not_adapter :: "'a service \<Rightarrow> bool" where
  "not_adapter m \<longleftrightarrow> (\<forall>s a s'. m s \<noteq> (Inl (AdapterErr a), s'))"

lemma not_adapter_basic [simp]:
  "not_adapter (ret x)" "not_adapter (reads f)" "not_adapter (modifies g)"
  "not_adapter (throw e) \<longleftrightarrow> (\<forall>a. e \<noteq> AdapterErr a)"
  by (simp_all add: not_adapter_def action_defs)

lemma not_adapter_bind:
  assumes "not_adapter m" and "\<And>x. not_adapter (f x)"
  shows "not_adapter (bindA m f)"
  using assms by (auto simp: not_adapter_def bindA_def split: prod.splits sum.splits)

lemma not_adapter_transaction:
  assumes "\<And>c. not_adapter (body c)"
  shows "not_adapter (transaction body)"
  using assms by (auto simp: not_adapter_def transaction_def split: prod.splits sum.splits)

lemma not_adapter_at:
  assumes "\<And>s. not_adapter (m s)"
  shows "not_adapter (\<lambda>s. m s s)"
  using assms by (auto simp: not_adapter_def)

lemma not_adapter_small [simp]:
  "not_adapter (found (NotFoundException m) r)" "not_adapter (to_timestamp d)" "not_adapter (put_operations t)"
  "not_adapter (put_credentials u)" "not_adapter (sendInTransaction E j)" "not_adapter (require b (not_revocable x y))"
  "not_adapter (tenants_findById i)"
  by (auto simp: found_def to_timestamp_def put_operations_def put_credentials_def sendInTransaction_def
      require_def not_revocable_def split: option.splits)
     (auto simp: tenants_findById_def not_adapter_def found_def action_defs split: option.splits)

lemma settle_revoked_not_adapter: "not_adapter (settle_revoked E L T ci x i result)"
proof -
  have "not_adapter (op_transitionIfForward E j t fr p)" for j t fr p
    unfolding op_transitionIfForward_def Let_def
    by (rule not_adapter_bind, simp, rule not_adapter_at, rule not_adapter_bind) simp_all
  then have tr: "not_adapter (transitionStateIfForward E j st fr r y)" for j st fr r y
    unfolding transitionStateIfForward_def Let_def
    by (auto intro!: not_adapter_bind simp: recordTerminalOutcome_def)
  have up: "not_adapter (cred_updateStateIfForward E j t st fr stamp)" for j t st fr stamp
    unfolding cred_updateStateIfForward_def Let_def
    by (rule not_adapter_at, rule not_adapter_bind) simp_all
  show ?thesis
    unfolding settle_revoked_def
    by (auto intro!: not_adapter_transaction not_adapter_bind tr up simp: current_operation_def split: option.split)
qed

lemma bindA_Inl: "m s = (Inl e, t) \<Longrightarrow> bindA m f s = (Inl e, t)"
  by (simp add: bindA_def)

lemma on_adapter_error_other: "m s = (Inl e, t) \<Longrightarrow> \<forall>a. e \<noteq> AdapterErr a \<Longrightarrow> on_adapter_error m h s = (Inl e, t)"
  by (simp add: on_adapter_error_def catchA_def throw_def split: err.split)

lemma settle_revoked_refused:
  assumes k: "key_table op_id (operations s)" "key_table cred_id (credentials s)"
    and c: "cred_findByIdForTenant ci T s = Some c" "cred_state c \<noteq> CredIssued"
    and op: "op_findById i s = Some op" "op_state op = OpPending"
  shows "\<exists>e. settle_revoked E L T ci x i result s = (Inl e, s) \<and> (\<forall>a. e \<noteq> AdapterErr a)"
proof -
  obtain q t where q: "settle_revoked E L T ci x i result s = (q, t)" by fastforce
  show ?thesis
  proof (cases q)
    case (Inl e)
    with q settle_revoked_Inl [of E L T ci x i result s e t] settle_revoked_not_adapter [of E L T ci x i result]
    show ?thesis by (auto simp: not_adapter_def)
  next
    case (Inr p)
    with q obtain cur won where run: "settle_revoked E L T ci x i result s = (Inr (cur, won), t)" by (cases p) simp
    from settle_revoked_cases [OF k run] c op have False
      by (auto simp: lost_to_def revoked_in_def split: if_splits)
    then show ?thesis ..
  qed
qed


definition revoked_db :: db where
  "revoked_db = empty_db\<lparr>credentials := [sample_credential ''c1'' CredRevoked ''o1''],
     operations := [sample_operation ''o2'' CREDENTIAL_REVOKE OpPending]\<rparr>"


section \<open>Accepting excludes rejecting\<close>

lemma index_ok_unique:
  assumes "index_ok P key t" "a \<in> set t" "b \<in> set t" "P a" "P b" "key a = key b"
  shows "a = b"
  using assms unfolding index_ok_def distinct_map inj_on_def by simp

lemma index_ok_append:
  assumes "a \<in> set t" "P a" "P b" "key a = key b"
  shows "\<not> index_ok P key (t @ [b])"
proof -
  have "key b \<in> key ` set (filter P t)" using assms by (auto intro: rev_image_eqI)
  with assms show ?thesis by (simp add: index_ok_def)
qed

lemma action_type_holder: "action_type a = CREDENTIAL_ACCEPT \<or> action_type a = CREDENTIAL_REJECT"
  by (cases a) simp_all

text \<open>An insert that would be a second in-flight action on the same offer is refused.\<close>

lemma createOperation_excluded:
  assumes w: "w \<in> set (operations s)" "holder_action_key w"
    and key: "op_key w = (in_tenantId input, in_externalId input)" "in_type input = action_type a"
  shows "\<exists>e. createOperation E newId input s = (Inl e, s)"
proof -
  obtain r t where run: "createOperation E newId input s = (r, t)" by fastforce
  show ?thesis
  proof (cases r)
    case (Inl e)
    with run show ?thesis
      by (auto simp: createOperation_def bindA_def tenants_findById_def to_timestamp_def op_insert_def put_operations_def
          action_defs split: option.splits sum.splits prod.splits if_splits)
  next
    case (Inr op)
    with run have put: "put_operations (operations s @ [op]) s = (Inr (), t)" and op: "op_state op = OpPending"
      "op_type op = in_type input" "op_key op = (in_tenantId input, in_externalId input)"
      by (auto simp: createOperation_def run_Inr op_insert_Inr op_key_def)
    have "op_externalId op = op_externalId w" using op(3) key(1) by (simp add: op_key_def)
    then have "holder_action_key op"
      using w(2) op(1,2) key(2) action_type_holder [of a] by (simp add: holder_action_key_def in_flight_def)
    then have "\<not> index_ok holder_action_key op_key (operations s @ [op])"
      using w key op by (intro index_ok_append) simp_all
    with put show ?thesis by (simp add: put_operations_Inr)
  qed
qed

text \<open>
  C37 Accepting and rejecting an offer exclude each other. While an action of one kind is in flight, a
  call for the other kind never reaches the agent and changes nothing: whatever agent is registered, it
  has the same answer, an error or an earlier action of its own kind that has finished.
\<close>

theorem holder_actions_exclusive:
  assumes idx: "index_ok holder_action_key op_key (operations s)"
    and offer: "op_findByIdForTenant ex T s = Some o1" "op_externalId o1 = Some x"
    and w: "w \<in> set (operations s)" "holder_action_key w" "op_key w = (T, Some x)" "op_type w \<noteq> action_type a"
  shows "\<exists>r. (\<forall>reg. perform E reg newId a T ex s = (r, s))
    \<and> (case r of Inl _ \<Rightarrow> True | Inr op \<Rightarrow> op_type op = action_type a \<and> \<not> in_flight op)"
proof -
  have only: "\<not> in_flight r" if "r \<in> set (operations s)" "op_tenantId r = T" "op_externalId r = Some x"
    "op_type r = action_type a" for r
    using index_ok_unique [OF idx w(1) that(1) w(2)] that w action_type_holder [of a]
    by (auto simp: holder_action_key_def op_key_def)
  have none: "op_findByExternalIdForTenant T x [action_type a] s = None"
    using only by (auto simp: op_findByExternalIdForTenant_def find_latest_None in_flight_def)
  define input where "input = \<lparr>in_tenantId = T, in_type = action_type a,
       in_request = \<lparr>req_method = ''POST'',
         req_path = ''/api/v1/tenants/'' @ T @ ''/credentials/'' @ ex @ ''/'' @ action_value a, req_body = JObj []\<rparr>,
       in_batchId = None, in_externalId = Some x, in_exchangeId = None\<rparr>"
  obtain e where e: "createOperation E newId input s = (Inl e, s)"
    using createOperation_excluded [OF w(1,2), of input a] w(3) by (auto simp: input_def)
  from e have stop: "bindA (catchA (bindA (createOperation E newId input) f) h) g s = bindA (h e) g s"
    for f :: "operation \<Rightarrow> (operation \<times> bool) service" and h and g :: "operation \<times> bool \<Rightarrow> operation service"
    by (simp add: catchA_def bindA_def)
  let ?latest = "op_findLatestByExternalIdAndTypeForTenant T x [CREDENTIAL_ACCEPT, CREDENTIAL_REJECT] s"
  let ?r = "if \<not> isUniqueConstraintViolation e None then Inl e
    else case ?latest of None \<Rightarrow> Inl e
         | Some v \<Rightarrow> if op_type v \<noteq> action_type a then Inl (already_acted ex v) else Inr v"
  have fin: "\<not> in_flight v" if "?latest = Some v" "op_type v = action_type a" for v
    using that only by (auto simp: op_findLatestByExternalIdAndTypeForTenant_def dest: find_latest_Some)
  show ?thesis
  proof (cases "op_type o1 = CREDENTIAL_OFFER \<and> js_truthy (Some x)")
    case False
    with offer have "perform E reg newId a T ex s = throw (NotFoundException (''Credential offer '' @ [CHR 0x27] @ ex
        @ [CHR 0x27] @ '' was not found'')) s" for reg by (auto simp: perform_def require_def)
    then show ?thesis by (intro exI [where x = "Inl _"]) (simp add: throw_def)
  next
    case True
    let ?handle = "\<lambda>e. if \<not> isUniqueConstraintViolation e None then throw e
      else bindA (reads (op_findLatestByExternalIdAndTypeForTenant T x [CREDENTIAL_ACCEPT, CREDENTIAL_REJECT])) (\<lambda>winner.
        case winner of None \<Rightarrow> throw e
        | Some w \<Rightarrow> if op_type w \<noteq> action_type a then throw (already_acted ex w) else ret (w, op_state w = OpPending))"
    have "perform E reg newId a T ex s = bindA (catchA (bindA (createOperation E newId input) (\<lambda>op. ret (op, True))) ?handle)
        (\<lambda>(op, execute). if execute then executeAction E reg a T ex x op else ret op) s" for reg
      using True offer none by (simp add: perform_def require_def Let_def input_def cong: if_cong)
    then have "perform E reg newId a T ex s = (?r, s)" for reg
      unfolding stop using fin
      by (cases ?latest; cases "isUniqueConstraintViolation e None") (auto simp: action_defs in_flight_def)
    moreover have "case ?r of Inl _ \<Rightarrow> True | Inr op \<Rightarrow> op_type op = action_type a \<and> \<not> in_flight op"
      using fin by (auto split: option.splits)
    ultimately show ?thesis by blast
  qed
qed

definition accepting_db :: db where
  "accepting_db = empty_db\<lparr>operations := [sample_operation ''o1'' CREDENTIAL_OFFER OpProcessing,
     sample_operation ''o2'' CREDENTIAL_ACCEPT OpPending]\<rparr>"

theorem holder_actions_exclusive_witness:
  "\<exists>r. (\<forall>reg. perform sample_env reg ''o9'' Reject ''t1'' ''o1'' accepting_db = (r, accepting_db))
    \<and> (case r of Inl _ \<Rightarrow> True | Inr op \<Rightarrow> op_type op = action_type Reject \<and> \<not> in_flight op)"
proof (rule holder_actions_exclusive)
  show "index_ok holder_action_key op_key (operations accepting_db)"
    "op_findByIdForTenant ''o1'' ''t1'' accepting_db = Some (sample_operation ''o1'' CREDENTIAL_OFFER OpProcessing)"
    "op_externalId (sample_operation ''o1'' CREDENTIAL_OFFER OpProcessing) = Some ''x1''"
    "holder_action_key (sample_operation ''o2'' CREDENTIAL_ACCEPT OpPending)"
    "op_key (sample_operation ''o2'' CREDENTIAL_ACCEPT OpPending) = (''t1'', Some ''x1'')"
    "op_type (sample_operation ''o2'' CREDENTIAL_ACCEPT OpPending) \<noteq> action_type Reject" by code_simp+
  show "sample_operation ''o2'' CREDENTIAL_ACCEPT OpPending \<in> set (operations accepting_db)"
    by (simp add: accepting_db_def)
qed

end
