(* ===== verification/Tenant_User.thy ===== *)
theory Tenant_User
  imports Operation_Service
begin

text \<open>
  \<open>tenant-user/\<close>: the members of a tenant, their roles and invitations. The repository's queries, the
  service that invites, changes, removes and links users, and the two promises the service makes:
  a tenant does not lose its last owner, active owner or active administrator, and only an owner
  touches owners. Column text is compared as ASCII.
\<close>

section \<open>Repository\<close>

definition put_tenant_users :: "tenant_user list \<Rightarrow> unit service" where
  "put_tenant_users t =
     (if \<not> index_ok (\<lambda>u. tu_externalUserId u \<noteq> None) (\<lambda>u. (tu_tenantId u, tu_externalUserId u)) t
      then throw (QueryFailed ''23505'' ''uq_tenant_user_external_user'')
      else if \<not> index_ok (\<lambda>_. True) (\<lambda>u. (tu_tenantId u, tu_email u)) t
      then throw (QueryFailed ''23505'' ''uq_tenant_user_tenant_email'')
      else modifies (\<lambda>s. s\<lparr>tenant_users := t\<rparr>))"

definition tu_insert :: "tenant_user \<Rightarrow> tenant_user service" where
  "tu_insert u = (\<lambda>s.
     if \<exists>r \<in> set (tenant_users s). tu_id r = tu_id u then throw (QueryFailed ''23505'' ''tenant_user_pkey'') s
     else if \<not> (\<exists>t \<in> set (tenants s). ten_id t = tu_tenantId u) then throw (QueryFailed ''23503'' ''fk_tenant_user_tenant'') s
     else bindA (put_tenant_users (tenant_users s @ [u])) (\<lambda>_. ret u) s)"

definition tu_findById :: "uuid \<Rightarrow> db \<Rightarrow> tenant_user option" where
  "tu_findById i s = List.find (\<lambda>u. tu_id u = i) (tenant_users s)"

definition tu_findByTenantAndId :: "uuid \<Rightarrow> uuid \<Rightarrow> db \<Rightarrow> tenant_user option" where
  "tu_findByTenantAndId tenantId i s =
     List.find (\<lambda>u. tu_id u = i \<and> tu_tenantId u = tenantId) (tenant_users s)"

definition countByTenantAndRole :: "uuid \<Rightarrow> TenantUserRole \<Rightarrow> db \<Rightarrow> nat" where
  "countByTenantAndRole tenantId role s =
     count_where (\<lambda>u. tu_tenantId u = tenantId \<and> tu_role u = role) (tenant_users s)"

definition countActiveOwnersByTenant :: "uuid \<Rightarrow> db \<Rightarrow> nat" where
  "countActiveOwnersByTenant tenantId s =
     count_where (\<lambda>u. tu_tenantId u = tenantId \<and> tu_role u = RoleOwner \<and> tu_status u = UserActive)
       (tenant_users s)"

definition countActiveAdministratorsByTenant :: "uuid \<Rightarrow> db \<Rightarrow> nat" where
  "countActiveAdministratorsByTenant tenantId s =
     count_where (\<lambda>u. tu_tenantId u = tenantId \<and> tu_role u \<in> {RoleOwner, RoleAdmin} \<and> tu_status u = UserActive)
       (tenant_users s)"

record TenantUserPage =
  tupage_items :: "tenant_user list"
  tupage_nextCursor :: "Cursor option"
  tupage_hasMore :: bool

fun contains :: "string \<Rightarrow> string \<Rightarrow> bool" where
  "contains pat [] = (pat = [])"
| "contains pat (c # cs) = (take (length pat) (c # cs) = pat \<or> contains pat cs)"

definition tu_sort_key :: "tenant_user \<Rightarrow> int \<times> string" where
  "tu_sort_key u = (tu_createdAt u, tu_id u)"

text \<open>The search term is escaped before it is put into the pattern, so it is matched literally.\<close>

definition search_matches :: "string option \<Rightarrow> tenant_user \<Rightarrow> bool" where
  "search_matches search u =
     (let normalizedSearch = (case search of None \<Rightarrow> '''' | Some v \<Rightarrow> map js_lower (js_trim v))
      in normalizedSearch = ''''
         \<or> contains normalizedSearch (map js_lower (tu_email u))
         \<or> (case tu_displayName u of None \<Rightarrow> False | Some n \<Rightarrow> contains normalizedSearch (map js_lower n)))"

definition tu_findPageForTenant ::
    "cursor_lib \<Rightarrow> uuid \<Rightarrow> nat \<Rightarrow> Cursor option \<Rightarrow> string option \<Rightarrow> db \<Rightarrow> err + TenantUserPage" where
  "tu_findPageForTenant L tenantId limit cursor search s =
     (let page = (\<lambda>after.
             let rows = take (limit + 1) (sort_key tu_sort_key
                          (filter (\<lambda>u. tu_tenantId u = tenantId \<and> after u \<and> search_matches search u) (tenant_users s)));
                 hasMore = length rows > limit;
                 items = (if hasMore then take limit rows else rows)
             in \<lparr>tupage_items = items,
                 tupage_nextCursor =
                   (if hasMore \<and> items \<noteq> []
                    then Some \<lparr>cur_createdAt = toISOString L (to_js (tu_createdAt (last items))),
                               cur_id = tu_id (last items)\<rparr>
                    else None),
                 tupage_hasMore = hasMore\<rparr>)
      in case cursor of
           None \<Rightarrow> Inr (page (\<lambda>_. True))
         | Some cur \<Rightarrow>
             (case cast_timestamptz L (cur_createdAt cur) of
                None \<Rightarrow> Inl (QueryFailed ''22007'' '''')
              | Some t \<Rightarrow> Inr (page (\<lambda>u. (t, cur_id cur) < tu_sort_key u))))"

definition tu_findByExternalUserId :: "string \<Rightarrow> db \<Rightarrow> tenant_user list" where
  "tu_findByExternalUserId externalUserId s =
     sort_key tu_createdAt (filter (\<lambda>u. tu_externalUserId u = Some externalUserId) (tenant_users s))"

definition tenant_live :: "db \<Rightarrow> uuid \<Rightarrow> bool" where
  "tenant_live s tenantId = list_ex (\<lambda>t. ten_id t = tenantId \<and> ten_deletedAt t = None) (tenants s)"

definition tu_findActiveByExternalUserId :: "string \<Rightarrow> db \<Rightarrow> tenant_user list" where
  "tu_findActiveByExternalUserId externalUserId s =
     sort_key tu_sort_key (filter (\<lambda>u. tenant_live s (tu_tenantId u)
        \<and> tu_externalUserId u = Some externalUserId \<and> tu_status u = UserActive) (tenant_users s))"

definition tu_findByTenantAndExternalUserId :: "uuid \<Rightarrow> string \<Rightarrow> db \<Rightarrow> tenant_user option" where
  "tu_findByTenantAndExternalUserId tenantId externalUserId s =
     List.find (\<lambda>u. tu_tenantId u = tenantId \<and> tu_externalUserId u = Some externalUserId) (tenant_users s)"

definition tu_findByTenantAndEmail :: "uuid \<Rightarrow> string \<Rightarrow> db \<Rightarrow> tenant_user option" where
  "tu_findByTenantAndEmail tenantId email s =
     List.find (\<lambda>u. tu_tenantId u = tenantId \<and> tu_email u = email) (tenant_users s)"

definition findUnclaimedInvitesByEmail :: "string \<Rightarrow> db \<Rightarrow> tenant_user list" where
  "findUnclaimedInvitesByEmail email s =
     (let normalizedEmail = map js_lower (js_trim email)
      in sort_key tu_sort_key (filter (\<lambda>u. tenant_live s (tu_tenantId u)
           \<and> map js_lower (tu_email u) = normalizedEmail \<and> tu_externalUserId u = None
           \<and> tu_status u = UserInvited) (tenant_users s)))"

definition claimInvitedById :: "env \<Rightarrow> uuid \<Rightarrow> string \<Rightarrow> tenant_user option service" where
  "claimInvitedById E i externalUserId = (\<lambda>s.
     let hit = (\<lambda>u. tu_id u = i \<and> tu_externalUserId u = None \<and> tu_status u = UserInvited)
     in bindA (put_tenant_users (update_where hit
                 (\<lambda>u. u\<lparr>tu_externalUserId := Some externalUserId, tu_status := UserActive,
                        tu_updatedAt := db_now E\<rparr>) (tenant_users s)))
          (\<lambda>_. if count_where hit (tenant_users s) = 0 then ret None else reads (tu_findById i)) s)"

definition tu_save :: "env \<Rightarrow> tenant_user \<Rightarrow> tenant_user service" where
  "tu_save E u = (\<lambda>s.
     let row = (if tu_findById (tu_id u) s = Some u then u else u\<lparr>tu_updatedAt := db_now E\<rparr>)
     in bindA (put_tenant_users (save_row tu_id row (tenant_users s))) (\<lambda>_. ret row) s)"

definition tu_delete :: "uuid \<Rightarrow> unit service" where
  "tu_delete i = modifies (\<lambda>s. s\<lparr>tenant_users := filter (\<lambda>u. tu_id u \<noteq> i) (tenant_users s)\<rparr>)"

section \<open>Service\<close>

definition isAdministrator :: "TenantUserRole \<Rightarrow> bool" where
  "isAdministrator role \<longleftrightarrow> role = RoleOwner \<or> role = RoleAdmin"

definition assertMayManageOwner :: "tenant_user option \<Rightarrow> bool \<Rightarrow> unit service" where
  "assertMayManageOwner caller touchesOwner =
     require (\<not> (touchesOwner \<and> (case caller of None \<Rightarrow> False | Some c \<Rightarrow> tu_role c \<noteq> RoleOwner)))
       (ForbiddenException ''Only an owner can grant the owner role or act on an owner.'')"

definition findCurrentCaller :: "uuid \<Rightarrow> uuid \<Rightarrow> tenant_user \<Rightarrow> tenant_user option \<Rightarrow> tenant_user option service" where
  "findCurrentCaller tenantId targetId target callerTenantUser =
     (case callerTenantUser of
        None \<Rightarrow> ret None
      | Some stamped \<Rightarrow>
          bindA (if tu_id stamped = targetId then ret (Some target)
                 else reads (tu_findByTenantAndId tenantId (tu_id stamped))) (\<lambda>caller.
          bindA (require (case caller of None \<Rightarrow> False
                          | Some c \<Rightarrow> tu_status c = UserActive \<and> isAdministrator (tu_role c))
                   (ForbiddenException ''An active tenant owner or admin is required to manage users.'')) (\<lambda>_.
            ret caller)))"

definition assertAnotherAdministratorRemains :: "uuid \<Rightarrow> unit service" where
  "assertAnotherAdministratorRemains tenantId =
     bindA (reads (countActiveAdministratorsByTenant tenantId)) (\<lambda>administratorCount.
       require (administratorCount > 1)
         (ConflictException ''Cannot remove the tenant's last active administrator.''))"

definition user_audit :: "env \<Rightarrow> AuditAction \<Rightarrow> uuid \<Rightarrow> uuid \<Rightarrow> unit service" where
  "user_audit E action tenantId i = domainAudit_emit E tenantId action ''tenant_user'' i []"

text \<open>\<open>inTransaction\<close>: whether the caller passes its entity manager and audits by itself.\<close>

definition invite ::
    "env \<Rightarrow> uuid \<Rightarrow> uuid \<Rightarrow> string \<Rightarrow> TenantUserRole \<Rightarrow> tenant_user option \<Rightarrow> bool \<Rightarrow> tenant_user service" where
  "invite E newId tenantId email role callerTenantUser inTransaction =
     bindA (assertMayManageOwner callerTenantUser (role = RoleOwner)) (\<lambda>_.
     bindA (reads (tu_findByTenantAndEmail tenantId email)) (\<lambda>existing.
     bindA (require (existing = None)
              (ConflictException ''A tenant user with this email already exists for this tenant.'')) (\<lambda>_.
     bindA (tu_insert \<lparr>tu_id = newId, tu_tenantId = tenantId, tu_externalUserId = None, tu_email = email,
                       tu_displayName = None, tu_role = role, tu_status = UserInvited,
                       tu_isPlatformOperator = False, tu_createdAt = db_now E, tu_updatedAt = db_now E\<rparr>) (\<lambda>created.
     bindA (whenA (\<not> inTransaction) (user_audit E AuditCreate (tu_tenantId created) (tu_id created))) (\<lambda>_.
       ret created)))))"

record CreateTenantUserDto =
  ctu_tenantId :: uuid
  ctu_externalUserId :: string
  ctu_email :: string
  ctu_displayName :: "string option"
  ctu_role :: "TenantUserRole option"
  ctu_status :: "TenantUserStatus option"

definition create_user :: "env \<Rightarrow> uuid \<Rightarrow> CreateTenantUserDto \<Rightarrow> tenant_user service" where
  "create_user E newId dto =
     bindA (reads (tu_findByTenantAndExternalUserId (ctu_tenantId dto) (ctu_externalUserId dto))) (\<lambda>existing.
     bindA (require (existing = None) (ConflictException ''User already belongs to this tenant.'')) (\<lambda>_.
     bindA (tu_insert \<lparr>tu_id = newId, tu_tenantId = ctu_tenantId dto,
                       tu_externalUserId = Some (ctu_externalUserId dto), tu_email = ctu_email dto,
                       tu_displayName = ctu_displayName dto,
                       tu_role = (case ctu_role dto of None \<Rightarrow> RoleMember | Some r \<Rightarrow> r),
                       tu_status = (case ctu_status dto of None \<Rightarrow> UserInvited | Some st \<Rightarrow> st),
                       tu_isPlatformOperator = False, tu_createdAt = db_now E, tu_updatedAt = db_now E\<rparr>) (\<lambda>created.
     bindA (user_audit E AuditCreate (tu_tenantId created) (tu_id created)) (\<lambda>_.
       ret created))))"

definition user_not_found :: "uuid \<Rightarrow> err" where
  "user_not_found i = NotFoundException (''Tenant user '' @ [CHR 0x27] @ i @ [CHR 0x27] @ '' was not found.'')"

definition user_findById :: "uuid \<Rightarrow> tenant_user service" where
  "user_findById i =
     bindA (reads (tu_findById i)) (\<lambda>u.
       found (user_not_found i) u)"

record PaginatedTenantUsers =
  ptu_data :: "tenant_user list"
  ptu_nextCursor :: "string option"
  ptu_hasMore :: bool
  ptu_selfActionsAllowed :: bool

definition self_actions_allowed :: "uuid \<Rightarrow> uuid option \<Rightarrow> db \<Rightarrow> bool" where
  "self_actions_allowed tenantId callerId s =
     (case callerId of
        None \<Rightarrow> False
      | Some i \<Rightarrow>
          (case tu_findByTenantAndId tenantId i s of
             None \<Rightarrow> False
           | Some caller \<Rightarrow>
               tu_status caller = UserActive \<and> isAdministrator (tu_role caller)
               \<and> countActiveAdministratorsByTenant tenantId s > 1
               \<and> (tu_role caller = RoleOwner \<longrightarrow> countActiveOwnersByTenant tenantId s > 1)))"

definition list_users ::
    "cursor_lib \<Rightarrow> uuid \<Rightarrow> nat option \<Rightarrow> string option \<Rightarrow> string option \<Rightarrow> tenant_user option \<Rightarrow> uuid option \<Rightarrow>
     PaginatedTenantUsers service" where
  "list_users L tenantId limit cursor search callerTenantUser callerUserId =
     bindA (lift (if cursor = None \<or> cursor = Some '''' then Inr None
                  else map_sum id Some (decodeCursor L (the cursor)))) (\<lambda>decoded.
     bindA (\<lambda>s. lift (tu_findPageForTenant L tenantId (case limit of None \<Rightarrow> 20 | Some n \<Rightarrow> n) decoded search s) s) (\<lambda>page.
     bindA (reads (self_actions_allowed tenantId
              (case callerTenantUser of Some c \<Rightarrow> Some (tu_id c) | None \<Rightarrow>
                 (if callerUserId = Some '''' then None else callerUserId)))) (\<lambda>selfActionsAllowed.
       ret \<lparr>ptu_data = tupage_items page, ptu_nextCursor = map_option (encodeCursor L) (tupage_nextCursor page),
            ptu_hasMore = tupage_hasMore page, ptu_selfActionsAllowed = selfActionsAllowed\<rparr>)))"

fun claim_invites ::
    "env \<Rightarrow> string \<Rightarrow> tenant_user list \<Rightarrow> uuid list \<Rightarrow> tenant_user list \<Rightarrow> tenant_user list service" where
  "claim_invites E externalUserId [] takenTenantIds claimedRows = ret claimedRows"
| "claim_invites E externalUserId (inv1 # invites) takenTenantIds claimedRows =
     (if tu_tenantId inv1 \<in> set takenTenantIds
      then claim_invites E externalUserId invites takenTenantIds claimedRows
      else
        bindA (claimInvitedById E (tu_id inv1) externalUserId) (\<lambda>claimed.
          case claimed of
            None \<Rightarrow> claim_invites E externalUserId invites (tu_tenantId inv1 # takenTenantIds) claimedRows
          | Some row \<Rightarrow>
              bindA (user_audit E AuditUpdate (tu_tenantId row) (tu_id row)) (\<lambda>_.
                claim_invites E externalUserId invites (tu_tenantId inv1 # takenTenantIds) (claimedRows @ [row]))))"

definition claimAllInvitedByEmail :: "env \<Rightarrow> string \<Rightarrow> string \<Rightarrow> tenant_user list service" where
  "claimAllInvitedByEmail E email externalUserId =
     bindA (reads (findUnclaimedInvitesByEmail email)) (\<lambda>invites.
       if invites = [] then ret []
       else bindA (reads (tu_findByExternalUserId externalUserId)) (\<lambda>existing.
              claim_invites E externalUserId invites (map tu_tenantId existing) []))"

record UpdateTenantUserDto =
  utu_email :: "string option"
  utu_displayName :: "string option"
  utu_role :: "TenantUserRole option"
  utu_status :: "TenantUserStatus option"

definition apply_user_dto :: "UpdateTenantUserDto \<Rightarrow> tenant_user \<Rightarrow> tenant_user" where
  "apply_user_dto dto u =
     u\<lparr>tu_email := (case utu_email dto of None \<Rightarrow> tu_email u | Some e \<Rightarrow> e),
       tu_displayName := (case utu_displayName dto of None \<Rightarrow> tu_displayName u | Some n \<Rightarrow> Some n),
       tu_role := (case utu_role dto of None \<Rightarrow> tu_role u | Some r \<Rightarrow> r),
       tu_status := (case utu_status dto of None \<Rightarrow> tu_status u | Some st \<Rightarrow> st)\<rparr>"

definition losesActiveOwnerAccess :: "UpdateTenantUserDto \<Rightarrow> tenant_user \<Rightarrow> bool" where
  "losesActiveOwnerAccess dto u \<longleftrightarrow>
     tu_status u = UserActive \<and> tu_role u = RoleOwner
     \<and> ((utu_role dto \<noteq> None \<and> utu_role dto \<noteq> Some RoleOwner)
        \<or> (utu_status dto \<noteq> None \<and> utu_status dto \<noteq> Some UserActive))"

definition losesAdministratorAccess :: "UpdateTenantUserDto \<Rightarrow> tenant_user \<Rightarrow> bool" where
  "losesAdministratorAccess dto u \<longleftrightarrow>
     tu_status u = UserActive \<and> isAdministrator (tu_role u)
     \<and> ((case utu_role dto of None \<Rightarrow> False | Some r \<Rightarrow> \<not> isAdministrator r)
        \<or> (utu_status dto \<noteq> None \<and> utu_status dto \<noteq> Some UserActive))"

definition update_user_body ::
    "env \<Rightarrow> uuid \<Rightarrow> uuid \<Rightarrow> UpdateTenantUserDto \<Rightarrow> tenant_user option \<Rightarrow> tenant_user service" where
  "update_user_body E tenantId i dto callerTenantUser =
     bindA (reads (tu_findByTenantAndId tenantId i)) (\<lambda>row.
     bindA (found (user_not_found i) row) (\<lambda>tenantUser.
     bindA (findCurrentCaller tenantId i tenantUser callerTenantUser) (\<lambda>caller.
     bindA (assertMayManageOwner caller (utu_role dto = Some RoleOwner \<or> tu_role tenantUser = RoleOwner)) (\<lambda>_.
     bindA (if utu_role dto \<noteq> None \<and> utu_role dto \<noteq> Some (tu_role tenantUser) \<and> tu_role tenantUser = RoleOwner
            then bindA (reads (countByTenantAndRole tenantId RoleOwner)) (\<lambda>ownerCount.
                   require (ownerCount > 1) (ConflictException ''Cannot change the role of the tenant's last owner.''))
            else ret ()) (\<lambda>_.
     bindA (if losesActiveOwnerAccess dto tenantUser
            then bindA (reads (countActiveOwnersByTenant tenantId)) (\<lambda>activeOwnerCount.
                   require (activeOwnerCount > 1)
                     (ConflictException ''Cannot change access for the tenant's last active owner.''))
            else ret ()) (\<lambda>_.
     bindA (whenA (losesAdministratorAccess dto tenantUser) (assertAnotherAdministratorRemains tenantId)) (\<lambda>_.
       tu_save E (apply_user_dto dto tenantUser))))))))"

definition update_user ::
    "env \<Rightarrow> uuid \<Rightarrow> uuid \<Rightarrow> UpdateTenantUserDto \<Rightarrow> tenant_user option \<Rightarrow> tenant_user service" where
  "update_user E tenantId i dto callerTenantUser =
     bindA (transaction (\<lambda>_. update_user_body E tenantId i dto callerTenantUser)) (\<lambda>updated.
     bindA (user_audit E AuditUpdate (tu_tenantId updated) (tu_id updated)) (\<lambda>_.
       ret updated))"

definition setPlatformOperator :: "env \<Rightarrow> uuid \<Rightarrow> bool \<Rightarrow> tenant_user service" where
  "setPlatformOperator E i isPlatformOperator =
     bindA (user_findById i) (\<lambda>tenantUser.
     bindA (tu_save E (tenantUser\<lparr>tu_isPlatformOperator := isPlatformOperator\<rparr>)) (\<lambda>updated.
     bindA (user_audit E AuditUpdate (tu_tenantId updated) (tu_id updated)) (\<lambda>_.
       ret updated)))"

definition delete_user_body :: "uuid \<Rightarrow> uuid \<Rightarrow> tenant_user option \<Rightarrow> tenant_user service" where
  "delete_user_body tenantId i callerTenantUser =
     bindA (reads (tu_findByTenantAndId tenantId i)) (\<lambda>row.
     bindA (found (user_not_found i) row) (\<lambda>tenantUser.
     bindA (findCurrentCaller tenantId i tenantUser callerTenantUser) (\<lambda>caller.
     bindA (assertMayManageOwner caller (tu_role tenantUser = RoleOwner)) (\<lambda>_.
     bindA (if tu_role tenantUser = RoleOwner
            then bindA (reads (countByTenantAndRole tenantId RoleOwner)) (\<lambda>ownerCount.
                 bindA (require (ownerCount > 1) (ConflictException ''Cannot remove the tenant's last owner.'')) (\<lambda>_.
                   if tu_status tenantUser = UserActive
                   then bindA (reads (countActiveOwnersByTenant tenantId)) (\<lambda>activeOwnerCount.
                          require (activeOwnerCount > 1)
                            (ConflictException ''Cannot remove the tenant's last active owner.''))
                   else ret ()))
            else ret ()) (\<lambda>_.
     bindA (whenA (tu_status tenantUser = UserActive \<and> isAdministrator (tu_role tenantUser))
              (assertAnotherAdministratorRemains tenantId)) (\<lambda>_.
     bindA (tu_delete i) (\<lambda>_.
       ret tenantUser)))))))"

definition delete_user :: "env \<Rightarrow> uuid \<Rightarrow> uuid \<Rightarrow> tenant_user option \<Rightarrow> unit service" where
  "delete_user E tenantId i callerTenantUser =
     bindA (transaction (\<lambda>_. delete_user_body tenantId i callerTenantUser)) (\<lambda>deleted.
       user_audit E AuditDelete (tu_tenantId deleted) i)"


section \<open>What each call does to the table\<close>

lemma put_tenant_users_Inr:
  "put_tenant_users t s = (Inr u, s') \<longleftrightarrow>
   index_ok (\<lambda>u. tu_externalUserId u \<noteq> None) (\<lambda>u. (tu_tenantId u, tu_externalUserId u)) t
   \<and> index_ok (\<lambda>_. True) (\<lambda>u. (tu_tenantId u, tu_email u)) t \<and> s' = s\<lparr>tenant_users := t\<rparr>"
  by (auto simp: put_tenant_users_def throw_def modifies_def)

lemma put_tenant_users_Inl: "put_tenant_users t s = (Inl e, s') \<Longrightarrow> s' = s"
  by (auto simp: put_tenant_users_def throw_def modifies_def split: if_splits)

lemma user_audit_users:
  "user_audit E a t i s = (r, s') \<Longrightarrow> r = Inr () \<and> tenant_users s' = tenant_users s \<and> tenants s' = tenants s"
  by (auto simp: user_audit_def domainAudit_emit_def catchA_def sendInTransaction_def modifies_def throw_def
      ret_def split: if_splits)

lemma audited_users:
  assumes "bindA (user_audit E a t i) (\<lambda>_. ret x) s = (r, s')"
  shows "tenant_users s' = tenant_users s"
proof -
  obtain ra sa where a: "user_audit E a t i s = (ra, sa)" by fastforce
  with user_audit_users [OF a] assms show ?thesis by (simp add: bindA_def ret_def)
qed

lemma guard_Inr:
  "(if b then bindA (reads f) (\<lambda>n. require (g n) e) else ret ()) s = (Inr x, s') \<longleftrightarrow> s' = s \<and> (b \<longrightarrow> g (f s))"
  by (auto simp: run_Inr)

lemma delete_guard_Inr:
  "(if a then bindA (reads f) (\<lambda>n. bindA (require (n > 1) e) (\<lambda>_.
      if b then bindA (reads g) (\<lambda>m. require (m > 1) e') else ret ())) else ret ()) s = (Inr x, s') \<longleftrightarrow>
   s' = s \<and> (a \<longrightarrow> f s > (1 :: nat)) \<and> (a \<and> b \<longrightarrow> g s > (1 :: nat))"
  by (auto simp: run_Inr guard_Inr)

lemma modifies_Inr: "modifies f s = (Inr x, s') \<longleftrightarrow> s' = f s"
  by (auto simp: modifies_def)

lemma another_administrator_Inr:
  "whenA b (assertAnotherAdministratorRemains T) s = (Inr x, s') \<longleftrightarrow>
   s' = s \<and> (b \<longrightarrow> countActiveAdministratorsByTenant T s > 1)"
  by (auto simp: assertAnotherAdministratorRemains_def whenA_def run_Inr)

definition may_manage :: "tenant_user option \<Rightarrow> bool \<Rightarrow> bool" where
  "may_manage caller touchesOwner \<longleftrightarrow> (touchesOwner \<longrightarrow> (\<forall>c. caller = Some c \<longrightarrow> tu_role c = RoleOwner))"

lemma may_manage_Inr:
  "assertMayManageOwner caller b s = (Inr x, s') \<longleftrightarrow> s' = s \<and> may_manage caller b"
  by (auto simp: assertMayManageOwner_def may_manage_def run_Inr split: option.splits)

text \<open>The caller as the transaction sees it, if the stamped caller may act at all.\<close>

definition acts_as :: "uuid \<Rightarrow> uuid \<Rightarrow> tenant_user \<Rightarrow> tenant_user option \<Rightarrow> db \<Rightarrow> tenant_user option \<Rightarrow> bool" where
  "acts_as T i u stamped s caller \<longleftrightarrow>
     (case stamped of None \<Rightarrow> caller = None
      | Some st \<Rightarrow> \<exists>c. caller = Some c \<and> tu_status c = UserActive \<and> isAdministrator (tu_role c)
          \<and> (if tu_id st = i then c = u else tu_findByTenantAndId T (tu_id st) s = Some c))"

lemma current_caller_Inr:
  "findCurrentCaller T i u stamped s = (Inr caller, s') \<longleftrightarrow> s' = s \<and> acts_as T i u stamped s caller"
  by (auto simp: findCurrentCaller_def acts_as_def run_Inr split: option.splits if_splits)

lemmas user_Inr = run_Inr guard_Inr another_administrator_Inr may_manage_Inr current_caller_Inr

lemma tu_insert_cases:
  assumes "tu_insert u s = (r, s')"
  shows "(\<exists>e. r = Inl e) \<and> s' = s
    \<or> r = Inr u \<and> s' = s\<lparr>tenant_users := tenant_users s @ [u]\<rparr> \<and> (\<forall>v \<in> set (tenant_users s). tu_id v \<noteq> tu_id u)"
  using assms
  by (auto simp: tu_insert_def put_tenant_users_def throw_def modifies_def bindA_def ret_def split: if_splits)

lemma tu_save_cases:
  assumes "tu_save E u s = (r, s')"
  shows "(\<exists>e. r = Inl e) \<and> s' = s
    \<or> (\<exists>row. r = Inr row \<and> s' = s\<lparr>tenant_users := save_row tu_id row (tenant_users s)\<rparr>
         \<and> (row = u \<or> row = u\<lparr>tu_updatedAt := db_now E\<rparr>))"
  using assms
  by (auto simp: tu_save_def put_tenant_users_def throw_def modifies_def bindA_def ret_def Let_def split: if_splits)

definition changed_to :: "tenant_user \<Rightarrow> tenant_user \<Rightarrow> bool" where
  "changed_to u row \<longleftrightarrow> tu_id row = tu_id u \<and> tu_tenantId row = tu_tenantId u \<and> tu_role row = tu_role u \<and> tu_status row = tu_status u"

lemma update_user_cases:
  assumes "update_user E T i dto stamped s = (r, s')"
  shows "tenant_users s' = tenant_users s
    \<or> (\<exists>u row caller. tu_findByTenantAndId T i s = Some u
         \<and> tenant_users s' = save_row tu_id row (tenant_users s) \<and> changed_to (apply_user_dto dto u) row
         \<and> acts_as T i u stamped s caller
         \<and> may_manage caller (utu_role dto = Some RoleOwner \<or> tu_role u = RoleOwner)
         \<and> (tu_role u = RoleOwner \<and> tu_role row \<noteq> RoleOwner \<longrightarrow> countByTenantAndRole T RoleOwner s > 1)
         \<and> (losesActiveOwnerAccess dto u \<longrightarrow> countActiveOwnersByTenant T s > 1)
         \<and> (losesAdministratorAccess dto u \<longrightarrow> countActiveAdministratorsByTenant T s > 1))"
proof -
  obtain rb t where b: "update_user_body E T i dto stamped s = (rb, t)" by fastforce
  show ?thesis
  proof (cases rb)
    case (Inl e)
    with assms b show ?thesis by (auto simp: update_user_def transaction_def bindA_def)
  next
    case (Inr row)
    with assms b have "bindA (user_audit E AuditUpdate (tu_tenantId row) (tu_id row)) (\<lambda>_. ret row) t = (r, s')"
      by (simp add: update_user_def transaction_def bindA_def)
    then have users: "tenant_users s' = tenant_users t" by (rule audited_users)
    from b Inr obtain u caller where u: "tu_findByTenantAndId T i s = Some u"
      and c: "acts_as T i u stamped s caller"
      and m: "may_manage caller (utu_role dto = Some RoleOwner \<or> tu_role u = RoleOwner)"
      and g1: "utu_role dto \<noteq> None \<and> utu_role dto \<noteq> Some (tu_role u) \<and> tu_role u = RoleOwner
                 \<longrightarrow> countByTenantAndRole T RoleOwner s > 1"
      and g2: "losesActiveOwnerAccess dto u \<longrightarrow> countActiveOwnersByTenant T s > 1"
      and g3: "losesAdministratorAccess dto u \<longrightarrow> countActiveAdministratorsByTenant T s > 1"
      and sv: "tu_save E (apply_user_dto dto u) s = (Inr row, t)"
      by (simp add: update_user_body_def user_Inr) blast
    from tu_save_cases [OF sv] have t: "tenant_users t = save_row tu_id row (tenant_users s)"
      and ch: "changed_to (apply_user_dto dto u) row" by (auto simp: changed_to_def)
    have "tu_role u = RoleOwner \<and> tu_role row \<noteq> RoleOwner \<longrightarrow> countByTenantAndRole T RoleOwner s > 1"
      using g1 ch by (auto simp: changed_to_def apply_user_dto_def split: option.splits)
    moreover have "tenant_users s' = save_row tu_id row (tenant_users s)" using users t by simp
    ultimately show ?thesis using u c m g2 g3 ch
      by (intro disjI2 exI [of _ u] exI [of _ row] exI [of _ caller]) simp
  qed
qed

lemma delete_user_cases:
  assumes "delete_user E T i stamped s = (r, s')"
  shows "tenant_users s' = tenant_users s
    \<or> (\<exists>u caller. tu_findByTenantAndId T i s = Some u
         \<and> tenant_users s' = filter (\<lambda>v. tu_id v \<noteq> i) (tenant_users s)
         \<and> acts_as T i u stamped s caller
         \<and> may_manage caller (tu_role u = RoleOwner)
         \<and> (tu_role u = RoleOwner \<longrightarrow> countByTenantAndRole T RoleOwner s > 1)
         \<and> (tu_role u = RoleOwner \<and> tu_status u = UserActive \<longrightarrow> countActiveOwnersByTenant T s > 1)
         \<and> (tu_status u = UserActive \<and> isAdministrator (tu_role u) \<longrightarrow> countActiveAdministratorsByTenant T s > 1))"
proof -
  obtain rb t where b: "delete_user_body T i stamped s = (rb, t)" by fastforce
  show ?thesis
  proof (cases rb)
    case (Inl e)
    with assms b show ?thesis by (auto simp: delete_user_def transaction_def bindA_def)
  next
    case (Inr u)
    with assms b have "user_audit E AuditDelete (tu_tenantId u) i t = (r, s')"
      by (simp add: delete_user_def transaction_def bindA_def)
    then have users: "tenant_users s' = tenant_users t" by (simp add: user_audit_users)
    from b Inr have "tu_findByTenantAndId T i s = Some u
         \<and> tenant_users t = filter (\<lambda>v. tu_id v \<noteq> i) (tenant_users s)
         \<and> (\<exists>caller. acts_as T i u stamped s caller
         \<and> may_manage caller (tu_role u = RoleOwner))
         \<and> (tu_role u = RoleOwner \<longrightarrow> countByTenantAndRole T RoleOwner s > 1)
         \<and> (tu_role u = RoleOwner \<and> tu_status u = UserActive \<longrightarrow> countActiveOwnersByTenant T s > 1)
         \<and> (tu_status u = UserActive \<and> isAdministrator (tu_role u) \<longrightarrow> countActiveAdministratorsByTenant T s > 1)"
      by (auto simp: delete_user_body_def user_Inr delete_guard_Inr tu_delete_def modifies_Inr)
    with users show ?thesis by auto
  qed
qed

section \<open>A tenant keeps its owner and its administrators\<close>

text \<open>The three posts the service protects: an owner, an active owner, an active owner or admin.\<close>

definition posts :: "(tenant_user \<Rightarrow> bool) list" where
  "posts = [\<lambda>u. tu_role u = RoleOwner,
            \<lambda>u. tu_role u = RoleOwner \<and> tu_status u = UserActive,
            \<lambda>u. isAdministrator (tu_role u) \<and> tu_status u = UserActive]"

definition held :: "(tenant_user \<Rightarrow> bool) \<Rightarrow> uuid \<Rightarrow> tenant_user list \<Rightarrow> bool" where
  "held P T t = list_ex (\<lambda>u. tu_tenantId u = T \<and> P u) t"

definition staffed_step :: "db \<Rightarrow> db \<Rightarrow> bool" where
  "staffed_step s s' \<longleftrightarrow> (key_table tu_id (tenant_users s) \<longrightarrow> key_table tu_id (tenant_users s')
     \<and> (\<forall>T. \<forall>P \<in> set posts. held P T (tenant_users s) \<longrightarrow> held P T (tenant_users s')))"

interpretation staffed: store_preorder staffed_step
  by unfold_locales (auto simp: staffed_step_def)

lemma post_counts:
  "countByTenantAndRole T RoleOwner s = count_where (\<lambda>u. tu_tenantId u = T \<and> (posts ! 0) u) (tenant_users s)"
  "countActiveOwnersByTenant T s = count_where (\<lambda>u. tu_tenantId u = T \<and> (posts ! 1) u) (tenant_users s)"
  "countActiveAdministratorsByTenant T s = count_where (\<lambda>u. tu_tenantId u = T \<and> (posts ! 2) u) (tenant_users s)"
  by (simp_all add: posts_def countByTenantAndRole_def countActiveOwnersByTenant_def
      countActiveAdministratorsByTenant_def isAdministrator_def)

lemma posts_all: "(\<forall>P \<in> set posts. Q P) \<longleftrightarrow> Q (posts ! 0) \<and> Q (posts ! 1) \<and> Q (posts ! 2)"
  by (simp add: posts_def)

lemma second_row:
  assumes "count_where P t > 1" and "key_table key t"
  obtains r where "r \<in> set t" "P r" "key r \<noteq> k"
proof -
  obtain a b rest where f: "filter P t = a # b # rest"
    using assms(1) by (cases "filter P t"; cases "tl (filter P t)") (auto simp: count_where_def)
  have "distinct (map key (filter P t))"
    using assms(2) by (simp add: key_table_def distinct_map_filter)
  with f have "key a \<noteq> key b" by simp
  moreover have "{a, b} \<subseteq> set (filter P t)" unfolding f by auto
  then have "a \<in> set t" "P a" "b \<in> set t" "P b" by auto
  ultimately show thesis using that by metis
qed

lemma save_row_others: "r \<in> set t \<Longrightarrow> key r \<noteq> key e \<Longrightarrow> r \<in> set (save_row key e t)"
  by (auto simp: save_row_def intro: rev_image_eqI)

lemma save_row_mem: "e \<in> set (save_row key e t)"
  by (auto simp: save_row_def image_iff)

lemma held_save_row:
  assumes k: "key_table tu_id t" and u: "u \<in> set t" "tu_id row = tu_id u" "tu_tenantId row = tu_tenantId u"
    and lost: "P u \<Longrightarrow> \<not> P row \<Longrightarrow> count_where (\<lambda>v. tu_tenantId v = tu_tenantId u \<and> P v) t > 1"
    and h: "held P T t"
  shows "held P T (save_row tu_id row t)"
proof -
  from h obtain v where v: "v \<in> set t" "tu_tenantId v = T" "P v" by (auto simp: held_def list_ex_iff)
  show ?thesis
  proof (cases "tu_id v = tu_id u")
    case False
    with u(2) have "v \<in> set (save_row tu_id row t)" using v(1) by (intro save_row_others) simp_all
    with v show ?thesis by (auto simp: held_def list_ex_iff)
  next
    case True
    with key_table_unique [OF k v(1) u(1)] have vu: "v = u" by simp
    show ?thesis
    proof (cases "P row")
      case True
      with u(3) v vu save_row_mem [of row tu_id t] show ?thesis by (auto simp: held_def list_ex_iff)
    next
      case False
      with lost v vu have "count_where (\<lambda>v. tu_tenantId v = tu_tenantId u \<and> P v) t > 1" by simp
      then obtain w where "w \<in> set t" "tu_tenantId w = tu_tenantId u \<and> P w" "tu_id w \<noteq> tu_id u"
        by (rule second_row [OF _ k])
      then show ?thesis using u(2) v vu save_row_others [of w t tu_id row]
        by (auto simp: held_def list_ex_iff)
    qed
  qed
qed

lemma held_delete:
  assumes k: "key_table tu_id t" and u: "u \<in> set t"
    and lost: "P u \<Longrightarrow> count_where (\<lambda>v. tu_tenantId v = tu_tenantId u \<and> P v) t > 1"
    and h: "held P T t"
  shows "held P T (filter (\<lambda>v. tu_id v \<noteq> tu_id u) t)"
proof -
  from h obtain v where v: "v \<in> set t" "tu_tenantId v = T" "P v" by (auto simp: held_def list_ex_iff)
  show ?thesis
  proof (cases "tu_id v = tu_id u")
    case False
    with v show ?thesis by (auto simp: held_def list_ex_iff)
  next
    case True
    with key_table_unique [OF k v(1) u] have vu: "v = u" by simp
    with lost v have "count_where (\<lambda>v. tu_tenantId v = tu_tenantId u \<and> P v) t > 1" by simp
    then obtain w where "w \<in> set t" "tu_tenantId w = tu_tenantId u \<and> P w" "tu_id w \<noteq> tu_id u"
      by (rule second_row [OF _ k])
    then show ?thesis using v vu by (auto simp: held_def list_ex_iff)
  qed
qed

lemma found_user:
  assumes "tu_findByTenantAndId T i s = Some u"
  shows "u \<in> set (tenant_users s)" "tu_id u = i" "tu_tenantId u = T"
  using assms by (auto simp: tu_findByTenantAndId_def find_Some_iff)

lemma staffed_same: "tenant_users s' = tenant_users s \<Longrightarrow> staffed_step s s'"
  by (simp add: staffed_step_def)

lemma staffed_update_user: "keeps staffed_step (update_user E T i dto stamped)"
proof (rule keepsI)
  fix s :: db
  obtain r s' where run: "update_user E T i dto stamped s = (r, s')" by fastforce
  have "staffed_step s s'"
    using update_user_cases [OF run]
  proof (elim disjE exE conjE)
    fix u row caller
    assume u: "tu_findByTenantAndId T i s = Some u" and s': "tenant_users s' = save_row tu_id row (tenant_users s)"
      and ch: "changed_to (apply_user_dto dto u) row"
      and g1: "tu_role u = RoleOwner \<and> tu_role row \<noteq> RoleOwner \<longrightarrow> countByTenantAndRole T RoleOwner s > 1"
      and g2: "losesActiveOwnerAccess dto u \<longrightarrow> countActiveOwnersByTenant T s > 1"
      and g3: "losesAdministratorAccess dto u \<longrightarrow> countActiveAdministratorsByTenant T s > 1"
    note u = found_user [OF u]
    have row: "tu_id row = tu_id u" "tu_tenantId row = tu_tenantId u"
      using ch by (auto simp: changed_to_def apply_user_dto_def)
    have "P u \<longrightarrow> \<not> P row \<longrightarrow> count_where (\<lambda>v. tu_tenantId v = tu_tenantId u \<and> P v) (tenant_users s) > 1"
      if "P \<in> set posts" for P
    proof -
      have "\<forall>P \<in> set posts. P u \<longrightarrow> \<not> P row \<longrightarrow>
          count_where (\<lambda>v. tu_tenantId v = tu_tenantId u \<and> P v) (tenant_users s) > 1"
        unfolding posts_all post_counts [symmetric] u(3)
        using g1 g2 g3 ch
        by (auto simp: posts_def changed_to_def apply_user_dto_def losesActiveOwnerAccess_def
            losesAdministratorAccess_def split: option.splits)
      with that show ?thesis by blast
    qed
    then show ?thesis using held_save_row [OF _ u(1) row] s'
      by (auto simp: staffed_step_def key_table_save_row)
  qed (rule staffed_same)
  with run show "staffed_step s (snd (update_user E T i dto stamped s))" by simp
qed

lemma staffed_delete_user: "keeps staffed_step (delete_user E T i stamped)"
proof (rule keepsI)
  fix s :: db
  obtain r s' where run: "delete_user E T i stamped s = (r, s')" by fastforce
  have "staffed_step s s'"
    using delete_user_cases [OF run]
  proof (elim disjE exE conjE)
    fix u caller
    assume u: "tu_findByTenantAndId T i s = Some u" and s': "tenant_users s' = filter (\<lambda>v. tu_id v \<noteq> i) (tenant_users s)"
      and g: "tu_role u = RoleOwner \<longrightarrow> countByTenantAndRole T RoleOwner s > 1"
        "tu_role u = RoleOwner \<and> tu_status u = UserActive \<longrightarrow> countActiveOwnersByTenant T s > 1"
        "tu_status u = UserActive \<and> isAdministrator (tu_role u) \<longrightarrow> countActiveAdministratorsByTenant T s > 1"
    note u = found_user [OF u]
    have "\<forall>P \<in> set posts. P u \<longrightarrow>
        count_where (\<lambda>v. tu_tenantId v = tu_tenantId u \<and> P v) (tenant_users s) > 1"
      unfolding posts_all post_counts [symmetric] u(3) using g by (auto simp: posts_def)
    then show ?thesis using held_delete [OF _ u(1)] s' u(2)
      by (auto simp: staffed_step_def key_table_def distinct_map_filter)
  qed (rule staffed_same)
  with run show "staffed_step s (snd (delete_user E T i stamped s))" by simp
qed

lemma staffed_audit [keeps_intros]: "keeps staffed_step (user_audit E a T i)"
  by (rule keepsI) (metis prod.collapse staffed_same user_audit_users)

lemma staffed_insert [keeps_intros]: "keeps staffed_step (tu_insert u)"
proof (rule keepsI)
  fix s :: db
  obtain r s' where run: "tu_insert u s = (r, s')" by fastforce
  from tu_insert_cases [OF run] have "staffed_step s s'"
    by (auto simp: staffed_step_def held_def key_table_def) metis
  with run show "staffed_step s (snd (tu_insert u s))" by simp
qed

lemma held_update_where:
  assumes "held P T t" and "\<And>u. Q u \<Longrightarrow> P u \<Longrightarrow> P (f u)" and "\<And>u. tu_tenantId (f u) = tu_tenantId u"
  shows "held P T (update_where Q f t)"
  using assms(1) by (induction t) (auto simp: held_def update_where_def assms(2,3))

lemma staffed_claim [keeps_intros]: "keeps staffed_step (claimInvitedById E i x)"
proof (rule keepsI)
  fix s :: db
  let ?f = "\<lambda>u. u\<lparr>tu_externalUserId := Some x, tu_status := UserActive, tu_updatedAt := db_now E\<rparr>"
  let ?hit = "\<lambda>u. tu_id u = i \<and> tu_externalUserId u = None \<and> tu_status u = UserInvited"
  let ?t = "update_where ?hit ?f (tenant_users s)"
  have "held P T ?t" if "P \<in> set posts" "held P T (tenant_users s)" for P T
    using that by (intro held_update_where) (auto simp: posts_def)
  then have "staffed_step s (s\<lparr>tenant_users := ?t\<rparr>)"
    by (simp add: staffed_step_def key_table_update_where)
  moreover have "snd (claimInvitedById E i x s) = s \<or> snd (claimInvitedById E i x s) = s\<lparr>tenant_users := ?t\<rparr>"
    by (auto simp: claimInvitedById_def put_tenant_users_def bindA_def throw_def modifies_def reads_def ret_def Let_def)
  ultimately show "staffed_step s (snd (claimInvitedById E i x s))" by (auto simp: staffed.step_refl)
qed

lemma staffed_claim_invites [keeps_intros]: "keeps staffed_step (claim_invites E x invites taken rows)"
proof (induction invites arbitrary: taken rows)
  case (Cons inv1 invites)
  then show ?case
    by (auto intro!: staffed.keeps_rules staffed_claim staffed_audit split: option.split)
qed (simp add: staffed.keeps_ret)

lemma staffed_set_operator: "keeps staffed_step (setPlatformOperator E i b)"
proof (rule keepsI)
  fix s :: db
  obtain r s' where run: "setPlatformOperator E i b s = (r, s')" by fastforce
  have "staffed_step s s'"
  proof (cases "tu_findById i s")
    case None
    with run show ?thesis
      by (auto simp: setPlatformOperator_def user_findById_def bindA_def reads_def found_def throw_def staffed.step_refl)
  next
    case (Some u)
    let ?u = "u\<lparr>tu_isPlatformOperator := b\<rparr>"
    obtain r1 t where sv: "tu_save E ?u s = (r1, t)" by fastforce
    have u: "u \<in> set (tenant_users s)" using Some by (auto simp: tu_findById_def find_Some_iff)
    from tu_save_cases [OF sv] consider "t = s"
      | row where "t = s\<lparr>tenant_users := save_row tu_id row (tenant_users s)\<rparr>"
          "row = ?u \<or> row = ?u\<lparr>tu_updatedAt := db_now E\<rparr>" by blast
    then have "staffed_step s t"
    proof cases
      case (2 row)
      then have "tu_id row = tu_id u" "tu_tenantId row = tu_tenantId u" "\<forall>P \<in> set posts. P u \<longrightarrow> P row"
        by (auto simp: posts_def)
      with held_save_row [OF _ u] 2(1) show ?thesis by (auto simp: staffed_step_def key_table_save_row)
    qed (simp add: staffed.step_refl)
    moreover have "tenant_users s' = tenant_users t"
      using run sv Some
      by (cases r1) (auto simp: setPlatformOperator_def user_findById_def bindA_def reads_def found_def ret_def
          dest: user_audit_users split: prod.splits sum.splits)
    ultimately show ?thesis by (simp add: staffed_step_def)
  qed
  with run show "staffed_step s (snd (setPlatformOperator E i b s))" by simp
qed

text \<open>The calls that change the table, as they may arrive in any order.\<close>

datatype user_call =
    Invite uuid uuid string TenantUserRole "tenant_user option" bool
  | Create uuid CreateTenantUserDto
  | Claim string string
  | Update uuid uuid UpdateTenantUserDto "tenant_user option"
  | SetOperator uuid bool
  | Delete uuid uuid "tenant_user option"

fun user_call_run :: "env \<Rightarrow> user_call \<Rightarrow> db \<Rightarrow> db" where
  "user_call_run E (Invite n T email role caller tx) s = snd (invite E n T email role caller tx s)"
| "user_call_run E (Create n dto) s = snd (create_user E n dto s)"
| "user_call_run E (Claim email x) s = snd (claimAllInvitedByEmail E email x s)"
| "user_call_run E (Update T i dto caller) s = snd (update_user E T i dto caller s)"
| "user_call_run E (SetOperator i b) s = snd (setPlatformOperator E i b s)"
| "user_call_run E (Delete T i caller) s = snd (delete_user E T i caller s)"

lemma staffed_invite: "keeps staffed_step (invite E n T email role caller tx)"
  unfolding invite_def assertMayManageOwner_def by (intro staffed.keeps_rules keeps_intros)

lemma staffed_create: "keeps staffed_step (create_user E n dto)"
  unfolding create_user_def by (intro staffed.keeps_rules keeps_intros)

lemma staffed_claim_all: "keeps staffed_step (claimAllInvitedByEmail E email x)"
  unfolding claimAllInvitedByEmail_def by (intro staffed.keeps_rules keeps_intros)

lemmas staffed_calls = staffed_invite staffed_create staffed_claim_all staffed_update_user
  staffed_set_operator staffed_delete_user

lemma staffed_user_calls: "staffed_step s (fold (\<lambda>(E, call). user_call_run E call) calls s)"
proof (induction calls arbitrary: s)
  case (Cons c calls)
  obtain E call where c: "c = (E, call)" by fastforce
  have "staffed_step s (user_call_run E call s)"
    using staffed_calls [THEN keeps_snd] by (cases call) simp_all
  from staffed.step_trans [OF this Cons.IH] show ?case by (simp add: c)
qed (simp add: staffed.step_refl)

text \<open>
  C3 Whatever user-management calls arrive, by whichever callers and in whatever order, and whether
  they succeed or fail: a tenant that has an owner keeps one, a tenant that has an active owner
  keeps an active owner, and a tenant that has an active owner or admin keeps one of those.
\<close>

theorem tenant_keeps_owner:
  assumes "key_table tu_id (tenant_users s)"
  shows "let s' = fold (\<lambda>(E, call). user_call_run E call) calls s in
    (0 < countByTenantAndRole T RoleOwner s \<longrightarrow> 0 < countByTenantAndRole T RoleOwner s')
    \<and> (0 < countActiveOwnersByTenant T s \<longrightarrow> 0 < countActiveOwnersByTenant T s')
    \<and> (0 < countActiveAdministratorsByTenant T s \<longrightarrow> 0 < countActiveAdministratorsByTenant T s')"
proof -
  let ?s = "fold (\<lambda>(E, call). user_call_run E call) calls s"
  have "\<forall>P \<in> set posts. held P T (tenant_users s) \<longrightarrow> held P T (tenant_users ?s)"
    using staffed_user_calls assms by (auto simp: staffed_step_def)
  then show ?thesis
    unfolding posts_all post_counts Let_def count_where_pos by (auto simp: held_def list_ex_iff)
qed

definition sample_user :: "uuid \<Rightarrow> string \<Rightarrow> TenantUserRole \<Rightarrow> TenantUserStatus \<Rightarrow> tenant_user" where
  "sample_user i email role status =
     \<lparr>tu_id = i, tu_tenantId = ''t1'', tu_externalUserId = (if status = UserInvited then None else Some (''x'' @ i)),
      tu_email = email, tu_displayName = None, tu_role = role, tu_status = status,
      tu_isPlatformOperator = False, tu_createdAt = 1, tu_updatedAt = 1\<rparr>"

definition staffed_db :: db where
  "staffed_db = empty_db\<lparr>tenant_users := [sample_user ''u1'' ''a@x'' RoleOwner UserActive,
     sample_user ''u2'' ''b@x'' RoleAdmin UserActive, sample_user ''u3'' ''c@x'' RoleOwner UserInvited]\<rparr>"

text \<open>The one active owner tries to leave twice: removed, then disabled.\<close>

definition leaving_calls :: "(env \<times> user_call) list" where
  "leaving_calls =
     [(sample_env, Delete ''t1'' ''u1'' None),
      (sample_env, Update ''t1'' ''u1'' \<lparr>utu_email = None, utu_displayName = None, utu_role = None,
                                      utu_status = Some UserDisabled\<rparr> None)]"

theorem tenant_keeps_owner_witness:
  "let s' = fold (\<lambda>(E, call). user_call_run E call) leaving_calls staffed_db
   in 0 < countActiveOwnersByTenant ''t1'' s' \<and> 0 < countActiveAdministratorsByTenant ''t1'' s'"
proof -
  have "key_table tu_id (tenant_users staffed_db)"
    by (simp add: key_table_def staffed_db_def sample_user_def)
  moreover have "0 < countActiveOwnersByTenant ''t1'' staffed_db" "0 < countActiveAdministratorsByTenant ''t1'' staffed_db"
    by (simp_all add: staffed_db_def sample_user_def countActiveOwnersByTenant_def
        countActiveAdministratorsByTenant_def count_where_def)
  ultimately show ?thesis
    using tenant_keeps_owner [of staffed_db leaving_calls "''t1''"] by (simp add: Let_def)
qed

section \<open>Only owners touch owners\<close>

definition owners :: "db \<Rightarrow> tenant_user list" where
  "owners s = filter (\<lambda>u. tu_role u = RoleOwner) (tenant_users s)"

lemma filter_save_row:
  assumes "\<And>r. r \<in> set t \<Longrightarrow> key r = key e \<Longrightarrow> \<not> P r" and "\<not> P e"
  shows "filter P (save_row key e t) = filter P t"
proof -
  have "filter P (map (\<lambda>r. if key r = key e then e else r) t) = filter P t"
    using assms by (induction t) auto
  with assms(2) show ?thesis by (simp add: save_row_def)
qed

text \<open>The caller of a call of the tenant's own administrators, as stamped when the request came in.\<close>

fun call_caller :: "user_call \<Rightarrow> (uuid \<times> tenant_user) option" where
  "call_caller (Invite _ T _ _ caller _) = map_option (Pair T) caller"
| "call_caller (Update T _ _ caller) = map_option (Pair T) caller"
| "call_caller (Delete T _ caller) = map_option (Pair T) caller"
| "call_caller _ = None"

lemma acts_as_non_owner:
  assumes "acts_as T i u (Some st) s caller" and "may_manage caller touches"
    and "tu_findByTenantAndId T i s = Some u"
    and "\<forall>c. tu_findByTenantAndId T (tu_id st) s = Some c \<longrightarrow> tu_role c \<noteq> RoleOwner"
  shows "\<not> touches"
  using assms by (auto simp: acts_as_def may_manage_def split: if_splits)

lemma owners_update:
  assumes "key_table tu_id (tenant_users s)"
    and "\<forall>c. tu_findByTenantAndId T (tu_id st) s = Some c \<longrightarrow> tu_role c \<noteq> RoleOwner"
  shows "owners (snd (update_user E T i dto (Some st) s)) = owners s"
proof -
  obtain r s' where run: "update_user E T i dto (Some st) s = (r, s')" by fastforce
  from update_user_cases [OF run] have "owners s' = owners s"
  proof (elim disjE exE conjE)
    fix u row caller
    assume u: "tu_findByTenantAndId T i s = Some u" and s': "tenant_users s' = save_row tu_id row (tenant_users s)"
      and ch: "changed_to (apply_user_dto dto u) row" and a: "acts_as T i u (Some st) s caller"
      and m: "may_manage caller (utu_role dto = Some RoleOwner \<or> tu_role u = RoleOwner)"
    from acts_as_non_owner [OF a m u assms(2)] have no: "utu_role dto \<noteq> Some RoleOwner" "tu_role u \<noteq> RoleOwner" by auto
    then have "tu_role row \<noteq> RoleOwner" "tu_id row = tu_id u"
      using ch by (auto simp: changed_to_def apply_user_dto_def split: option.splits)
    moreover have "\<forall>r \<in> set (tenant_users s). tu_id r = tu_id u \<longrightarrow> r = u"
      using found_user [OF u] assms(1) by (auto dest: key_table_unique)
    ultimately show ?thesis using s' no by (auto simp: owners_def intro!: filter_save_row)
  qed (simp add: owners_def)
  with run show ?thesis by simp
qed

lemma owners_delete:
  assumes "key_table tu_id (tenant_users s)"
    and "\<forall>c. tu_findByTenantAndId T (tu_id st) s = Some c \<longrightarrow> tu_role c \<noteq> RoleOwner"
  shows "owners (snd (delete_user E T i (Some st) s)) = owners s"
proof -
  obtain r s' where run: "delete_user E T i (Some st) s = (r, s')" by fastforce
  from delete_user_cases [OF run] have "owners s' = owners s"
  proof (elim disjE exE conjE)
    fix u caller
    assume u: "tu_findByTenantAndId T i s = Some u"
      and s': "tenant_users s' = filter (\<lambda>v. tu_id v \<noteq> i) (tenant_users s)"
      and a: "acts_as T i u (Some st) s caller" and m: "may_manage caller (tu_role u = RoleOwner)"
    from acts_as_non_owner [OF a m u assms(2)] have no: "tu_role u \<noteq> RoleOwner" by simp
    have "\<forall>r \<in> set (tenant_users s). tu_id r = i \<longrightarrow> r = u"
      using found_user [OF u] assms(1) by (auto dest: key_table_unique)
    with no s' show ?thesis by (auto simp: owners_def intro!: filter_cong)
  qed (simp add: owners_def)
  with run show ?thesis by simp
qed

lemma owners_invite:
  assumes "tu_role st \<noteq> RoleOwner"
  shows "owners (snd (invite E n T email role (Some st) tx s)) = owners s"
proof (cases "role = RoleOwner")
  case True
  with assms show ?thesis
    by (simp add: invite_def assertMayManageOwner_def require_def throw_def bindA_def)
next
  case False
  let ?R = "\<lambda>s s'. owners s' = owners s"
  have pre: "store_preorder ?R" by unfold_locales simp_all
  note rules = store_preorder.keeps_rules [OF pre]
  have ins: "keeps ?R (tu_insert u)" if "tu_role u \<noteq> RoleOwner" for u
  proof (rule keepsI)
    fix s :: db
    obtain r s' where run: "tu_insert u s = (r, s')" by fastforce
    from tu_insert_cases [OF this] that show "owners (snd (tu_insert u s)) = owners s"
      unfolding run by (auto simp: owners_def)
  qed
  have aud: "keeps ?R (user_audit E a t i)" for a t i
    by (rule keepsI) (metis owners_def prod.collapse user_audit_users)
  have "keeps ?R (invite E n T email role (Some st) tx)"
    unfolding invite_def assertMayManageOwner_def
    by (intro rules ins aud) (use False in simp)
  then show ?thesis by (rule keeps_snd)
qed

text \<open>
  C34 A member who is not an owner of the tenant, neither in the row the request carries nor in the
  table when the call runs, cannot make, change or remove an owner: whatever invitation, update or
  removal they send, the rows of all owners are the same afterwards. (A call without a caller row is
  a platform administrator's.)
\<close>

theorem only_owners_touch_owners:
  assumes "key_table tu_id (tenant_users s)" and "call_caller call = Some (T, st)"
    and "tu_role st \<noteq> RoleOwner"
    and "\<forall>c. tu_findByTenantAndId T (tu_id st) s = Some c \<longrightarrow> tu_role c \<noteq> RoleOwner"
  shows "owners (user_call_run E call s) = owners s"
  using assms owners_update [OF assms(1,4)] owners_delete [OF assms(1,4)] owners_invite [OF assms(3)]
  by (cases call) auto

theorem only_owners_touch_owners_witness:
  "owners (user_call_run sample_env (Update ''t1'' ''u2'' \<lparr>utu_email = None, utu_displayName = None,
       utu_role = Some RoleOwner, utu_status = None\<rparr> (Some (sample_user ''u2'' ''b@x'' RoleAdmin UserActive))) staffed_db)
   = owners staffed_db"
proof -
  have "key_table tu_id (tenant_users staffed_db)"
    by (simp add: key_table_def staffed_db_def sample_user_def)
  moreover have "tu_findByTenantAndId ''t1'' ''u2'' staffed_db = Some (sample_user ''u2'' ''b@x'' RoleAdmin UserActive)"
    by (simp add: tu_findByTenantAndId_def staffed_db_def sample_user_def)
  ultimately show ?thesis
    by (intro only_owners_touch_owners [where T = "''t1''" and st = "sample_user ''u2'' ''b@x'' RoleAdmin UserActive"])
      (simp_all add: sample_user_def)
qed

section \<open>Signing in links the invitations\<close>

definition users_ok :: "tenant_user list \<Rightarrow> bool" where
  "users_ok t \<longleftrightarrow> key_table tu_id t
     \<and> index_ok (\<lambda>u. tu_externalUserId u \<noteq> None) (\<lambda>u. (tu_tenantId u, tu_externalUserId u)) t
     \<and> index_ok (\<lambda>_. True) (\<lambda>u. (tu_tenantId u, tu_email u)) t"

definition unclaimed :: "tenant_user \<Rightarrow> bool" where
  "unclaimed u \<longleftrightarrow> tu_externalUserId u = None \<and> tu_status u = UserInvited"

definition activated :: "env \<Rightarrow> string \<Rightarrow> tenant_user \<Rightarrow> tenant_user" where
  "activated E x u = u\<lparr>tu_externalUserId := Some x, tu_status := UserActive, tu_updatedAt := db_now E\<rparr>"

definition member_of :: "string \<Rightarrow> tenant_user list \<Rightarrow> uuid set" where
  "member_of x t = tu_tenantId ` {u \<in> set t. tu_externalUserId u = Some x}"

lemma member_of_mid:
  "member_of x (xs @ r # ys) =
   member_of x xs \<union> member_of x ys \<union> (if tu_externalUserId r = Some x then {tu_tenantId r} else {})"
  by (auto simp: member_of_def)

lemma update_one_row:
  assumes "key_table key t" and "r \<in> set t" and "Q r" and "\<And>u. Q u \<Longrightarrow> key u = key r"
  obtains xs ys where "t = xs @ r # ys" "update_where Q f t = xs @ f r # ys"
proof -
  obtain xs ys where t: "t = xs @ r # ys" using assms(2) by (auto simp: in_set_conv_decomp)
  have "key r \<notin> key ` (set xs \<union> set ys)" using assms(1) t by (auto simp: key_table_def image_Un)
  then have "\<not> Q u" if "u \<in> set xs \<union> set ys" for u
    using assms(4) [of u] that by (metis image_eqI)
  then have "update_where Q f t = xs @ f r # ys"
    using assms(3) t by (auto simp: update_where_def intro!: map_idI)
  with t show thesis by (rule that)
qed

lemma claim_step:
  assumes ok: "users_ok (tenant_users s)" and inv: "u \<in> set (tenant_users s)" "unclaimed u"
    and free: "tu_tenantId u \<notin> member_of x (tenant_users s)"
  obtains xs ys where "tenant_users s = xs @ u # ys"
    and "claimInvitedById E (tu_id u) x s = (Inr (Some (activated E x u)), s\<lparr>tenant_users := xs @ activated E x u # ys\<rparr>)"
    and "users_ok (xs @ activated E x u # ys)"
proof -
  let ?hit = "\<lambda>v. tu_id v = tu_id u \<and> tu_externalUserId v = None \<and> tu_status v = UserInvited"
  have k: "key_table tu_id (tenant_users s)" and hit: "?hit u"
    using ok inv(2) by (simp_all add: users_ok_def unclaimed_def)
  obtain xs ys where t: "tenant_users s = xs @ u # ys"
    and up: "update_where ?hit (activated E x) (tenant_users s) = xs @ activated E x u # ys"
    by (rule update_one_row [where Q = ?hit and f = "activated E x", OF k inv(1) hit]) blast+
  let ?t = "xs @ activated E x u # ys"
  have keys: "tu_id (activated E x u) = tu_id u" "tu_email (activated E x u) = tu_email u"
    "tu_tenantId (activated E x u) = tu_tenantId u" "tu_externalUserId (activated E x u) = Some x"
    by (simp_all add: activated_def)
  have "(tu_tenantId u, Some x) \<notin> (\<lambda>v. (tu_tenantId v, tu_externalUserId v)) ` (set xs \<union> set ys)"
    using free by (auto simp: t member_of_def)
  then have "index_ok (\<lambda>u. tu_externalUserId u \<noteq> None) (\<lambda>u. (tu_tenantId u, tu_externalUserId u)) ?t"
    using ok hit by (auto simp: t users_ok_def index_ok_def keys)
  moreover have "key_table tu_id ?t" "index_ok (\<lambda>_. True) (\<lambda>u. (tu_tenantId u, tu_email u)) ?t"
    using ok by (simp_all add: t users_ok_def key_table_def index_ok_def keys)
  ultimately have ok': "users_ok ?t" by (simp add: users_ok_def)
  have c: "0 < count_where ?hit (tenant_users s)" unfolding count_where_pos using inv(1) hit by blast
  have "tu_id u \<notin> tu_id ` set xs" using k by (simp add: t key_table_def)
  then have "List.find (\<lambda>v. tu_id v = tu_id u) xs = None" unfolding find_None_iff by (metis imageI)
  then have f: "tu_findById (tu_id u) (s\<lparr>tenant_users := ?t\<rparr>) = Some (activated E x u)"
    by (simp add: tu_findById_def find_append keys)
  have "put_tenant_users ?t s = (Inr (), s\<lparr>tenant_users := ?t\<rparr>)"
    using ok' by (simp add: put_tenant_users_Inr users_ok_def)
  then have "claimInvitedById E (tu_id u) x s = (Inr (Some (activated E x u)), s\<lparr>tenant_users := ?t\<rparr>)"
    using up c f unfolding claimInvitedById_def Let_def activated_def [symmetric]
    by (simp add: bindA_def reads_def)
  from that [OF t this ok'] show thesis .
qed

definition claims_done :: "env \<Rightarrow> string \<Rightarrow> tenant_user list \<Rightarrow> uuid list \<Rightarrow> tenant_user list \<Rightarrow> tenant_user list \<Rightarrow> tenant_user list \<Rightarrow> bool" where
  "claims_done E x invites taken new t t' \<longleftrightarrow>
     users_ok t' \<and> member_of x t' = tu_tenantId ` set invites \<union> set taken
     \<and> (\<forall>v \<in> set t. tu_externalUserId v \<noteq> None \<longrightarrow> v \<in> set t')
     \<and> set new \<subseteq> activated E x ` set invites \<and> set new \<subseteq> set t'
     \<and> distinct (map tu_tenantId new) \<and> tu_tenantId ` set new \<inter> set taken = {}"

lemma claim_invites_run:
  assumes "users_ok (tenant_users s)" and "\<forall>u \<in> set invites. u \<in> set (tenant_users s) \<and> unclaimed u"
    and "distinct (map tu_id invites)" and "set taken = member_of x (tenant_users s)"
  shows "\<exists>new s'. claim_invites E x invites taken rows s = (Inr (rows @ new), s')
    \<and> claims_done E x invites taken new (tenant_users s) (tenant_users s')"
  using assms
proof (induction invites arbitrary: taken rows s)
  case Nil
  then show ?case by (simp add: ret_def claims_done_def)
next
  case (Cons u invites)
  show ?case
  proof (cases "tu_tenantId u \<in> set taken")
    case True
    from Cons.IH [of s taken rows] Cons.prems obtain new s'
      where run: "claim_invites E x invites taken rows s = (Inr (rows @ new), s')"
        and d: "claims_done E x invites taken new (tenant_users s) (tenant_users s')" by auto
    from d True have "claims_done E x (u # invites) taken new (tenant_users s) (tenant_users s')"
      by (auto simp: claims_done_def)
    with run True show ?thesis by auto
  next
    case False
    from Cons.prems(2) have u: "u \<in> set (tenant_users s)" "unclaimed u" by auto
    from False Cons.prems(4) have free: "tu_tenantId u \<notin> member_of x (tenant_users s)" by simp
    let ?a = "activated E x u"
    from claim_step [OF Cons.prems(1) u free, where E = E] obtain xs ys
      where t: "tenant_users s = xs @ u # ys"
        and claim: "claimInvitedById E (tu_id u) x s = (Inr (Some ?a), s\<lparr>tenant_users := xs @ ?a # ys\<rparr>)"
        and ok: "users_ok (xs @ ?a # ys)" by blast
    obtain r s2 where aud: "user_audit E AuditUpdate (tu_tenantId ?a) (tu_id ?a) (s\<lparr>tenant_users := xs @ ?a # ys\<rparr>) = (r, s2)"
      by fastforce
    from user_audit_users [OF aud] have s2: "r = Inr ()" "tenant_users s2 = xs @ ?a # ys" by simp_all
    have mem: "set (tu_tenantId u # taken) = member_of x (tenant_users s2)"
      using Cons.prems(4) u(2) by (simp add: s2 t member_of_mid activated_def unclaimed_def)
    have rest: "\<forall>v \<in> set invites. v \<in> set (tenant_users s2) \<and> unclaimed v"
      using Cons.prems(2,3) by (auto simp: s2 t)
    from Cons.IH [of s2 "tu_tenantId u # taken" "rows @ [?a]"] ok rest mem Cons.prems(3) s2 obtain new s'
      where run: "claim_invites E x invites (tu_tenantId u # taken) (rows @ [?a]) s2 = (Inr (rows @ ?a # new), s')"
        and d: "claims_done E x invites (tu_tenantId u # taken) new (tenant_users s2) (tenant_users s')" by auto
    have a: "tu_tenantId ?a = tu_tenantId u" "tu_externalUserId ?a \<noteq> None" by (simp_all add: activated_def)
    have old: "v \<in> set (tenant_users s2)" if "v \<in> set (tenant_users s)" "tu_externalUserId v \<noteq> None" for v
      using that u(2) by (auto simp: s2 t unclaimed_def)
    have "?a \<in> set (tenant_users s')" using d a(2) by (auto simp: claims_done_def s2)
    with d old False have "claims_done E x (u # invites) taken (?a # new) (tenant_users s) (tenant_users s')"
      unfolding claims_done_def by (auto simp: a)
    moreover have "claim_invites E x (u # invites) taken rows s = (Inr (rows @ ?a # new), s')"
      using False claim aud s2(1) run by (simp add: bindA_def)
    ultimately show ?thesis by blast
  qed
qed

text \<open>
  C35 Signing in never fails on the uniqueness of memberships: for every table that satisfies its
  constraints, linking the invitations waiting at an email returns. Afterwards the identity belongs to
  every live tenant that had invited that address and to the tenants it belonged to before, one
  row each; the linked rows are invitations made active with the role they were invited at, in
  distinct tenants, and no row of any identity was lost.
\<close>

theorem sign_in_claims_all:
  assumes "users_ok (tenant_users s)"
  shows "\<exists>rows s'. claimAllInvitedByEmail E email x s = (Inr rows, s') \<and> users_ok (tenant_users s')
    \<and> member_of x (tenant_users s') =
        tu_tenantId ` set (findUnclaimedInvitesByEmail email s) \<union> member_of x (tenant_users s)
    \<and> set rows \<subseteq> activated E x ` set (findUnclaimedInvitesByEmail email s)
    \<and> set rows \<subseteq> set (tenant_users s') \<and> distinct (map tu_tenantId rows)
    \<and> (\<forall>v \<in> set (tenant_users s). tu_externalUserId v \<noteq> None \<longrightarrow> v \<in> set (tenant_users s'))"
proof -
  let ?inv = "findUnclaimedInvitesByEmail email s" and ?ex = "tu_findByExternalUserId x s"
  have ids: "distinct (map tu_id (filter P (tenant_users s)))" for P
    using assms by (simp add: users_ok_def key_table_def distinct_map_filter)
  then have "distinct (map tu_id ?inv)"
    unfolding findUnclaimedInvitesByEmail_def Let_def distinct_map distinct_sort set_sort .
  moreover have "\<forall>u \<in> set ?inv. u \<in> set (tenant_users s) \<and> unclaimed u"
    by (simp add: findUnclaimedInvitesByEmail_def unclaimed_def)
  moreover have mem: "set (map tu_tenantId ?ex) = member_of x (tenant_users s)"
    by (simp add: tu_findByExternalUserId_def member_of_def)
  ultimately obtain new s' where run: "claim_invites E x ?inv (map tu_tenantId ?ex) [] s = (Inr new, s')"
    and d: "claims_done E x ?inv (map tu_tenantId ?ex) new (tenant_users s) (tenant_users s')"
    using claim_invites_run [OF assms, of ?inv "map tu_tenantId ?ex" x E "[]"] by auto
  show ?thesis
  proof (cases "?inv = []")
    case True
    then show ?thesis
      using assms by (simp add: claimAllInvitedByEmail_def bindA_def reads_def ret_def)
  next
    case False
    with run have "claimAllInvitedByEmail E email x s = (Inr new, s')"
      by (simp add: claimAllInvitedByEmail_def bindA_def reads_def)
    with d show ?thesis unfolding claims_done_def mem
      by (intro exI [of _ new] exI [of _ s']) simp
  qed
qed

text \<open>Two invitations in one tenant, at addresses that differ in case: the older is linked.\<close>

definition invited_db :: db where
  "invited_db = empty_db\<lparr>tenant_users := [sample_user ''u1'' ''a@x'' RoleOwner UserActive,
     sample_user ''u2'' ''c@x'' RoleAdmin UserInvited, sample_user ''u3'' ''C@x'' RoleMember UserInvited]\<rparr>"

theorem sign_in_claims_all_witness:
  "\<exists>rows s'. claimAllInvitedByEmail sample_env ''C@X'' ''kc9'' invited_db = (Inr rows, s')
     \<and> member_of ''kc9'' (tenant_users s') = {''t1''}"
proof -
  have "users_ok (tenant_users invited_db)"
    by (simp add: users_ok_def invited_db_def sample_user_def key_table_def index_ok_def)
  note run = sign_in_claims_all [OF this, of sample_env "''C@X''" "''kc9''"]
  have "findUnclaimedInvitesByEmail ''C@X'' invited_db = tl (tenant_users invited_db)"
    by code_simp
  moreover have "member_of ''kc9'' (tenant_users invited_db) = {}"
    by (auto simp: member_of_def invited_db_def sample_user_def)
  ultimately have "tu_tenantId ` set (findUnclaimedInvitesByEmail ''C@X'' invited_db)
      \<union> member_of ''kc9'' (tenant_users invited_db) = {''t1''}"
    by (simp add: invited_db_def sample_user_def)
  with run show ?thesis by metis
qed

end
