(* ===== verification/Business_Metrics.thy ===== *)
theory Business_Metrics
  imports Operation_Service
begin

text \<open>
  \<open>common/telemetry/business-metrics.service.ts\<close> and its transaction subscriber: counters that are
  held back while a transaction is open and counted only when it commits. The service keeps one flat
  queue per query runner and a stack of offsets into it; the reference keeps one buffer per open
  nesting level. Whether the runner's transaction is active is TypeORM's to say, so the flag comes
  with every call.
\<close>

section \<open>Labels\<close>

definition SAFE_LABEL_PATTERN :: "string \<Rightarrow> bool" where
  "SAFE_LABEL_PATTERN v =
     (case v of
        [] \<Rightarrow> False
      | c # cs \<Rightarrow>
          (let letter = (\<lambda>ch. let n = (of_char (js_lower ch) :: nat) in 97 \<le> n \<and> n \<le> 122)
           in letter c \<and> length cs \<le> 63
              \<and> list_all (\<lambda>ch. letter ch \<or> js_digit ch \<or> ch \<in> {CHR ''.'', CHR ''_'', CHR ''-''}) cs))"

definition UUID_PATTERN :: "string \<Rightarrow> bool" where
  "UUID_PATTERN v = uuid_shape v"

definition boundedLabel :: "string \<Rightarrow> string" where
  "boundedLabel v =
     (if UUID_PATTERN v then UNCLASSIFIED_LABEL
      else if SAFE_LABEL_PATTERN v then v else UNCLASSIFIED_LABEL)"

lemmas label_patterns = UUID_PATTERN_def uuid_shape_def SAFE_LABEL_PATTERN_def js_lower_def js_digit_def

section \<open>Deferred records\<close>

record DeferredCredentialOperation =
  dco_operationType :: string
  dco_outcome :: string

text \<open>
  The two entries of the query runner's data (missing until first used) and the credential
  operations counted so far. Adding to a counter may throw; \<open>add_ok\<close> says when it does not.
\<close>

record runner =
  run_deferred :: "DeferredCredentialOperation list option"
  run_marks :: "nat list option"
  run_counted :: "(string \<times> string) list"

definition run_queue :: "runner \<Rightarrow> DeferredCredentialOperation list" where
  "run_queue r = (case run_deferred r of None \<Rightarrow> [] | Some q \<Rightarrow> q)"

definition run_marks_of :: "runner \<Rightarrow> nat list" where
  "run_marks_of r = (case run_marks r of None \<Rightarrow> [] | Some m \<Rightarrow> m)"

definition emitCredentialOperation ::
    "(DeferredCredentialOperation \<Rightarrow> bool) \<Rightarrow> DeferredCredentialOperation \<Rightarrow> runner \<Rightarrow> runner" where
  "emitCredentialOperation add_ok pending r =
     (if add_ok pending
      then r\<lparr>run_counted := run_counted r @ [(boundedLabel (dco_operationType pending), dco_outcome pending)]\<rparr>
      else r)"

definition defer_record :: "DeferredCredentialOperation \<Rightarrow> runner \<Rightarrow> runner" where
  "defer_record pending r = r\<lparr>run_deferred := Some (run_queue r @ [pending])\<rparr>"

definition takeDeferred :: "runner \<Rightarrow> DeferredCredentialOperation list \<times> runner" where
  "takeDeferred r = (run_queue r, r\<lparr>run_deferred := None, run_marks := None\<rparr>)"

definition recordCredentialOperation ::
    "(DeferredCredentialOperation \<Rightarrow> bool) \<Rightarrow> bool \<Rightarrow> DeferredCredentialOperation \<Rightarrow> runner \<Rightarrow> runner" where
  "recordCredentialOperation add_ok active pending r =
     (if active then defer_record pending r else emitCredentialOperation add_ok pending r)"

definition beginDeferredScope :: "runner \<Rightarrow> runner" where
  "beginDeferredScope r =
     r\<lparr>run_deferred := Some (run_queue r), run_marks := Some (run_marks_of r @ [length (run_queue r)])\<rparr>"

definition pop_mark :: "runner \<Rightarrow> nat option \<times> runner" where
  "pop_mark r =
     (let ms = run_marks_of r
      in (if ms = [] then None else Some (last ms), r\<lparr>run_marks := Some (butlast ms)\<rparr>))"

definition flushDeferred :: "(DeferredCredentialOperation \<Rightarrow> bool) \<Rightarrow> bool \<Rightarrow> runner \<Rightarrow> runner" where
  "flushDeferred add_ok active r =
     (let r1 = snd (pop_mark r)
      in if active then r1
         else let (pendingRecords, r2) = takeDeferred r1
              in fold (emitCredentialOperation add_ok) pendingRecords r2)"

definition discardDeferred :: "bool \<Rightarrow> runner \<Rightarrow> runner" where
  "discardDeferred active r =
     (let (mark, r1) = pop_mark r
      in if active
         then r1\<lparr>run_deferred := Some (take (case mark of None \<Rightarrow> 0 | Some m \<Rightarrow> m) (run_queue r1))\<rparr>
         else snd (takeDeferred r1))"

section \<open>The events of a query runner\<close>

text \<open>
  What reaches the service: the three broadcasts of the subscriber and the records made in between.
  TypeORM documents the flag: it is set from the outermost start to the end of the outermost level,
  so at the commit or rollback of a nested level it is still set and at that of the outermost one it
  is cleared. A level only ends after it began.
\<close>

datatype tx_event = TxStart | TxRecord DeferredCredentialOperation | TxCommit | TxRollback

fun tx_handle :: "(DeferredCredentialOperation \<Rightarrow> bool) \<Rightarrow> tx_event \<times> bool \<Rightarrow> runner \<Rightarrow> runner" where
  "tx_handle add_ok (TxStart, active) r = beginDeferredScope r"
| "tx_handle add_ok (TxRecord p, active) r = recordCredentialOperation add_ok active p r"
| "tx_handle add_ok (TxCommit, active) r = flushDeferred add_ok active r"
| "tx_handle add_ok (TxRollback, active) r = discardDeferred active r"

fun typeorm_flags :: "nat \<Rightarrow> (tx_event \<times> bool) list \<Rightarrow> bool" where
  "typeorm_flags depth [] = True"
| "typeorm_flags depth ((TxStart, active) # evs) = (active \<and> typeorm_flags (Suc depth) evs)"
| "typeorm_flags depth ((TxRecord p, active) # evs) = (active = (0 < depth) \<and> typeorm_flags depth evs)"
| "typeorm_flags depth ((TxCommit, active) # evs) =
     (case depth of 0 \<Rightarrow> False | Suc d \<Rightarrow> active = (0 < d) \<and> typeorm_flags d evs)"
| "typeorm_flags depth ((TxRollback, active) # evs) =
     (case depth of 0 \<Rightarrow> False | Suc d \<Rightarrow> active = (0 < d) \<and> typeorm_flags d evs)"

section \<open>The reference: a buffer per level\<close>

text \<open>Innermost level first. A commit hands a level's records to the level around it, or counts them.\<close>

type_synonym levels = "DeferredCredentialOperation list list \<times> DeferredCredentialOperation list"

fun level_step :: "tx_event \<Rightarrow> levels \<Rightarrow> levels" where
  "level_step TxStart (bufs, out) = ([] # bufs, out)"
| "level_step (TxRecord p) ([], out) = ([], out @ [p])"
| "level_step (TxRecord p) (b # bufs, out) = ((b @ [p]) # bufs, out)"
| "level_step TxCommit ([], out) = ([], out)"
| "level_step TxCommit ([b], out) = ([], out @ b)"
| "level_step TxCommit (b # c # bufs, out) = ((c @ b) # bufs, out)"
| "level_step TxRollback (bufs, out) = (tl bufs, out)"

definition counted_as :: "(DeferredCredentialOperation \<Rightarrow> bool) \<Rightarrow> DeferredCredentialOperation list \<Rightarrow> (string \<times> string) list" where
  "counted_as add_ok ps =
     map (\<lambda>p. (boundedLabel (dco_operationType p), dco_outcome p)) (filter add_ok ps)"

fun level_marks :: "DeferredCredentialOperation list list \<Rightarrow> nat list" where
  "level_marks [] = []"
| "level_marks (b # bufs) = level_marks bufs @ [length (concat (rev bufs))]"

text \<open>The queue holds the levels from the outside in; the marks are where each level begins.\<close>

definition refines_levels :: "(DeferredCredentialOperation \<Rightarrow> bool) \<Rightarrow> runner \<Rightarrow> levels \<Rightarrow> bool" where
  "refines_levels add_ok r l \<longleftrightarrow>
     run_queue r = concat (rev (fst l)) \<and> run_marks_of r = level_marks (fst l)
     \<and> run_counted r = counted_as add_ok (snd l)"

lemma queue_simps [simp]:
  "run_queue (r\<lparr>run_deferred := d\<rparr>) = (case d of None \<Rightarrow> [] | Some q \<Rightarrow> q)"
  "run_queue (r\<lparr>run_marks := m\<rparr>) = run_queue r" "run_queue (r\<lparr>run_counted := c\<rparr>) = run_queue r"
  "run_marks_of (r\<lparr>run_marks := m\<rparr>) = (case m of None \<Rightarrow> [] | Some q \<Rightarrow> q)"
  "run_marks_of (r\<lparr>run_deferred := d\<rparr>) = run_marks_of r" "run_marks_of (r\<lparr>run_counted := c\<rparr>) = run_marks_of r"
  by (simp_all add: run_queue_def run_marks_of_def)

lemma counted_as_append [simp]: "counted_as ok (xs @ ys) = counted_as ok xs @ counted_as ok ys"
  by (simp add: counted_as_def)

lemma emit_fold:
  "run_counted (fold (emitCredentialOperation ok) ps r) = run_counted r @ counted_as ok ps
   \<and> run_queue (fold (emitCredentialOperation ok) ps r) = run_queue r
   \<and> run_marks_of (fold (emitCredentialOperation ok) ps r) = run_marks_of r"
  by (induction ps arbitrary: r) (auto simp: emitCredentialOperation_def counted_as_def)

lemma tx_handle_refines:
  assumes "refines_levels ok r (bufs, out)" and "typeorm_flags (length bufs) ((ev, active) # evs)"
  shows "refines_levels ok (tx_handle ok (ev, active) r) (level_step ev (bufs, out))
    \<and> typeorm_flags (length (fst (level_step ev (bufs, out)))) evs"
proof (cases ev)
  case TxStart
  with assms show ?thesis by (simp add: refines_levels_def beginDeferredScope_def)
next
  case (TxRecord p)
  with assms show ?thesis
    by (cases bufs)
       (auto simp: refines_levels_def recordCredentialOperation_def defer_record_def
          emitCredentialOperation_def counted_as_def)
next
  case TxCommit
  with assms show ?thesis
    by (cases bufs rule: level_marks.cases; cases "tl bufs")
       (auto simp: refines_levels_def flushDeferred_def Let_def pop_mark_def takeDeferred_def emit_fold
          butlast_append)
next
  case TxRollback
  with assms show ?thesis
    by (cases bufs; cases "tl bufs")
       (auto simp: refines_levels_def discardDeferred_def Let_def pop_mark_def takeDeferred_def butlast_append)
qed

definition new_runner :: runner where
  "new_runner = \<lparr>run_deferred = None, run_marks = None, run_counted = []\<rparr>"

lemma tx_run_refines:
  "refines_levels ok r l \<Longrightarrow> typeorm_flags (length (fst l)) evs \<Longrightarrow>
   refines_levels ok (fold (tx_handle ok) evs r) (fold (\<lambda>(ev, _). level_step ev) evs l)"
proof (induction evs arbitrary: r l)
  case (Cons e evs)
  obtain ev active where e: "e = (ev, active)" by fastforce
  obtain bufs out where l: "l = (bufs, out)" by fastforce
  from tx_handle_refines [of ok r bufs out ev active evs] Cons.prems Cons.IH show ?case
    by (simp add: e l)
qed simp

text \<open>
  C15 The flat queue with its stack of marks counts exactly what a buffer per nesting level counts:
  after any run of starts, records, commits and rollbacks, in any nesting, a record made inside a
  level that rolled back is never counted, one whose levels all committed is counted once and in
  order, and one made outside a transaction at once.
\<close>

theorem deferred_metrics_refine_levels:
  assumes "typeorm_flags 0 evs"
  shows "run_counted (fold (tx_handle ok) evs new_runner)
    = counted_as ok (snd (fold (\<lambda>(ev, _). level_step ev) evs ([], [])))"
proof -
  have "refines_levels ok new_runner ([], [])"
    by (simp add: refines_levels_def new_runner_def run_queue_def run_marks_of_def counted_as_def)
  from tx_run_refines [OF this] assms show ?thesis by (simp add: refines_levels_def)
qed

definition sample_record :: "string \<Rightarrow> DeferredCredentialOperation" where
  "sample_record ty = \<lparr>dco_operationType = ty, dco_outcome = ''completed''\<rparr>"

definition nested_run :: "(tx_event \<times> bool) list" where
  "nested_run =
     [(TxStart, True), (TxRecord (sample_record CREDENTIAL_OFFER), True),
      (TxStart, True), (TxRecord (sample_record CREDENTIAL_ISSUE), True), (TxRollback, True),
      (TxStart, True), (TxRecord (sample_record CREDENTIAL_REVOKE), True), (TxCommit, True),
      (TxCommit, False)]"

theorem deferred_metrics_refine_levels_witness:
  "run_counted (fold (tx_handle (\<lambda>_. True)) nested_run new_runner)
     = [(CREDENTIAL_OFFER, ''completed''), (CREDENTIAL_REVOKE, ''completed'')]"
proof -
  have "typeorm_flags 0 nested_run" by code_simp
  note deferred_metrics_refine_levels [OF this, of "\<lambda>_. True"]
  also have "snd (fold (\<lambda>(ev, _). level_step ev) nested_run ([], []))
      = [sample_record CREDENTIAL_OFFER, sample_record CREDENTIAL_REVOKE]"
    by (simp add: nested_run_def)
  also have "counted_as (\<lambda>_. True) \<dots> = [(CREDENTIAL_OFFER, ''completed''), (CREDENTIAL_REVOKE, ''completed'')]"
  proof -
    have "boundedLabel CREDENTIAL_OFFER = CREDENTIAL_OFFER" "boundedLabel CREDENTIAL_REVOKE = CREDENTIAL_REVOKE"
      by (simp_all add: boundedLabel_def label_patterns)
    then show ?thesis by (simp add: counted_as_def sample_record_def)
  qed
  finally show ?thesis .
qed

text \<open>
  No identifier becomes a label. What is recorded for a value is the value itself or the one
  shared bucket; a value of the shape of a UUID always goes into the bucket, and every label that is
  recorded is short and made of the characters the code base uses in its own names. Bounding a label
  twice changes nothing.
\<close>

theorem boundedLabel_bounded:
  "boundedLabel v \<in> {v, UNCLASSIFIED_LABEL} \<and> length (boundedLabel v) \<le> 64
   \<and> \<not> uuid_shape (boundedLabel v) \<and> SAFE_LABEL_PATTERN (boundedLabel v)
   \<and> boundedLabel (boundedLabel v) = boundedLabel v"
proof -
  have "SAFE_LABEL_PATTERN UNCLASSIFIED_LABEL" "\<not> uuid_shape UNCLASSIFIED_LABEL"
    by (simp_all add: UNCLASSIFIED_LABEL_def label_patterns)
  moreover have "length w \<le> 64" if "SAFE_LABEL_PATTERN w" for w
    using that by (auto simp: SAFE_LABEL_PATTERN_def Let_def split: list.splits)
  ultimately show ?thesis by (simp add: boundedLabel_def UUID_PATTERN_def)
qed

end
