(* ===== verification/Rate_Limit.thy ===== *)
theory Rate_Limit
  imports Database
begin

text \<open>
  \<open>rate-limit/\<close>: the Postgres-backed throttler storage, the key it is addressed by, the tenant tier
  guard and the prune job. A request is one row; the limit is checked by counting the rows of the
  same tracker and route in a sliding window. Strings are the bytes of their UTF-8 encoding.
\<close>

section \<open>Keys\<close>

definition uri_unreserved :: "char \<Rightarrow> bool" where
  "uri_unreserved c =
     (js_digit c \<or> (let n = (of_char (js_lower c) :: nat) in 97 \<le> n \<and> n \<le> 122)
      \<or> c \<in> set ''-_.!~*()'' \<or> c = CHR 0x27)"

definition hex_char :: "nat \<Rightarrow> char" where
  "hex_char n = (if n < 10 then char_of (48 + n) else char_of (55 + n))"

definition hex_value :: "char \<Rightarrow> nat option" where
  "hex_value c =
     (let n = (of_char c :: nat)
      in if 48 \<le> n \<and> n \<le> 57 then Some (n - 48)
         else if 65 \<le> n \<and> n \<le> 70 then Some (n - 55)
         else if 97 \<le> n \<and> n \<le> 102 then Some (n - 87) else None)"

definition encodeURIComponent :: "string \<Rightarrow> string" where
  "encodeURIComponent s =
     concat (map (\<lambda>c. if uri_unreserved c then [c]
                      else [CHR ''%'', hex_char (of_char c div 16), hex_char (of_char c mod 16)]) s)"

fun decodeURIComponent :: "string \<Rightarrow> string option" where
  "decodeURIComponent [] = Some []"
| "decodeURIComponent (c # cs) =
     (if c = CHR ''%'' then
        (case cs of
           h # l # rest \<Rightarrow>
             (case (hex_value h, hex_value l) of
                (Some a, Some b) \<Rightarrow> map_option (\<lambda>s. char_of (16 * a + b) # s) (decodeURIComponent rest)
              | _ \<Rightarrow> None)
         | _ \<Rightarrow> None)
      else map_option (\<lambda>s. c # s) (decodeURIComponent cs))"

definition KEY_SEPARATOR :: string where
  "KEY_SEPARATOR = ''::''"

definition buildRateLimitKey :: "string \<Rightarrow> string \<Rightarrow> string" where
  "buildRateLimitKey tracker routeKey =
     encodeURIComponent tracker @ KEY_SEPARATOR @ encodeURIComponent routeKey"

fun index_of :: "string \<Rightarrow> string \<Rightarrow> nat option" where
  "index_of pat [] = (if pat = [] then Some 0 else None)"
| "index_of pat (c # cs) =
     (if take (length pat) (c # cs) = pat then Some 0 else map_option Suc (index_of pat cs))"

definition parseRateLimitKey :: "string \<Rightarrow> err + (string \<times> string)" where
  "parseRateLimitKey key =
     (case index_of KEY_SEPARATOR key of
        None \<Rightarrow> Inl (JsError (''Malformed rate limit key: '' @ key))
      | Some separatorIndex \<Rightarrow>
          (case (decodeURIComponent (take separatorIndex key),
                 decodeURIComponent (drop (separatorIndex + length KEY_SEPARATOR) key)) of
             (Some tracker, Some routeKey) \<Rightarrow> Inr (tracker, routeKey)
           | _ \<Rightarrow> Inl (JsError ''URI malformed'')))"

section \<open>Hits\<close>

definition hits_recordHit :: "env \<Rightarrow> string \<Rightarrow> string \<Rightarrow> unit service" where
  "hits_recordHit E tracker routeKey =
     modifies (\<lambda>s. s\<lparr>rate_limit_hits := rate_limit_hits s @
       [\<lparr>rh_tracker = tracker, rh_routeKey = routeKey, rh_hitAt = db_now E\<rparr>]\<rparr>)"

definition hits_countSince :: "string \<Rightarrow> string \<Rightarrow> int \<Rightarrow> db \<Rightarrow> nat" where
  "hits_countSince tracker routeKey since s =
     count_where (\<lambda>h. rh_tracker h = tracker \<and> rh_routeKey h = routeKey \<and> of_js since \<le> rh_hitAt h)
       (rate_limit_hits s)"

definition hits_countGroupedByRouteSince :: "uuid \<Rightarrow> int \<Rightarrow> db \<Rightarrow> (string \<times> nat) list" where
  "hits_countGroupedByRouteSince tenantId since s =
     (let rows = filter (\<lambda>h. rh_tracker h = tenantId \<and> of_js since \<le> rh_hitAt h) (rate_limit_hits s)
      in map (\<lambda>route. (route, count_where (\<lambda>h. rh_routeKey h = route) rows)) (remdups (map rh_routeKey rows)))"

definition hits_deleteForTenant :: "uuid \<Rightarrow> nat service" where
  "hits_deleteForTenant tenantId = (\<lambda>s.
     (Inr (count_where (\<lambda>h. rh_tracker h = tenantId) (rate_limit_hits s)),
      s\<lparr>rate_limit_hits := filter (\<lambda>h. rh_tracker h \<noteq> tenantId) (rate_limit_hits s)\<rparr>))"

definition hits_pruneOlderThan :: "int \<Rightarrow> nat service" where
  "hits_pruneOlderThan cutoff = (\<lambda>s.
     (Inr (count_where (\<lambda>h. rh_hitAt h < of_js cutoff) (rate_limit_hits s)),
      s\<lparr>rate_limit_hits := filter (\<lambda>h. \<not> rh_hitAt h < of_js cutoff) (rate_limit_hits s)\<rparr>))"

section \<open>The storage\<close>

record RateLimitStorageRecord =
  rls_totalHits :: nat
  rls_timeToExpire :: int
  rls_isBlocked :: bool
  rls_timeToBlockExpire :: int

definition ceil_seconds :: "int \<Rightarrow> int" where
  "ceil_seconds ms = - ((- ms) div 1000)"

definition increment :: "env \<Rightarrow> string \<Rightarrow> int \<Rightarrow> nat \<Rightarrow> int \<Rightarrow> RateLimitStorageRecord service" where
  "increment E key ttl limit blockDuration =
     bindA (lift (parseRateLimitKey key)) (\<lambda>(tracker, routeKey).
       let since = js_now E - ttl in
       bindA (reads (hits_countSince tracker routeKey since)) (\<lambda>existingHits.
         let alreadyBlocked = existingHits > limit in
         bindA (whenA (\<not> alreadyBlocked) (hits_recordHit E tracker routeKey)) (\<lambda>_.
           let totalHits = (if alreadyBlocked then existingHits else existingHits + 1);
               isBlocked = totalHits > limit
           in ret \<lparr>rls_totalHits = totalHits, rls_timeToExpire = ceil_seconds ttl, rls_isBlocked = isBlocked,
                   rls_timeToBlockExpire =
                     (if isBlocked then ceil_seconds (if blockDuration = 0 then ttl else blockDuration) else 0)\<rparr>)))"

section \<open>Guards and pruning\<close>

datatype RateLimitTier = TierStandard | TierPremium

definition resolveRateLimitTier :: "json option \<Rightarrow> RateLimitTier" where
  "resolveRateLimitTier config =
     (case Option.bind config (\<lambda>c. jget c ''rate_limits'') of
        Some rateLimits \<Rightarrow> if jget rateLimits ''tier'' = Some (JStr ''premium'') then TierPremium else TierStandard
      | None \<Rightarrow> TierStandard)"

text \<open>The settings as \<open>Number\<close> reads them from the configuration.\<close>

record rate_config =
  rc_enabled :: bool
  rc_windowMs :: int
  rc_standardPerMinute :: nat
  rc_premiumPerMinute :: nat
  rc_retentionMinutes :: "int option"

definition tenantTier_canActivate :: "env \<Rightarrow> rate_config \<Rightarrow> uuid option \<Rightarrow> string \<Rightarrow> bool service" where
  "tenantTier_canActivate E C requestTenant routeKey =
     (if \<not> rc_enabled C then ret True
      else case requestTenant of
        None \<Rightarrow> ret True
      | Some tenantId \<Rightarrow>
          if tenantId = '''' then ret True
          else
            bindA (reads (\<lambda>s. List.find (\<lambda>t. ten_id t = tenantId \<and> ten_deletedAt t = None) (tenants s))) (\<lambda>tenant.
              let tier = resolveRateLimitTier (map_option ten_config tenant);
                  limit = (if tier = TierPremium then rc_premiumPerMinute C else rc_standardPerMinute C);
                  ttl = rc_windowMs C
              in bindA (increment E (buildRateLimitKey tenantId routeKey) ttl limit ttl) (\<lambda>r.
                   if rls_isBlocked r then throw ThrottlerException else ret True)))"

definition prune_handle :: "env \<Rightarrow> rate_config \<Rightarrow> nat service" where
  "prune_handle E C =
     (let minutes = (case rc_retentionMinutes C of Some m \<Rightarrow> if m > 0 then m else 5 | None \<Rightarrow> 5)
      in hits_pruneOlderThan (js_now E - minutes * 60 * 1000))"

section \<open>Keys round-trip\<close>

lemma hex_value_hex_char: "n < 16 \<Longrightarrow> hex_value (hex_char n) = Some n"
  by (auto simp: hex_value_def hex_char_def Let_def)

lemma hex_char_not_colon: "n < 16 \<Longrightarrow> hex_char n \<noteq> CHR '':''"
proof -
  assume n: "n < 16"
  have "of_char (hex_char n) \<noteq> (58 :: nat)" using n by (auto simp: hex_char_def)
  then show ?thesis by auto
qed

lemma uri_unreserved_special: "\<not> uri_unreserved (CHR ''%'')" "\<not> uri_unreserved (CHR '':'')"
  by (simp_all add: uri_unreserved_def js_digit_def js_lower_def)

lemma nibbles: "of_char c div 16 < (16 :: nat)" "of_char c mod 16 < (16 :: nat)"
  by (rule less_mult_imp_div_less) simp_all

lemma decode_plain: "c \<noteq> CHR ''%'' \<Longrightarrow> decodeURIComponent (c # cs) = map_option (\<lambda>s. c # s) (decodeURIComponent cs)"
  by simp

lemma decode_escape:
  "a < 16 \<Longrightarrow> b < 16 \<Longrightarrow>
   decodeURIComponent (CHR ''%'' # hex_char a # hex_char b # rest)
   = map_option (\<lambda>s. char_of (16 * a + b) # s) (decodeURIComponent rest)"
  by (simp add: hex_value_hex_char)

lemma encode_Cons:
  "encodeURIComponent (c # s) =
     (if uri_unreserved c then c # encodeURIComponent s
      else CHR ''%'' # hex_char (of_char c div 16) # hex_char (of_char c mod 16) # encodeURIComponent s)"
  by (simp add: encodeURIComponent_def)

lemma decode_encodeURIComponent: "decodeURIComponent (encodeURIComponent s) = Some s"
proof (induction s)
  case (Cons c s)
  have char: "char_of (16 * (of_char c div 16) + of_char c mod 16 :: nat) = c"
    by (simp only: mult_div_mod_eq char_of_char)
  show ?case
  proof (cases "uri_unreserved c")
    case True
    then have "c \<noteq> CHR ''%''" using uri_unreserved_special(1) by auto
    with True Cons show ?thesis by (simp add: encode_Cons decode_plain del: decodeURIComponent.simps)
  next
    case False
    with Cons show ?thesis
      by (simp add: encode_Cons decode_escape nibbles char del: decodeURIComponent.simps)
  qed
qed (simp add: encodeURIComponent_def)

lemma encode_no_colon: "CHR '':'' \<notin> set (encodeURIComponent s)"
proof -
  have "CHR '':'' \<noteq> hex_char (of_char c div 16)" "CHR '':'' \<noteq> hex_char (of_char c mod 16)" for c
    using hex_char_not_colon nibbles by metis+
  then show ?thesis
    using uri_unreserved_special(2) by (auto simp: encodeURIComponent_def split: if_splits)
qed

lemma index_of_separator: "CHR '':'' \<notin> set p \<Longrightarrow> index_of ''::'' (p @ ''::'' @ q) = Some (length p)"
proof (induction p)
  case (Cons c p)
  then show ?case by (cases p) auto
qed simp

lemma parse_build: "parseRateLimitKey (buildRateLimitKey t r) = Inr (t, r)"
proof -
  let ?key = "buildRateLimitKey t r"
  have "index_of KEY_SEPARATOR ?key = Some (length (encodeURIComponent t))"
    unfolding buildRateLimitKey_def KEY_SEPARATOR_def by (rule index_of_separator [OF encode_no_colon])
  moreover have "take (length (encodeURIComponent t)) ?key = encodeURIComponent t"
    "drop (length (encodeURIComponent t) + length KEY_SEPARATOR) ?key = encodeURIComponent r"
    by (simp_all add: buildRateLimitKey_def)
  ultimately show ?thesis
    by (simp add: parseRateLimitKey_def decode_encodeURIComponent)
qed

text \<open>
  A rate limit key names its bucket unambiguously: taking apart the key built from a tracker and
  a route gives them back, whatever characters they contain --- an IPv6 address contains the
  separator itself --- so two different buckets never share a key.
\<close>

theorem rate_limit_key_round_trip:
  "parseRateLimitKey (buildRateLimitKey tracker routeKey) = Inr (tracker, routeKey)
   \<and> (buildRateLimitKey tracker routeKey = buildRateLimitKey tracker' routeKey' \<longleftrightarrow>
        tracker = tracker' \<and> routeKey = routeKey')"
proof (rule conjI [OF _ iffI])
  show "parseRateLimitKey (buildRateLimitKey tracker routeKey) = Inr (tracker, routeKey)"
    by (rule parse_build)
  show "tracker = tracker' \<and> routeKey = routeKey'"
    if "buildRateLimitKey tracker routeKey = buildRateLimitKey tracker' routeKey'"
    using arg_cong [OF that, of parseRateLimitKey] by (simp only: parse_build sum.inject prod.inject)
qed simp

section \<open>The window\<close>

definition bucket_times :: "string \<Rightarrow> string \<Rightarrow> db \<Rightarrow> int list" where
  "bucket_times tracker routeKey s =
     map rh_hitAt (filter (\<lambda>h. rh_tracker h = tracker \<and> rh_routeKey h = routeKey) (rate_limit_hits s))"

definition add_hit :: "env \<Rightarrow> string \<Rightarrow> string \<Rightarrow> db \<Rightarrow> db" where
  "add_hit E tracker routeKey s = s\<lparr>rate_limit_hits := rate_limit_hits s @
     [\<lparr>rh_tracker = tracker, rh_routeKey = routeKey, rh_hitAt = db_now E\<rparr>]\<rparr>"

lemma countSince_times:
  "hits_countSince tr rk x s = length (filter (\<lambda>h. of_js x \<le> h) (bucket_times tr rk s))"
  unfolding hits_countSince_def count_where_def bucket_times_def filter_map length_map filter_filter
  by (rule arg_cong [where f = length], rule filter_cong) auto

lemma bucket_times_add_hit:
  "bucket_times tr rk (add_hit E tr' rk' s) =
     bucket_times tr rk s @ (if tr' = tr \<and> rk' = rk then [db_now E] else [])"
  by (simp add: bucket_times_def add_hit_def)

lemma increment_run:
  "\<exists>r. increment E (buildRateLimitKey tr rk) ttl limit bd s =
       (Inr r, if limit < hits_countSince tr rk (js_now E - ttl) s then s else add_hit E tr rk s)
     \<and> rls_isBlocked r = (limit \<le> hits_countSince tr rk (js_now E - ttl) s)"
  by (auto simp: increment_def parse_build lift_def bindA_def reads_def whenA_def ret_def hits_recordHit_def
        modifies_def add_hit_def Let_def)

text \<open>
  What happens to the table: requests of one bucket, requests of any bucket under limits of their
  own, and prune runs with their retention. Each runs to its end before the next.
\<close>

datatype rate_step =
    BucketRequest (step_env: env)
  | AnyRequest (step_env: env) string string int nat
  | PruneRun (step_env: env) int

fun rate_run :: "string \<Rightarrow> string \<Rightarrow> int \<Rightarrow> nat \<Rightarrow> rate_step list \<Rightarrow> int list \<times> db \<Rightarrow> int list \<times> db" where
  "rate_run tr rk ttl limit [] (adm, s) = (adm, s)"
| "rate_run tr rk ttl limit (BucketRequest E # steps) (adm, s) =
     (case increment E (buildRateLimitKey tr rk) ttl limit ttl s of
        (Inr r, s') \<Rightarrow> rate_run tr rk ttl limit steps (if rls_isBlocked r then adm else adm @ [js_now E], s')
      | (Inl _, s') \<Rightarrow> rate_run tr rk ttl limit steps (adm, s'))"
| "rate_run tr rk ttl limit (AnyRequest E tr' rk' ttl' limit' # steps) (adm, s) =
     rate_run tr rk ttl limit steps (adm, snd (increment E (buildRateLimitKey tr' rk') ttl' limit' ttl' s))"
| "rate_run tr rk ttl limit (PruneRun E retention # steps) (adm, s) =
     rate_run tr rk ttl limit steps (adm, snd (hits_pruneOlderThan (js_now E - retention) s))"

fun step_ok :: "int \<Rightarrow> rate_step \<Rightarrow> bool" where
  "step_ok ttl (PruneRun E retention) = (ttl \<le> retention)"
| "step_ok ttl step = (db_now (step_env step) = of_js (js_now (step_env step)))"

definition window_inv :: "string \<Rightarrow> string \<Rightarrow> int \<Rightarrow> nat \<Rightarrow> int \<Rightarrow> int list \<times> db \<Rightarrow> bool" where
  "window_inv tr rk ttl limit now p \<longleftrightarrow>
     (\<forall>a. length (filter (\<lambda>t. a \<le> t \<and> t \<le> a + ttl) (fst p)) \<le> limit)
     \<and> (\<forall>x \<ge> now - ttl. length (filter (\<lambda>t. x \<le> t) (fst p)) \<le> hits_countSince tr rk x (snd p))"

lemma countSince_mono: "hits_countSince tr rk x s \<le> hits_countSince tr rk x (add_hit E tr' rk' s)"
  by (simp add: countSince_times bucket_times_add_hit)

lemma window_inv_later: "window_inv tr rk ttl limit now p \<Longrightarrow> now \<le> now' \<Longrightarrow> window_inv tr rk ttl limit now' p"
  by (auto simp: window_inv_def)

lemma window_inv_hit:
  "window_inv tr rk ttl limit now (adm, s) \<Longrightarrow> window_inv tr rk ttl limit now (adm, add_hit E tr' rk' s)"
  using countSince_mono order_trans by (fastforce simp: window_inv_def)

lemma window_inv_prune:
  assumes "window_inv tr rk ttl limit (js_now E) (adm, s)" and "ttl \<le> retention"
  shows "window_inv tr rk ttl limit (js_now E) (adm, snd (hits_pruneOlderThan (js_now E - retention) s))"
proof -
  have "hits_countSince tr rk x (snd (hits_pruneOlderThan (js_now E - retention) s)) = hits_countSince tr rk x s"
    if "js_now E - ttl \<le> x" for x
  proof -
    have "\<not> h < of_js (js_now E - retention)" if "of_js x \<le> h" for h
      using that assms(2) \<open>js_now E - ttl \<le> x\<close> by (simp add: of_js_def)
    then show ?thesis
      unfolding hits_countSince_def count_where_def hits_pruneOlderThan_def
      by (auto intro!: arg_cong [where f = length] filter_cong)
  qed
  with assms(1) show ?thesis by (simp add: window_inv_def)
qed

lemma length_filter_le: "(\<And>x. P x \<Longrightarrow> Q x) \<Longrightarrow> length (filter P xs) \<le> length (filter Q xs)"
  by (induction xs) (auto simp: le_SucI)

lemma window_inv_admit:
  assumes inv: "window_inv tr rk ttl limit (js_now E) (adm, s)" and clock: "db_now E = of_js (js_now E)"
    and room: "hits_countSince tr rk (js_now E - ttl) s < limit"
  shows "window_inv tr rk ttl limit (js_now E) (adm @ [js_now E], add_hit E tr rk s)"
  unfolding window_inv_def
proof (intro conjI allI impI)
  fix a
  show "length (filter (\<lambda>t. a \<le> t \<and> t \<le> a + ttl) (fst (adm @ [js_now E], add_hit E tr rk s))) \<le> limit"
  proof (cases "a \<le> js_now E \<and> js_now E \<le> a + ttl")
    case True
    have "length (filter (\<lambda>t. a \<le> t \<and> t \<le> a + ttl) adm) \<le> length (filter (\<lambda>t. js_now E - ttl \<le> t) adm)"
      using True by (intro length_filter_le) auto
    also have "\<dots> \<le> hits_countSince tr rk (js_now E - ttl) s"
      using inv by (simp add: window_inv_def)
    finally show ?thesis using room True by simp
  qed (use inv in \<open>auto simp: window_inv_def\<close>)
next
  fix x assume "js_now E - ttl \<le> x"
  then show "length (filter (\<lambda>t. x \<le> t) (fst (adm @ [js_now E], add_hit E tr rk s)))
      \<le> hits_countSince tr rk x (snd (adm @ [js_now E], add_hit E tr rk s))"
    using inv by (simp add: window_inv_def countSince_times bucket_times_add_hit clock of_js_def)
qed

lemma rate_run_inv:
  assumes "window_inv tr rk ttl limit now (adm, s)"
    and "\<forall>step \<in> set steps. step_ok ttl step \<and> now \<le> js_now (step_env step)"
    and "sorted (map (\<lambda>step. js_now (step_env step)) steps)"
  shows "\<exists>now'. window_inv tr rk ttl limit now' (rate_run tr rk ttl limit steps (adm, s))"
  using assms
proof (induction steps arbitrary: now adm s)
  case (Cons step steps)
  let ?E = "step_env step"
  have inv: "window_inv tr rk ttl limit (js_now ?E) (adm, s)"
    using window_inv_later Cons.prems(1,2) by auto
  have rest: "\<forall>step \<in> set steps. step_ok ttl step \<and> js_now ?E \<le> js_now (step_env step)"
    "sorted (map (\<lambda>step. js_now (step_env step)) steps)"
    using Cons.prems(2,3) by auto
  show ?case
  proof (cases step)
    case (BucketRequest E)
    obtain r where r: "increment E (buildRateLimitKey tr rk) ttl limit ttl s =
        (Inr r, if limit < hits_countSince tr rk (js_now E - ttl) s then s else add_hit E tr rk s)"
      "rls_isBlocked r = (limit \<le> hits_countSince tr rk (js_now E - ttl) s)"
      using increment_run by blast
    have "window_inv tr rk ttl limit (js_now E)
        (if rls_isBlocked r then adm else adm @ [js_now E],
         if limit < hits_countSince tr rk (js_now E - ttl) s then s else add_hit E tr rk s)"
      using inv BucketRequest Cons.prems(2) r(2) window_inv_hit window_inv_admit by auto
    from Cons.IH [OF this] rest BucketRequest r show ?thesis by simp
  next
    case (AnyRequest E tr' rk' ttl' limit')
    obtain r where r: "increment E (buildRateLimitKey tr' rk') ttl' limit' ttl' s =
        (Inr r, if limit' < hits_countSince tr' rk' (js_now E - ttl') s then s else add_hit E tr' rk' s)"
      using increment_run by blast
    have "window_inv tr rk ttl limit (js_now E)
        (adm, if limit' < hits_countSince tr' rk' (js_now E - ttl') s then s else add_hit E tr' rk' s)"
      using inv AnyRequest window_inv_hit by auto
    from Cons.IH [OF this] rest AnyRequest r show ?thesis by simp
  next
    case (PruneRun E retention)
    have "window_inv tr rk ttl limit (js_now E) (adm, snd (hits_pruneOlderThan (js_now E - retention) s))"
      using inv PruneRun Cons.prems(2) by (intro window_inv_prune) simp_all
    from Cons.IH [OF this] rest PruneRun show ?thesis by simp
  qed
qed auto


definition at_time :: "int \<Rightarrow> env" where
  "at_time t = sample_env\<lparr>js_now := t, db_now := of_js t\<rparr>"


section \<open>Floods\<close>

lemma window_drop:
  "sorted_wrt (\<lambda>a b. a + d \<le> b) ts \<Longrightarrow> 0 < (d :: int) \<Longrightarrow>
   length (filter (\<lambda>h. y \<le> h) ts) \<le> Suc (length (filter (\<lambda>h. y + d \<le> h) ts))"
proof (induction ts)
  case (Cons a ts)
  show ?case
  proof (cases "y \<le> a")
    case True
    then have "filter (\<lambda>h. y \<le> h) ts = ts" "filter (\<lambda>h. y + d \<le> h) ts = ts"
      using Cons.prems by (auto intro!: filter_True)
    with True show ?thesis by simp
  qed (use Cons in auto)
qed simp

text \<open>One request every \<open>g\<close> milliseconds from the instant of \<open>E 0\<close> on: which of them are blocked.\<close>

fun flood :: "(nat \<Rightarrow> env) \<Rightarrow> string \<Rightarrow> string \<Rightarrow> int \<Rightarrow> nat \<Rightarrow> nat \<Rightarrow> nat \<Rightarrow> db \<Rightarrow> bool list" where
  "flood E tr rk ttl limit k 0 s = []"
| "flood E tr rk ttl limit k (Suc n) s =
     (case increment (E k) (buildRateLimitKey tr rk) ttl limit ttl s of
        (Inr r, s') \<Rightarrow> rls_isBlocked r # flood E tr rk ttl limit (Suc k) n s'
      | (Inl _, s') \<Rightarrow> [])"

definition saturated :: "string \<Rightarrow> string \<Rightarrow> int \<Rightarrow> nat \<Rightarrow> int \<Rightarrow> int \<Rightarrow> db \<Rightarrow> bool" where
  "saturated tr rk ttl limit g t s \<longleftrightarrow>
     sorted_wrt (\<lambda>a b. a + of_js g \<le> b) (bucket_times tr rk s)
     \<and> (\<forall>h \<in> set (bucket_times tr rk s). h + of_js g \<le> of_js t)
     \<and> limit \<le> hits_countSince tr rk (t - ttl) s"

lemma saturated_next:
  assumes sat: "saturated tr rk ttl limit g t s" and "0 < g" and "0 \<le> ttl"
    and E: "js_now E = t" "db_now E = of_js t"
  shows "saturated tr rk ttl limit g (t + g) (if limit < hits_countSince tr rk (t - ttl) s then s else add_hit E tr rk s)"
proof -
  let ?s = "if limit < hits_countSince tr rk (t - ttl) s then s else add_hit E tr rk s"
  have spaced: "sorted_wrt (\<lambda>a b. a + of_js g \<le> b) (bucket_times tr rk ?s)"
    using sat E by (auto simp: saturated_def bucket_times_add_hit sorted_wrt_append)
  have past: "h + of_js g \<le> of_js (t + g)" if "h \<in> set (bucket_times tr rk ?s)" for h
    using that sat E \<open>0 < g\<close> by (auto simp: saturated_def bucket_times_add_hit of_js_def split: if_splits)
  have "Suc limit \<le> hits_countSince tr rk (t - ttl) ?s"
    using sat E \<open>0 \<le> ttl\<close> by (auto simp: saturated_def countSince_times bucket_times_add_hit of_js_def)
  also have "\<dots> \<le> Suc (hits_countSince tr rk (t + g - ttl) ?s)"
  proof -
    have "of_js (t - ttl) + of_js g = of_js (t + g - ttl)" and "0 < of_js g"
      using \<open>0 < g\<close> by (simp_all add: of_js_def)
    then show ?thesis
      using window_drop [OF spaced, of "of_js (t - ttl)"] by (simp only: countSince_times)
  qed
  finally show ?thesis using spaced past by (simp add: saturated_def)
qed

lemma flood_blocked:
  assumes "saturated tr rk ttl limit g (js_now (E k)) s" and "0 < g" and "0 \<le> ttl"
    and "\<And>j. js_now (E (Suc j)) = js_now (E j) + g" and "\<And>j. db_now (E j) = of_js (js_now (E j))"
  shows "flood E tr rk ttl limit k n s = replicate n True"
  using assms(1)
proof (induction n arbitrary: k s)
  case (Suc n)
  obtain r where r: "increment (E k) (buildRateLimitKey tr rk) ttl limit ttl s =
      (Inr r, if limit < hits_countSince tr rk (js_now (E k) - ttl) s then s else add_hit (E k) tr rk s)"
    "rls_isBlocked r = (limit \<le> hits_countSince tr rk (js_now (E k) - ttl) s)"
    using increment_run by blast
  from Suc.IH [of "Suc k"] saturated_next [OF Suc.prems assms(2,3) refl assms(5)] assms(4) r Suc.prems
  show ?case by (simp add: saturated_def)
qed simp

text \<open>
  Blocked requests keep the block alive. A request that finds exactly \<open>limit\<close> hits in its window
  is blocked and recorded nevertheless, so a client that keeps asking at a steady rate refills the
  window it is waiting for: once the window is full, every later request is blocked, however long
  the client goes on --- although it is documented that a blocked request does not change when the
  caller unblocks.
\<close>

theorem rate_limit_flood_starves:
  assumes "limit \<le> hits_countSince tr rk (js_now (E 0) - ttl) s"
    and "sorted_wrt (\<lambda>a b. a + of_js g \<le> b) (bucket_times tr rk s)"
    and "\<forall>h \<in> set (bucket_times tr rk s). h + of_js g \<le> of_js (js_now (E 0))"
    and "0 < g" and "0 \<le> ttl"
    and "\<And>j. js_now (E (Suc j)) = js_now (E j) + g" and "\<And>j. db_now (E j) = of_js (js_now (E j))"
  shows "flood E tr rk ttl limit 0 n s = replicate n True"
  using flood_blocked [of tr rk ttl limit g E 0 s] assms by (simp add: saturated_def)

definition full_db :: db where
  "full_db = empty_db\<lparr>rate_limit_hits :=
     [\<lparr>rh_tracker = ''t1'', rh_routeKey = ''r'', rh_hitAt = 1000\<rparr>,
      \<lparr>rh_tracker = ''t1'', rh_routeKey = ''r'', rh_hitAt = 2000\<rparr>]\<rparr>"

theorem rate_limit_flood_starves_witness:
  "flood (\<lambda>k. at_time (3 + int k)) ''t1'' ''r'' 10 2 0 1000 full_db = replicate 1000 True"
  by (rule rate_limit_flood_starves [where g = 1])
     (simp_all add: at_time_def full_db_def hits_countSince_def count_where_def bucket_times_def of_js_def)

end
