(* ===== verification/Scope_Auth.thy ===== *)
theory Scope_Auth
  imports Tenant_Access
begin

text \<open>
  \<open>libs/auth\<close>: the scope and role catalogues, \<open>ScopeAuthorizationService\<close>,
  \<open>partitionRequestedScopes\<close>, the claims a verified token is reduced to, and the guards that run
  before every tenant route. Verifying the signature is the work of \<open>jose\<close> and a parameter.
\<close>

section \<open>Catalogues\<close>

definition TENANT_SUPERUSER_SCOPE :: string where
  "TENANT_SUPERUSER_SCOPE = ''tenants:admin''"

definition OAUTH_CLIENT_PLATFORM_ROLES :: "string list" where
  "OAUTH_CLIENT_PLATFORM_ROLES = [PLATFORM_ADMIN_ROLE]"

definition LEVEL2_SCOPES :: "string list" where
  "LEVEL2_SCOPES = [''credentials:offer'', ''credentials:verify'', ''credentials:hold'', ''credentials:revoke'',
     ''connections:manage'', ''profiles:manage'', ''users:manage'', ''clients:manage'']"

definition LEVEL3_SCOPES :: "string list" where
  "LEVEL3_SCOPES = [''logs:read'', ''audit:read'']"

definition ALL_TENANT_SCOPES :: "string list" where
  "ALL_TENANT_SCOPES = LEVEL2_SCOPES @ LEVEL3_SCOPES"

definition ASSIGNABLE_OAUTH_CLIENT_SCOPES :: "string list" where
  "ASSIGNABLE_OAUTH_CLIENT_SCOPES = TENANT_SUPERUSER_SCOPE # ALL_TENANT_SCOPES"

definition OIDC_SCOPE_ALLOWLIST :: "string list" where
  "OIDC_SCOPE_ALLOWLIST = ''openid'' # TENANT_SUPERUSER_SCOPE # ALL_TENANT_SCOPES"

record ScopeCatalogEntry =
  sce_name :: string
  sce_description :: string
  sce_level :: nat

definition SCOPE_CATALOG :: "ScopeCatalogEntry list" where
  "SCOPE_CATALOG =
     [\<lparr>sce_name = TENANT_SUPERUSER_SCOPE,
       sce_description = ''Tenant superuser. Implicitly grants every Level 2 and Level 3 scope.'', sce_level = 1\<rparr>,
      \<lparr>sce_name = ''credentials:offer'', sce_description = ''Issue credential offers.'', sce_level = 2\<rparr>,
      \<lparr>sce_name = ''credentials:verify'', sce_description = ''Request and verify presentations.'', sce_level = 2\<rparr>,
      \<lparr>sce_name = ''credentials:hold'', sce_description = ''Accept or reject credential offers.'', sce_level = 2\<rparr>,
      \<lparr>sce_name = ''credentials:revoke'', sce_description = ''Revoke issued credentials.'', sce_level = 2\<rparr>,
      \<lparr>sce_name = ''connections:manage'', sce_description = ''Create, list, and delete connections.'', sce_level = 2\<rparr>,
      \<lparr>sce_name = ''profiles:manage'', sce_description = ''Manage issuance and verification profiles.'', sce_level = 2\<rparr>,
      \<lparr>sce_name = ''users:manage'', sce_description = ''Invite, update, and remove tenant users.'', sce_level = 2\<rparr>,
      \<lparr>sce_name = ''clients:manage'', sce_description = ''Register and revoke API clients.'', sce_level = 2\<rparr>,
      \<lparr>sce_name = ''logs:read'', sce_description = ''View tenant observability logs.'', sce_level = 3\<rparr>,
      \<lparr>sce_name = ''audit:read'', sce_description = ''Read the tenant audit log API.'', sce_level = 3\<rparr>]"

definition isKnownScope :: "string \<Rightarrow> bool" where
  "isKnownScope scope \<longleftrightarrow> scope \<in> set (map sce_name SCOPE_CATALOG)"

definition ROLE_HIERARCHY :: "string list" where
  "ROLE_HIERARCHY = [''owner'', ''admin'', ''member'', ''readonly'']"

definition OAUTH_CLIENT_ALLOWED_ROLES :: "string list" where
  "OAUTH_CLIENT_ALLOWED_ROLES = ROLE_HIERARCHY @ OAUTH_CLIENT_PLATFORM_ROLES"

section \<open>\<open>ScopeAuthorizationService\<close>\<close>

definition roles_isPlatformAdmin :: "string list \<Rightarrow> bool" where
  "roles_isPlatformAdmin roles \<longleftrightarrow> PLATFORM_ADMIN_ROLE \<in> set roles"

definition hasRequiredRoles :: "string list \<Rightarrow> string list \<Rightarrow> bool" where
  "hasRequiredRoles tokenRoles requiredRoles =
     (if requiredRoles = [] then True else list_all (\<lambda>role. role \<in> set tokenRoles) requiredRoles)"

text \<open>A JavaScript \<open>Set\<close> as the list of its elements in insertion order.\<close>

definition js_Set :: "string list \<Rightarrow> string list" where
  "js_Set xs = rev (remdups (rev xs))"

definition expandEffectiveScopes :: "string list \<Rightarrow> string list" where
  "expandEffectiveScopes tokenScopes =
     (let effective = js_Set tokenScopes
      in if TENANT_SUPERUSER_SCOPE \<in> set effective then js_Set (effective @ ALL_TENANT_SCOPES) else effective)"

definition hasRequiredScopes :: "string list \<Rightarrow> string list \<Rightarrow> bool" where
  "hasRequiredScopes tokenScopes requiredScopes =
     (if requiredScopes = [] then True
      else list_all (\<lambda>scope. scope \<in> set (expandEffectiveScopes tokenScopes)) requiredScopes)"

record PartitionRequestedScopesInput =
  prs_requestedScopes :: "string list"
  prs_allowedScopes :: "string list"
  prs_actorScopes :: "string list"
  prs_isPlatformAdmin :: bool

definition partitionRequestedScopes :: "PartitionRequestedScopesInput \<Rightarrow> string list \<times> string list" where
  "partitionRequestedScopes input =
     foldl (\<lambda>(grantedScopes, deniedScopes) scope.
              if scope \<in> set (prs_allowedScopes input)
                 \<and> (prs_isPlatformAdmin input \<or> scope \<in> set (prs_actorScopes input))
              then (grantedScopes @ [scope], deniedScopes) else (grantedScopes, deniedScopes @ [scope]))
       ([], []) (prs_requestedScopes input)"

section \<open>Tokens\<close>

text \<open>A verified token: the subject as the library types it, and every other claim as it came.\<close>

record JWTPayload =
  jp_sub :: "string option"
  jp_claims :: "(string \<times> json) list"

definition CLIENT_SUB_PREFIX :: string where
  "CLIENT_SUB_PREFIX = ''client:''"

text \<open>The version digit is 1 to 8 and the variant digit 8, 9, a or b.\<close>

definition RFC_UUID_PATTERN :: "string \<Rightarrow> bool" where
  "RFC_UUID_PATTERN s \<longleftrightarrow> uuid_shape s
     \<and> (let v = (of_char (s ! 14) :: nat) in 49 \<le> v \<and> v \<le> 56)
     \<and> js_lower (s ! 19) \<in> {CHR ''8'', CHR ''9'', CHR ''a'', CHR ''b''}"

definition resolveTokenType :: "string \<Rightarrow> string option \<Rightarrow> AuthTokenType" where
  "resolveTokenType sub explicitClientId =
     (if starts_with sub CLIENT_SUB_PREFIX then ClientToken
      else if RFC_UUID_PATTERN sub then UserToken
      else ClientToken)"

definition deriveClientIdFromSub :: "string \<Rightarrow> string" where
  "deriveClientIdFromSub sub =
     (if starts_with sub CLIENT_SUB_PREFIX then drop (length CLIENT_SUB_PREFIX) sub else sub)"

definition readOptionalString :: "json option \<Rightarrow> string option" where
  "readOptionalString v = (case v of Some (JStr x) \<Rightarrow> if x = [] then None else Some x | _ \<Rightarrow> None)"

definition json_strings :: "json list \<Rightarrow> string list" where
  "json_strings vs = List.map_filter (\<lambda>v. case v of JStr x \<Rightarrow> Some x | _ \<Rightarrow> None) vs"

definition readScope :: "json option \<Rightarrow> string" where
  "readScope v = (case v of Some (JStr x) \<Rightarrow> x | Some (JArr vs) \<Rightarrow> js_join '' '' (json_strings vs) | _ \<Rightarrow> [])"

definition readRoles :: "json option \<Rightarrow> string list" where
  "readRoles v = (case v of Some (JArr vs) \<Rightarrow> json_strings vs | _ \<Rightarrow> [])"

definition normalizeAuthPayload :: "JWTPayload \<Rightarrow> err + AuthContext" where
  "normalizeAuthPayload payload =
     (let sub = (case jp_sub payload of None \<Rightarrow> [] | Some x \<Rightarrow> x);
          claim = map_of (jp_claims payload)
      in if sub = [] then Inl (AuthenticationRequiredException ''invalid_token'' ''Token is missing sub claim'')
         else let explicitClientId = readOptionalString (claim ''client_id'');
                  tokenType = resolveTokenType sub explicitClientId;
                  scope = readScope (claim ''scope'')
              in Inr \<lparr>auth_sub = sub,
                      auth_externalUserId = readOptionalString (claim ''external_user_id''),
                      auth_tokenType = tokenType,
                      auth_clientId = (case explicitClientId of
                          Some c \<Rightarrow> Some c
                        | None \<Rightarrow> if tokenType = ClientToken then Some (deriveClientIdFromSub sub) else None),
                      auth_tenantId = readOptionalString (claim ''tenant_id''),
                      auth_roles = readRoles (claim ''roles''),
                      auth_scope = scope,
                      auth_scopes = (if scope = [] then [] else filter (\<lambda>w. w \<noteq> []) (split_ws scope)),
                      auth_jti = readOptionalString (claim ''jti'')\<rparr>)"

definition extractBearerToken :: "string option \<Rightarrow> err + string" where
  "extractBearerToken authorizationHeader =
     (if \<not> js_truthy authorizationHeader
      then Inl (AuthenticationRequiredException ''invalid_request'' ''Authorization header is required'')
      else case split_ws (js_trim (the authorizationHeader)) of
             [scheme, token] \<Rightarrow>
               if js_toLowerCase scheme = ''bearer'' \<and> token \<noteq> [] then Inr token
               else Inl (AuthenticationRequiredException ''invalid_request'' ''Authorization header must use Bearer scheme'')
           | _ \<Rightarrow> Inl (AuthenticationRequiredException ''invalid_request'' ''Authorization header must use Bearer scheme''))"

text \<open>
  What \<open>jwtVerify\<close> may end with: an \<open>AuthenticationRequiredException\<close> of the key callback, another
  error with its code and message, or something that is not an \<open>Error\<close>.
\<close>

datatype jose_failure = Refused string string | JoseError "string option" string | JoseOther

definition mapJoseError :: "jose_failure \<Rightarrow> err" where
  "mapJoseError f =
     (case f of
        Refused code description \<Rightarrow> AuthenticationRequiredException code description
      | JoseError code message \<Rightarrow>
          if code = Some ''ERR_JWT_EXPIRED'' then AuthenticationRequiredException ''invalid_token'' ''Token has expired''
          else if \<exists>k \<in> set [''signature'', ''invalid'', ''jws'']. js_includes (js_toLowerCase message) k
          then AuthenticationRequiredException ''invalid_token'' message
          else AuthenticationRequiredException ''invalid_token'' ''Token validation failed''
      | JoseOther \<Rightarrow> AuthenticationRequiredException ''invalid_token'' ''Token validation failed'')"

definition verifyAccessToken :: "(string \<Rightarrow> jose_failure + JWTPayload) \<Rightarrow> string \<Rightarrow> jose_failure + JWTPayload" where
  "verifyAccessToken jwtVerify token =
     (case jwtVerify token of
        Inl f \<Rightarrow> Inl f
      | Inr payload \<Rightarrow>
          (case map_of (jp_claims payload) ''aud'' of
             Some (JArr auds) \<Rightarrow>
               if length auds \<noteq> 1
               then Inl (Refused ''invalid_token'' ''Token must carry exactly one audience'')
               else Inr payload
           | _ \<Rightarrow> Inr payload))"

definition validateAuthorizationHeader :: "(string \<Rightarrow> jose_failure + JWTPayload) \<Rightarrow> string option \<Rightarrow> err + AuthContext" where
  "validateAuthorizationHeader jwtVerify header =
     (case extractBearerToken header of
        Inl e \<Rightarrow> Inl e
      | Inr token \<Rightarrow>
          (case verifyAccessToken jwtVerify token of
             Inl f \<Rightarrow> Inl (mapJoseError f)
           | Inr payload \<Rightarrow> normalizeAuthPayload payload))"

section \<open>Guards\<close>

definition context_missing :: err where
  "context_missing = AuthenticationRequiredException ''invalid_token'' ''Authenticated request context is missing''"

definition JwtGuard :: "(string \<Rightarrow> jose_failure + JWTPayload) \<Rightarrow> string option \<Rightarrow> err + AuthContext" where
  "JwtGuard jwtVerify header =
     (case validateAuthorizationHeader jwtVerify header of
        Inr auth \<Rightarrow> Inr auth
      | Inl e \<Rightarrow> (case e of AuthenticationRequiredException _ _ \<Rightarrow> Inl e
                  | _ \<Rightarrow> Inl (AuthenticationRequiredException ''invalid_token'' ''Token validation failed'')))"

definition ScopeGuard :: "string list option \<Rightarrow> string list option \<Rightarrow> AuthContext option \<Rightarrow> err + bool" where
  "ScopeGuard requiredRoles requiredScopes request =
     (case request of
        None \<Rightarrow> Inl context_missing
      | Some auth \<Rightarrow>
          if roles_isPlatformAdmin (auth_roles auth) then Inr True
          else
            let roles = (case requiredRoles of None \<Rightarrow> [] | Some r \<Rightarrow> r);
                scopes = (case requiredScopes of None \<Rightarrow> [] | Some r \<Rightarrow> r)
            in if roles = [] \<and> scopes = [] then Inr True
               else if roles \<noteq> [] \<and> \<not> hasRequiredRoles (auth_roles auth) roles
               then Inl (InsufficientScopeException (''Token missing required role: '' @ js_join '', '' roles) [] roles)
               else if scopes \<noteq> [] \<and> \<not> hasRequiredScopes (auth_scopes auth) scopes
               then Inl (InsufficientScopeException (''Token missing required scope: '' @ js_join '', '' scopes) scopes [])
               else Inr True)"

definition resolveRouteTenantId :: "string option \<Rightarrow> string option" where
  "resolveRouteTenantId raw =
     (case raw of None \<Rightarrow> None | Some r \<Rightarrow> let trimmed = js_trim r in if trimmed = [] then None else Some trimmed)"

text \<open>The answer is the tenant the guard stamps on the request, if it stamps one.\<close>

definition TenantGuard :: "string option \<Rightarrow> AuthContext option \<Rightarrow> err + string option" where
  "TenantGuard param request =
     (case request of
        None \<Rightarrow> Inl context_missing
      | Some auth \<Rightarrow>
          (case resolveRouteTenantId param of
             None \<Rightarrow> Inr None
           | Some routeTenantId \<Rightarrow>
               if roles_isPlatformAdmin (auth_roles auth) then Inr (Some routeTenantId)
               else if \<not> js_truthy (auth_tenantId auth)
               then Inl (TenantAccessDeniedException ''Token is missing a tenant_id claim'')
               else if auth_tenantId auth \<noteq> Some routeTenantId
               then Inl (TenantAccessDeniedException ''Token tenant_id does not match the requested tenant'')
               else Inr (Some routeTenantId)))"

text \<open>The text of the \<open>WWW-Authenticate\<close> header a refusal carries.\<close>

definition escapeWwwAuthenticateQuotedString :: "string \<Rightarrow> string" where
  "escapeWwwAuthenticateQuotedString value =
     replace_all (CHR 0x22) [CHR 0x5C, CHR 0x22]
       (replace_all (CHR 0x5C) [CHR 0x5C, CHR 0x5C]
         (filter (\<lambda>c. c \<noteq> CHR 0x0D \<and> c \<noteq> CHR 0x0A) value))"

definition getWwwAuthenticateHeader :: "string \<Rightarrow> string \<Rightarrow> string" where
  "getWwwAuthenticateHeader wwwAuthenticateError errorDescription =
     ''Bearer error='' @ [CHR 0x22] @ escapeWwwAuthenticateQuotedString wwwAuthenticateError @ [CHR 0x22]
     @ '', error_description='' @ [CHR 0x22] @ escapeWwwAuthenticateQuotedString errorDescription @ [CHR 0x22]"

section \<open>Scopes\<close>

lemma set_js_Set [simp]: "set (js_Set xs) = set xs"
  by (simp add: js_Set_def)

lemma set_expandEffectiveScopes:
  "set (expandEffectiveScopes xs) =
     set xs \<union> (if TENANT_SUPERUSER_SCOPE \<in> set xs then set ALL_TENANT_SCOPES else {})"
  by (simp add: expandEffectiveScopes_def Let_def)

text \<open>Expansion is a closure: it only adds, adds nothing twice and respects inclusion.\<close>

lemma expand_superset: "set xs \<subseteq> set (expandEffectiveScopes xs)"
  by (auto simp: set_expandEffectiveScopes)

lemma superuser_not_tenant_scope: "TENANT_SUPERUSER_SCOPE \<notin> set ALL_TENANT_SCOPES"
  by (simp add: TENANT_SUPERUSER_SCOPE_def ALL_TENANT_SCOPES_def LEVEL2_SCOPES_def LEVEL3_SCOPES_def)

lemma expand_idem: "set (expandEffectiveScopes (expandEffectiveScopes xs)) = set (expandEffectiveScopes xs)"
  using superuser_not_tenant_scope by (auto simp: set_expandEffectiveScopes)

lemma expand_mono: "set xs \<subseteq> set ys \<Longrightarrow> set (expandEffectiveScopes xs) \<subseteq> set (expandEffectiveScopes ys)"
  by (auto simp: set_expandEffectiveScopes)

lemma hasRequiredScopes_iff: "hasRequiredScopes have need \<longleftrightarrow> set need \<subseteq> set (expandEffectiveScopes have)"
  by (auto simp: hasRequiredScopes_def list_all_iff)

lemma hasRequiredRoles_iff: "hasRequiredRoles have need \<longleftrightarrow> set need \<subseteq> set have"
  by (auto simp: hasRequiredRoles_def list_all_iff)

text \<open>The catalogue that is written out by hand lists exactly the scopes a client may be given.\<close>

lemma catalogue_complete: "map sce_name SCOPE_CATALOG = ASSIGNABLE_OAUTH_CLIENT_SCOPES"
  by (simp add: SCOPE_CATALOG_def ASSIGNABLE_OAUTH_CLIENT_SCOPES_def ALL_TENANT_SCOPES_def LEVEL2_SCOPES_def LEVEL3_SCOPES_def)

definition prs_permitted :: "PartitionRequestedScopesInput \<Rightarrow> string \<Rightarrow> bool" where
  "prs_permitted input scope \<longleftrightarrow> scope \<in> set (prs_allowedScopes input)
     \<and> (prs_isPlatformAdmin input \<or> scope \<in> set (prs_actorScopes input))"

lemma partition_fold:
  "foldl (\<lambda>(g, d) x. if P x then (g @ [x], d) else (g, d @ [x])) (g0, d0) xs = (g0 @ filter P xs, d0 @ filter (\<lambda>x. \<not> P x) xs)"
  by (induction xs arbitrary: g0 d0) auto

lemma partitionRequestedScopes_filter:
  "partitionRequestedScopes input =
     (filter (prs_permitted input) (prs_requestedScopes input), filter (\<lambda>x. \<not> prs_permitted input x) (prs_requestedScopes input))"
  by (simp add: partitionRequestedScopes_def partition_fold prs_permitted_def [abs_def])

section \<open>What the guards let through\<close>

lemma ScopeGuard_iff:
  "ScopeGuard rr rs (Some a) = Inr True \<longleftrightarrow>
     roles_isPlatformAdmin (auth_roles a)
     \<or> (\<forall>r \<in> set (case rr of None \<Rightarrow> [] | Some r \<Rightarrow> r). r \<in> set (auth_roles a))
       \<and> (\<forall>x \<in> set (case rs of None \<Rightarrow> [] | Some r \<Rightarrow> r). x \<in> set (expandEffectiveScopes (auth_scopes a)))"
  by (cases rr; cases rs)
     (auto simp: ScopeGuard_def Let_def hasRequiredRoles_iff hasRequiredScopes_iff subset_iff)

lemma TenantGuard_Some_iff:
  "TenantGuard param (Some a) = Inr (Some t) \<longleftrightarrow>
     resolveRouteTenantId param = Some t
     \<and> (roles_isPlatformAdmin (auth_roles a) \<or> auth_tenantId a = Some t)"
  by (auto simp: TenantGuard_def js_truthy_def resolveRouteTenantId_def Let_def split: option.splits if_splits)

lemma JwtGuard_error: "JwtGuard v h = Inl e \<Longrightarrow> \<exists>c d. e = AuthenticationRequiredException c d"
  by (auto simp: JwtGuard_def split: sum.splits err.splits)

section \<open>The refusal header\<close>

text \<open>Reading a quoted string back: a backslash protects the character after it.\<close>

fun unquote :: "string \<Rightarrow> string" where
  "unquote [] = []"
| "unquote [c] = [c]"
| "unquote (c # d # s) = (if c = CHR 0x5C then d # unquote s else c # unquote (d # s))"

text \<open>A quote is unprotected if it closes the string.\<close>

fun open_quote :: "string \<Rightarrow> bool" where
  "open_quote [] = False"
| "open_quote [c] = (c = CHR 0x22)"
| "open_quote (c # d # s) = (if c = CHR 0x5C then open_quote s else c = CHR 0x22 \<or> open_quote (d # s))"

definition esc_char :: "char \<Rightarrow> string" where
  "esc_char c = (if c = CHR 0x0D \<or> c = CHR 0x0A then []
     else if c = CHR 0x5C \<or> c = CHR 0x22 then [CHR 0x5C, c] else [c])"

lemma escape_by_char: "escapeWwwAuthenticateQuotedString s = concat (map esc_char s)"
  by (induction s) (auto simp: escapeWwwAuthenticateQuotedString_def replace_all_def esc_char_def)

lemma unquote_plain: "c \<noteq> CHR 0x5C \<Longrightarrow> unquote (c # s) = c # unquote s"
  by (cases s) simp_all

lemma open_quote_plain: "c \<noteq> CHR 0x5C \<Longrightarrow> c \<noteq> CHR 0x22 \<Longrightarrow> open_quote (c # s) = open_quote s"
  by (cases s) simp_all

lemma unquote_escape:
  "unquote (concat (map esc_char s)) = filter (\<lambda>c. c \<noteq> CHR 0x0D \<and> c \<noteq> CHR 0x0A) s
   \<and> \<not> open_quote (concat (map esc_char s))"
  by (induction s) (auto simp: esc_char_def unquote_plain open_quote_plain)


end
