(* ===== verification/Oidc_Store.thy ===== *)
theory Oidc_Store
  imports Tenant_Access "HOL-Library.Multiset"
begin

text \<open>
  \<open>libs/oidc\<close>: the adapter that stores the records of \<open>oidc-provider\<close> in \<open>oidc_model\<close>, the queries by
  account and the cap on concurrent sessions. The identity federation behind an
  upstream session is a parameter. The order of texts in the database is a parameter too: \<open>coll\<close> is
  the position of a text in its collation.
\<close>

section \<open>The adapter\<close>

definition SESSION_MODEL :: string where
  "SESSION_MODEL = ''Session''"

definition payload_text :: "json \<Rightarrow> string \<Rightarrow> string option" where
  "payload_text payload k = (case jget payload k of Some (JStr x) \<Rightarrow> Some x | _ \<Rightarrow> None)"

definition is_row :: "string \<Rightarrow> string \<Rightarrow> oidc_model \<Rightarrow> bool" where
  "is_row name i m \<longleftrightarrow> om_modelName m = name \<and> om_oidcId m = i"

definition put_models :: "(oidc_model list \<Rightarrow> oidc_model list) \<Rightarrow> unit service" where
  "put_models f = modifies (\<lambda>s. s\<lparr>oidc_models := f (oidc_models s)\<rparr>)"

definition upsert_columns :: "env \<Rightarrow> json \<Rightarrow> int \<Rightarrow> oidc_model \<Rightarrow> oidc_model" where
  "upsert_columns E payload expiresIn m =
     m\<lparr>om_payload := payload, om_grantId := payload_text payload ''grantId'',
       om_userCode := payload_text payload ''userCode'', om_uid := payload_text payload ''uid'',
       om_accountId := payload_text payload ''accountId'',
       om_expiresAt := (if expiresIn > 0 then Some (of_js (js_now E + expiresIn * 1000)) else None),
       om_consumedAt := None\<rparr>"

definition adapter_upsert :: "env \<Rightarrow> uuid \<Rightarrow> string \<Rightarrow> string \<Rightarrow> json \<Rightarrow> int \<Rightarrow> unit service" where
  "adapter_upsert E newId name i payload expiresIn =
     put_models (\<lambda>t.
       if \<exists>m \<in> set t. is_row name i m then update_where (is_row name i) (upsert_columns E payload expiresIn) t
       else t @ [upsert_columns E payload expiresIn
                   \<lparr>om_id = newId, om_modelName = name, om_oidcId = i, om_payload = payload,
                    om_grantId = None, om_userCode = None, om_uid = None, om_accountId = None,
                    om_expiresAt = None, om_consumedAt = None, om_createdAt = db_now E\<rparr>])"

definition toPayloadIfActive :: "env \<Rightarrow> oidc_model option \<Rightarrow> json option" where
  "toPayloadIfActive E row =
     (case row of
        None \<Rightarrow> None
      | Some m \<Rightarrow>
          if (case om_expiresAt m of None \<Rightarrow> False | Some t \<Rightarrow> to_js t \<le> js_now E) then None
          else (case om_consumedAt m of
                  None \<Rightarrow> Some (om_payload m)
                | Some t \<Rightarrow>
                    (case om_payload m of
                       JObj kvs \<Rightarrow> Some (JObj (filter (\<lambda>(k, _). k \<noteq> ''consumed'') kvs
                                              @ [(''consumed'', JNum (of_int (to_js t div 1000)))]))
                     | other \<Rightarrow> Some (JObj [(''consumed'', JNum (of_int (to_js t div 1000)))]))))"

definition adapter_find :: "env \<Rightarrow> string \<Rightarrow> string \<Rightarrow> json option service" where
  "adapter_find E name i = reads (\<lambda>s. toPayloadIfActive E (List.find (is_row name i) (oidc_models s)))"

definition adapter_findByUserCode :: "env \<Rightarrow> string \<Rightarrow> string \<Rightarrow> json option service" where
  "adapter_findByUserCode E name userCode =
     reads (\<lambda>s. toPayloadIfActive E
       (List.find (\<lambda>m. om_modelName m = name \<and> om_userCode m = Some userCode) (oidc_models s)))"

definition adapter_findByUid :: "env \<Rightarrow> string \<Rightarrow> string \<Rightarrow> json option service" where
  "adapter_findByUid E name uid =
     reads (\<lambda>s. toPayloadIfActive E
       (List.find (\<lambda>m. om_modelName m = name \<and> om_uid m = Some uid) (oidc_models s)))"

definition adapter_consume :: "env \<Rightarrow> string \<Rightarrow> string \<Rightarrow> unit service" where
  "adapter_consume E name i =
     put_models (update_where (is_row name i) (\<lambda>m. m\<lparr>om_consumedAt := Some (of_js (js_now E))\<rparr>))"

type_synonym upstream_logout = "uuid \<Rightarrow> string option \<Rightarrow> unit service"

definition destroySessionUpstreamLink :: "upstream_logout option \<Rightarrow> string \<Rightarrow> string \<Rightarrow> unit service" where
  "destroySessionUpstreamLink federation name i =
     (if name \<noteq> SESSION_MODEL then ret ()
      else case federation of
             None \<Rightarrow> ret ()
           | Some logout \<Rightarrow>
               bindA (reads (\<lambda>s. List.find (is_row name i) (oidc_models s))) (\<lambda>row.
                 case row of None \<Rightarrow> ret () | Some m \<Rightarrow> logout (om_id m) (om_uid m)))"

definition adapter_destroy :: "upstream_logout option \<Rightarrow> string \<Rightarrow> string \<Rightarrow> unit service" where
  "adapter_destroy federation name i =
     bindA (destroySessionUpstreamLink federation name i) (\<lambda>_. put_models (filter (\<lambda>m. \<not> is_row name i m)))"

definition adapter_revokeByGrantId :: "string \<Rightarrow> string \<Rightarrow> unit service" where
  "adapter_revokeByGrantId name grantId =
     put_models (filter (\<lambda>m. \<not> (om_modelName m = name \<and> om_grantId m = Some grantId)))"

section \<open>Records of an account\<close>

definition ACCOUNT_BOUND_MODELS :: "string list" where
  "ACCOUNT_BOUND_MODELS = [''Session'', ''Grant'', ''AccessToken'', ''RefreshToken'', ''AuthorizationCode'',
     ''DeviceCode'', ''BackchannelAuthenticationRequest'']"

record AccountSession =
  as_oidcId :: string
  as_createdAt :: int
  as_grantIds :: "string list"

definition extractGrantIds :: "json \<Rightarrow> string list" where
  "extractGrantIds payload =
     (let ids = (\<lambda>vs. List.map_filter (\<lambda>authorization. payload_text authorization ''grantId'') vs)
      in case jget payload ''authorizations'' of
           Some (JObj kvs) \<Rightarrow> ids (map snd kvs)
         | Some (JArr vs) \<Rightarrow> ids vs
         | _ \<Rightarrow> [])"

definition account_session :: "oidc_model \<Rightarrow> AccountSession" where
  "account_session m =
     \<lparr>as_oidcId = om_oidcId m, as_createdAt = to_js (om_createdAt m), as_grantIds = extractGrantIds (om_payload m)\<rparr>"

definition model_counts :: "oidc_model list \<Rightarrow> (string \<times> nat) list" where
  "model_counts rows =
     map (\<lambda>name. (name, count_where (\<lambda>m. om_modelName m = name) rows)) (remdups (map om_modelName rows))"

text \<open>\<open>DELETE ... RETURNING model_name\<close>, counted by model.\<close>

definition deleteAndCount :: "(oidc_model \<Rightarrow> bool) \<Rightarrow> (string \<times> nat) list service" where
  "deleteAndCount P =
     bindA (reads (\<lambda>s. model_counts (filter P (oidc_models s)))) (\<lambda>counts.
     bindA (put_models (filter (\<lambda>m. \<not> P m))) (\<lambda>_.
       ret counts))"

definition unexpired :: "env \<Rightarrow> oidc_model \<Rightarrow> bool" where
  "unexpired E m = (case om_expiresAt m of None \<Rightarrow> True | Some t \<Rightarrow> t > db_now E)"

definition active_session :: "env \<Rightarrow> string \<Rightarrow> oidc_model \<Rightarrow> bool" where
  "active_session E accountId m \<longleftrightarrow>
     om_modelName m = SESSION_MODEL \<and> om_accountId m = Some accountId \<and> unexpired E m"

definition countActiveSessions :: "env \<Rightarrow> string \<Rightarrow> db \<Rightarrow> nat" where
  "countActiveSessions E accountId s = count_where (active_session E accountId) (oidc_models s)"

definition findActiveSessions :: "env \<Rightarrow> (string \<Rightarrow> int) \<Rightarrow> string \<Rightarrow> db \<Rightarrow> AccountSession list" where
  "findActiveSessions E coll accountId s =
     map account_session
       (sort_key om_createdAt (sort_key (\<lambda>m. coll (om_oidcId m)) (filter (active_session E accountId) (oidc_models s))))"

definition rebind_session :: "string \<Rightarrow> string \<Rightarrow> string \<Rightarrow> oidc_model \<Rightarrow> oidc_model" where
  "rebind_session toAccountId clientId grantId m =
     (let kvs = (case om_payload m of JObj kvs \<Rightarrow> kvs | _ \<Rightarrow> []);
          point = (\<lambda>current. case current of
                     JObj props \<Rightarrow> JObj (filter (\<lambda>(k, _). k \<noteq> ''grantId'') props @ [(''grantId'', JStr grantId)])
                   | JArr vs \<Rightarrow> JObj (zip (map js_nat [0..<length vs]) vs @ [(''grantId'', JStr grantId)])
                   | other \<Rightarrow> other);
          auths = (\<lambda>v. case v of
                     JObj entries \<Rightarrow> JObj (map (\<lambda>(k, current). (k, if k = clientId then point current else current)) entries)
                   | other \<Rightarrow> other)
      in m\<lparr>om_accountId := Some toAccountId,
           om_payload := JObj (map (\<lambda>(k, v). (k, if k = ''authorizations'' then auths v else v))
                                (filter (\<lambda>(k, _). k \<noteq> ''accountId'') kvs)
                               @ [(''accountId'', JStr toAccountId)])\<rparr>)"

definition rebindSessionsToAccount :: "string \<Rightarrow> string \<Rightarrow> string \<Rightarrow> string \<Rightarrow> unit service" where
  "rebindSessionsToAccount fromAccountId toAccountId clientId grantId =
     put_models (update_where (\<lambda>m. om_modelName m = SESSION_MODEL \<and> om_accountId m = Some fromAccountId)
                   (rebind_session toAccountId clientId grantId))"

definition deleteSessions :: "AccountSession list \<Rightarrow> (string \<times> nat) list service" where
  "deleteSessions sessions =
     (if sessions = [] then ret []
      else let oidcIds = map as_oidcId sessions; grantIds = remdups (concat (map as_grantIds sessions))
           in deleteAndCount (\<lambda>m.
                om_modelName m = SESSION_MODEL \<and> om_oidcId m \<in> set oidcIds
                \<or> om_grantId m \<in> Some ` set grantIds
                \<or> om_modelName m = ''Grant'' \<and> om_oidcId m \<in> set grantIds))"

text \<open>The grants of the accounts, and what hangs off an account or one of its grants.\<close>

definition grants_of :: "string set \<Rightarrow> oidc_model list \<Rightarrow> string set" where
  "grants_of accounts t = om_oidcId ` {m \<in> set t. om_modelName m = ''Grant'' \<and> om_accountId m \<in> Some ` accounts}"

definition bound_to :: "string set \<Rightarrow> oidc_model list \<Rightarrow> oidc_model \<Rightarrow> bool" where
  "bound_to accounts t m \<longleftrightarrow>
     om_modelName m \<in> set ACCOUNT_BOUND_MODELS \<and> om_accountId m \<in> Some ` accounts
     \<or> om_grantId m \<in> Some ` grants_of accounts t"

definition deleteAllForAccount :: "string \<Rightarrow> (string \<times> nat) list service" where
  "deleteAllForAccount accountId = (\<lambda>s. deleteAndCount (bound_to {accountId} (oidc_models s)) s)"

definition role_accounts :: "uuid \<Rightarrow> TenantUserRole \<Rightarrow> db \<Rightarrow> string list" where
  "role_accounts tenantId role s =
     map tu_id (filter (\<lambda>u. tu_tenantId u = tenantId \<and> tu_role u = role) (tenant_users s))"

definition deleteAllForTenantRole :: "uuid \<Rightarrow> TenantUserRole \<Rightarrow> (string \<times> nat) list service" where
  "deleteAllForTenantRole tenantId role =
     (\<lambda>s. deleteAndCount (bound_to (set (role_accounts tenantId role s)) (oidc_models s)) s)"

section \<open>The session cap\<close>

text \<open>The candidates, newest first; those after the first \<open>keep\<close> are deleted and returned.\<close>

definition surplus_candidates ::
    "env \<Rightarrow> (string \<Rightarrow> int) \<Rightarrow> string \<Rightarrow> string option \<Rightarrow> oidc_model list \<Rightarrow> oidc_model list" where
  "surplus_candidates E coll accountId newSessionId t =
     sort_key (\<lambda>m. - om_createdAt m) (sort_key (\<lambda>m. - coll (om_oidcId m))
       (filter (\<lambda>m. active_session E accountId m \<and> newSessionId \<noteq> Some (om_oidcId m)) t))"

definition claimSurplusSessions ::
    "env \<Rightarrow> (string \<Rightarrow> int) \<Rightarrow> string \<Rightarrow> int \<Rightarrow> string option \<Rightarrow> AccountSession list service" where
  "claimSurplusSessions E coll accountId limit newSessionId =
     (let keep = (if js_truthy newSessionId then limit - 1 else limit)
      in bindA (reads (\<lambda>s. drop (nat (max keep 0)) (surplus_candidates E coll accountId newSessionId (oidc_models s)))) (\<lambda>surplus.
         let victim = (\<lambda>m. om_modelName m = SESSION_MODEL \<and> om_oidcId m \<in> om_oidcId ` set surplus)
         in bindA (reads (\<lambda>s. map account_session (filter victim (oidc_models s)))) (\<lambda>claimed.
            bindA (put_models (filter (\<lambda>m. \<not> victim m))) (\<lambda>_.
              ret claimed))))"

record SessionLimitResult =
  slr_priorSessionCount :: nat
  slr_evictedSessionCount :: nat
  slr_limit :: int

definition enforce ::
    "env \<Rightarrow> (string \<Rightarrow> int) \<Rightarrow> int \<Rightarrow> string \<Rightarrow> string option \<Rightarrow> SessionLimitResult service" where
  "enforce E coll limit accountId newSessionId =
     (if limit = 0 then ret \<lparr>slr_priorSessionCount = 0, slr_evictedSessionCount = 0, slr_limit = limit\<rparr>
      else
        bindA (reads (countActiveSessions E accountId)) (\<lambda>priorSessionCount.
        bindA (claimSurplusSessions E coll accountId limit newSessionId) (\<lambda>evicted.
          if evicted = []
          then ret \<lparr>slr_priorSessionCount = priorSessionCount, slr_evictedSessionCount = 0, slr_limit = limit\<rparr>
          else bindA (deleteSessions evicted) (\<lambda>_.
                 ret \<lparr>slr_priorSessionCount = priorSessionCount, slr_evictedSessionCount = length evicted,
                      slr_limit = limit\<rparr>))))"

section \<open>Reading back what was stored\<close>

text \<open>Rows are unique by model and identifier (\<open>uq_oidc_model_name_id\<close>).\<close>

definition models_keyed :: "oidc_model list \<Rightarrow> bool" where
  "models_keyed t \<longleftrightarrow> distinct (map (\<lambda>m. (om_modelName m, om_oidcId m)) t)"

lemma put_models_run [simp]: "put_models f s = (Inr (), s\<lparr>oidc_models := f (oidc_models s)\<rparr>)"
  by (simp add: put_models_def modifies_def)

lemma models_keyed_unique:
  "models_keyed t \<Longrightarrow> m \<in> set t \<Longrightarrow> m' \<in> set t \<Longrightarrow> om_modelName m = om_modelName m' \<Longrightarrow> om_oidcId m = om_oidcId m' \<Longrightarrow> m = m'"
  by (auto simp: models_keyed_def distinct_map dest: inj_onD)

lemma models_keyed_filter: "models_keyed t \<Longrightarrow> models_keyed (filter P t)"
  by (auto simp: models_keyed_def distinct_map intro: inj_on_subset)

section \<open>The cap holds\<close>

lemma set_surplus_candidates:
  "set (surplus_candidates E coll a new t) = {m \<in> set t. active_session E a m \<and> new \<noteq> Some (om_oidcId m)}"
  by (auto simp: surplus_candidates_def)

lemma length_filter_candidates:
  "length (filter P (surplus_candidates E coll a new t)) =
   length (filter (\<lambda>m. P m \<and> active_session E a m \<and> new \<noteq> Some (om_oidcId m)) t)"
proof -
  have "mset (filter P (surplus_candidates E coll a new t)) =
      mset (filter P (filter (\<lambda>m. active_session E a m \<and> new \<noteq> Some (om_oidcId m)) t))"
    by (simp add: surplus_candidates_def filter_filter_mset conj_ac)
  from mset_eq_length [OF this] show ?thesis by (simp add: conj_ac)
qed

lemma candidates_sorted:
  assumes "v \<in> set (drop n (surplus_candidates E coll a new t))" "k \<in> set (take n (surplus_candidates E coll a new t))"
  shows "om_createdAt v \<le> om_createdAt k"
proof -
  let ?c = "surplus_candidates E coll a new t"
  have "sorted (map (\<lambda>m. - om_createdAt m) (take n ?c @ drop n ?c))" by (simp add: surplus_candidates_def)
  then have "\<forall>x \<in> set (take n ?c). \<forall>y \<in> set (drop n ?c). - om_createdAt x \<le> - om_createdAt y"
    by (simp only: map_append sorted_append) (simp add: image_iff)
  with assms show ?thesis by fastforce
qed

definition evicted_by :: "env \<Rightarrow> (string \<Rightarrow> int) \<Rightarrow> int \<Rightarrow> string \<Rightarrow> string option \<Rightarrow> oidc_model list \<Rightarrow> oidc_model \<Rightarrow> bool" where
  "evicted_by E coll limit a new t m \<longleftrightarrow> om_modelName m = SESSION_MODEL
     \<and> om_oidcId m \<in> om_oidcId ` set (drop (nat (max (if js_truthy new then limit - 1 else limit) 0)) (surplus_candidates E coll a new t))"

definition session_grants :: "(oidc_model \<Rightarrow> bool) \<Rightarrow> oidc_model list \<Rightarrow> string set" where
  "session_grants P t = (\<Union>m \<in> {m \<in> set t. P m}. set (extractGrantIds (om_payload m)))"

definition hangs_off :: "string set \<Rightarrow> oidc_model \<Rightarrow> bool" where
  "hangs_off G m \<longleftrightarrow> om_grantId m \<in> Some ` G \<or> om_modelName m = ''Grant'' \<and> om_oidcId m \<in> G"

lemma enforce_models:
  fixes E coll a new
  assumes "limit \<noteq> 0"
  defines "ev \<equiv> \<lambda>s. evicted_by E coll limit a new (oidc_models s)"
  shows "oidc_models (snd (enforce E coll limit a new s)) =
    filter (\<lambda>m. \<not> ev s m \<and> \<not> hangs_off (session_grants (ev s) (oidc_models s)) m) (oidc_models s)"
proof -
  let ?t = "oidc_models s"
  have grants: "set (concat (map as_grantIds (map account_session (filter (ev s) ?t)))) = session_grants (ev s) ?t"
    by (auto simp: session_grants_def account_session_def)
  have "claimSurplusSessions E coll a limit new s =
      (Inr (map account_session (filter (ev s) ?t)), s\<lparr>oidc_models := filter (\<lambda>m. \<not> ev s m) ?t\<rparr>)"
    by (simp add: claimSurplusSessions_def ev_def evicted_by_def [abs_def] Let_def bindA_def ret_def reads_def)
  then have run: "enforce E coll limit a new s =
      (if filter (ev s) ?t = [] then ret \<lparr>slr_priorSessionCount = countActiveSessions E a s, slr_evictedSessionCount = 0, slr_limit = limit\<rparr>
       else bindA (deleteSessions (map account_session (filter (ev s) ?t))) (\<lambda>_. ret \<lparr>slr_priorSessionCount = countActiveSessions E a s,
              slr_evictedSessionCount = length (filter (ev s) ?t), slr_limit = limit\<rparr>)) (s\<lparr>oidc_models := filter (\<lambda>m. \<not> ev s m) ?t\<rparr>)"
    using assms by (simp add: enforce_def bindA_def reads_def)
  show ?thesis
  proof (cases "filter (ev s) ?t = []")
    case True
    then have "session_grants (ev s) ?t = {}" "filter (\<lambda>m. \<not> ev s m) ?t = ?t"
      by (auto simp: session_grants_def filter_empty_conv filter_id_conv)
    with run True show ?thesis by (auto simp: ret_def hangs_off_def filter_id_conv filter_empty_conv)
  next
    case False
    have sess: "\<not> ev s m \<Longrightarrow> \<not> (om_modelName m = SESSION_MODEL \<and> om_oidcId m \<in> set (map as_oidcId (map account_session (filter (ev s) ?t))))" for m
      by (auto simp: ev_def evicted_by_def account_session_def)
    from run False show ?thesis
      using sess
      by (auto simp: bindA_ret_snd deleteSessions_def deleteAndCount_def Let_def bindA_def reads_def ret_def
          hangs_off_def grants [symmetric] simp del: set_concat intro!: filter_cong)
  qed
qed

lemma surplus_bound:
  assumes "m \<in> set t" "active_session E a m" "new \<noteq> Some (om_oidcId m)" "\<not> evicted_by E coll limit a new t m"
  shows "m \<in> set (take (nat (max (if js_truthy new then limit - 1 else limit) 0)) (surplus_candidates E coll a new t))"
proof -
  let ?n = "nat (max (if js_truthy new then limit - 1 else limit) 0)" and ?c = "surplus_candidates E coll a new t"
  have "set ?c = set (take ?n ?c) \<union> set (drop ?n ?c)" by (metis append_take_drop_id set_append)
  moreover have "m \<in> set ?c" using assms by (simp add: set_surplus_candidates)
  moreover have "m \<notin> set (drop ?n ?c)" using assms by (auto simp: evicted_by_def active_session_def)
  ultimately show ?thesis by blast
qed

text \<open>Of the live sessions that may be evicted, at most \<open>keep\<close> remain.\<close>

lemma survivors_bound:
  defines "n \<equiv> \<lambda>limit new. nat (max (if js_truthy new then limit - 1 else limit) (0::int))"
  shows "length (filter (\<lambda>m. \<not> evicted_by E coll limit a new t m \<and> active_session E a m \<and> new \<noteq> Some (om_oidcId m)) t) \<le> n limit new"
proof -
  let ?ev = "evicted_by E coll limit a new t" and ?c = "surplus_candidates E coll a new t" and ?n = "n limit new"
  have "?ev m" if "m \<in> set (drop ?n ?c)" for m
    using that in_set_dropD [OF that] by (auto simp: evicted_by_def n_def set_surplus_candidates active_session_def)
  then have "filter (\<lambda>m. \<not> ?ev m) (drop ?n ?c) = []" by (simp add: filter_empty_conv)
  then have "filter (\<lambda>m. \<not> ?ev m) (take ?n ?c @ drop ?n ?c) = filter (\<lambda>m. \<not> ?ev m) (take ?n ?c)" by (simp only: filter_append append_Nil2)
  then have "length (filter (\<lambda>m. \<not> ?ev m) ?c) = length (filter (\<lambda>m. \<not> ?ev m) (take ?n ?c))" by simp
  also have "\<dots> \<le> length (take ?n ?c)" by (rule length_filter_le)
  also have "\<dots> \<le> ?n" by simp
  finally show ?thesis by (simp only: length_filter_candidates)
qed

lemma one_row_per_id:
  assumes "models_keyed t"
  shows "length (filter (\<lambda>m. om_modelName m = name \<and> om_oidcId m = i) t) \<le> 1"
proof -
  let ?f = "filter (\<lambda>m. om_modelName m = name \<and> om_oidcId m = i) t"
  have "models_keyed ?f" using assms by (rule models_keyed_filter)
  moreover have "map (\<lambda>m. (om_modelName m, om_oidcId m)) ?f = replicate (length ?f) (name, i)"
    by (intro nth_equalityI) (auto dest: nth_mem)
  ultimately have "distinct (replicate (length ?f) (name, i))" by (simp add: models_keyed_def)
  from distinct_card [OF this] have "length ?f = card (set (replicate (length ?f) (name, i)))" by (simp only: length_replicate)
  also have "\<dots> \<le> 1" by (simp only: set_replicate_conv_if) (simp split: if_split)
  finally show ?thesis .
qed

text \<open>
  C6 The session cap. With a limit set, enforcing it leaves an account with at most that many live
  sessions. The new session and every session of another account stay; what was evicted is no newer
  than what stayed; and nothing issued under a grant of an evicted session is left.
\<close>

theorem session_cap_enforced:
  assumes key: "models_keyed (oidc_models s)"
    and plain: "\<forall>m \<in> set (oidc_models s). om_modelName m = SESSION_MODEL \<longrightarrow> om_grantId m = None"
    and limit: "limit > 0" and new: "new \<noteq> Some ''''"
    and run: "enforce E coll limit a new s = (r, s')"
  shows "int (countActiveSessions E a s') \<le> limit
    \<and> (\<forall>m \<in> set (oidc_models s). om_modelName m = SESSION_MODEL \<and> (om_accountId m \<noteq> Some a \<or> new = Some (om_oidcId m))
         \<longrightarrow> m \<in> set (oidc_models s'))
    \<and> (\<forall>v \<in> set (oidc_models s) - set (oidc_models s'). \<forall>k \<in> set (oidc_models s').
         om_modelName v = SESSION_MODEL \<and> active_session E a k \<and> new \<noteq> Some (om_oidcId k) \<longrightarrow> om_createdAt v \<le> om_createdAt k)
    \<and> (\<forall>v \<in> set (oidc_models s) - set (oidc_models s'). \<forall>k \<in> set (oidc_models s').
         om_modelName v = SESSION_MODEL \<longrightarrow> \<not> hangs_off (set (extractGrantIds (om_payload v))) k)"
proof -
  let ?t = "oidc_models s" and ?ev = "evicted_by E coll limit a new (oidc_models s)"
  let ?c = "surplus_candidates E coll a new ?t" and ?n = "nat (max (if js_truthy new then limit - 1 else limit) 0)"
  let ?G = "session_grants ?ev ?t"
  have t': "oidc_models s' = filter (\<lambda>m. \<not> ?ev m \<and> \<not> hangs_off ?G m) ?t"
    using enforce_models [of limit E coll a new s] limit run by simp
  have ev: "m \<in> set (drop ?n ?c)" if "?ev m" "m \<in> set ?t" for m
  proof -
    from that obtain v where v: "v \<in> set (drop ?n ?c)" "om_oidcId v = om_oidcId m" "om_modelName m = SESSION_MODEL"
      by (auto simp: evicted_by_def)
    then have "v \<in> set ?c" by (meson in_set_dropD)
    then have "v \<in> set ?t" "om_modelName v = SESSION_MODEL" by (auto simp: set_surplus_candidates active_session_def)
    with v that(2) key have "v = m" by (auto intro: models_keyed_unique)
    with v show ?thesis by simp
  qed
  have evc: "active_session E a m \<and> new \<noteq> Some (om_oidcId m)" if "?ev m" "m \<in> set ?t" for m
    using in_set_dropD [OF ev [OF that]] by (simp add: set_surplus_candidates)
  have sess: "\<not> hangs_off ?G m" if "m \<in> set ?t" "om_modelName m = SESSION_MODEL" for m
    using plain that by (auto simp: hangs_off_def SESSION_MODEL_def)
  have gone: "?ev v" if "v \<in> set ?t" "v \<notin> set (oidc_models s')" "om_modelName v = SESSION_MODEL" for v
    using that sess t' by auto
  have split: "length (filter (active_session E a) (filter (\<lambda>m. \<not> ev m \<and> \<not> h m) t)) \<le>
      length (filter (\<lambda>m. om_modelName m = SESSION_MODEL \<and> new = Some (om_oidcId m)) t)
      + length (filter (\<lambda>m. \<not> ev m \<and> active_session E a m \<and> new \<noteq> Some (om_oidcId m)) t)" for ev h t
    by (induction t) (auto simp: active_session_def)
  have one: "length (filter (\<lambda>m. om_modelName m = SESSION_MODEL \<and> new = Some (om_oidcId m)) ?t) \<le> (if js_truthy new then 1 else 0)"
  proof (cases new)
    case (Some i)
    with new one_row_per_id [OF key, of SESSION_MODEL i] show ?thesis by (simp add: js_truthy_def eq_commute [of i])
  qed (simp add: js_truthy_def)
  have "length (filter (active_session E a) (oidc_models s')) \<le> (if js_truthy new then 1 else 0) + ?n"
    using split [of ?ev "hangs_off ?G" ?t] one survivors_bound [of E coll limit a new ?t] unfolding t' by linarith
  then have "int (countActiveSessions E a s') \<le> limit"
    using limit by (auto simp: countActiveSessions_def count_where_def split: if_splits)
  moreover have "\<forall>m \<in> set ?t. om_modelName m = SESSION_MODEL \<and> (om_accountId m \<noteq> Some a \<or> new = Some (om_oidcId m)) \<longrightarrow> m \<in> set (oidc_models s')"
    using evc sess t' by (auto simp: active_session_def)
  moreover have "om_createdAt v \<le> om_createdAt k" if v: "v \<in> set ?t - set (oidc_models s')" "om_modelName v = SESSION_MODEL"
    and k: "k \<in> set (oidc_models s')" "active_session E a k" "new \<noteq> Some (om_oidcId k)" for v k
  proof -
    have "v \<in> set (drop ?n ?c)" using ev gone v by blast
    moreover have "k \<in> set (take ?n ?c)" using k(1) t' by (intro surplus_bound [OF _ k(2,3)]) simp_all
    ultimately show ?thesis by (rule candidates_sorted)
  qed
  moreover have "\<not> hangs_off (set (extractGrantIds (om_payload v))) k"
    if v: "v \<in> set ?t - set (oidc_models s')" "om_modelName v = SESSION_MODEL" and k: "k \<in> set (oidc_models s')" for v k
  proof -
    have "set (extractGrantIds (om_payload v)) \<subseteq> ?G" using gone v by (auto simp: session_grants_def)
    moreover have "\<not> hangs_off ?G k" using k t' by simp
    ultimately show ?thesis by (auto simp: hangs_off_def)
  qed
  ultimately show ?thesis by blast
qed

definition sample_model :: "string \<Rightarrow> string \<Rightarrow> string option \<Rightarrow> string option \<Rightarrow> int \<Rightarrow> json \<Rightarrow> oidc_model" where
  "sample_model name i account grant created payload =
     \<lparr>om_id = i, om_modelName = name, om_oidcId = i, om_payload = payload, om_grantId = grant, om_userCode = None,
      om_uid = None, om_accountId = account, om_expiresAt = None, om_consumedAt = None, om_createdAt = created\<rparr>"

definition sample_session :: "string \<Rightarrow> int \<Rightarrow> string \<Rightarrow> oidc_model" where
  "sample_session i created grant =
     sample_model SESSION_MODEL i (Some ''u1'') None created
       (JObj [(''authorizations'', JObj [(''ui'', JObj [(''grantId'', JStr grant)])])])"

definition signed_in_db :: db where
  "signed_in_db = empty_db\<lparr>oidc_models := [sample_session ''s1'' 1 ''g1'', sample_session ''s2'' 2 ''g2'',
     sample_model ''Grant'' ''g1'' (Some ''u1'') None 1 (JObj []), sample_model ''AccessToken'' ''a1'' (Some ''u1'') (Some ''g1'') 1 (JObj []),
     sample_session ''s3'' 3 ''g3'']\<rparr>"

theorem session_cap_enforced_witness:
  "models_keyed (oidc_models signed_in_db)
   \<and> int (countActiveSessions sample_env ''u1'' (snd (enforce sample_env (\<lambda>_. 0) 2 ''u1'' (Some ''s3'') signed_in_db))) \<le> 2
   \<and> map om_oidcId (oidc_models (snd (enforce sample_env (\<lambda>_. 0) 2 ''u1'' (Some ''s3'') signed_in_db))) = [''s2'', ''s3'']"
proof -
  let ?run = "enforce sample_env (\<lambda>_. 0) 2 ''u1'' (Some ''s3'') signed_in_db"
  have k: "models_keyed (oidc_models signed_in_db)" by code_simp
  have p: "\<forall>m \<in> set (oidc_models signed_in_db). om_modelName m = SESSION_MODEL \<longrightarrow> om_grantId m = None"
    by (simp add: signed_in_db_def sample_session_def sample_model_def SESSION_MODEL_def)
  have "?run = (fst ?run, snd ?run)" by simp
  from session_cap_enforced [OF k p _ _ this] have "int (countActiveSessions sample_env ''u1'' (snd ?run)) \<le> 2" by simp
  moreover have "map om_oidcId (oidc_models (snd ?run)) = [''s2'', ''s3'']" by code_simp
  ultimately show ?thesis using k by simp
qed

section \<open>Force logout\<close>

lemma deleteAndCount_models: "oidc_models (snd (deleteAndCount P s)) = filter (\<lambda>m. \<not> P m) (oidc_models s)"
  by (simp add: deleteAndCount_def bindA_def reads_def ret_def)

fun forA :: "('x \<Rightarrow> 'a service) \<Rightarrow> 'x list \<Rightarrow> unit service" where
  "forA f [] = ret ()"
| "forA f (x # xs) = bindA (f x) (\<lambda>_. forA f xs)"

lemma deleteAllForAccount_run:
  "\<exists>counts. deleteAllForAccount a s = (Inr counts, s\<lparr>oidc_models := filter (\<lambda>m. \<not> bound_to {a} (oidc_models s) m) (oidc_models s)\<rparr>)"
  by (simp add: deleteAllForAccount_def deleteAndCount_def bindA_def reads_def ret_def)

text \<open>A grant belongs to no other grant: \<open>oidc-provider\<close> stores no \<open>grantId\<close> with one.\<close>

definition grants_free :: "oidc_model list \<Rightarrow> bool" where
  "grants_free t \<longleftrightarrow> (\<forall>m \<in> set t. om_modelName m = ''Grant'' \<longrightarrow> om_grantId m = None)"

lemma bound_to_union:
  assumes "grants_free t"
  shows "m \<in> set t \<Longrightarrow> (\<not> bound_to A t m \<and> \<not> bound_to B (filter (\<lambda>m. \<not> bound_to A t m) t) m) \<longleftrightarrow> \<not> bound_to (A \<union> B) t m"
proof -
  have "grants_of (A \<union> B) t = grants_of A t \<union> grants_of B (filter (\<lambda>m. \<not> bound_to A t m) t)"
    using assms by (auto simp: grants_of_def bound_to_def grants_free_def ACCOUNT_BOUND_MODELS_def image_iff) blast
  then show "m \<in> set t \<Longrightarrow> ?thesis" by (auto simp: bound_to_def)
qed

lemma forA_logout:
  "grants_free (oidc_models s) \<Longrightarrow>
   oidc_models (snd (forA deleteAllForAccount as s)) = filter (\<lambda>m. \<not> bound_to (set as) (oidc_models s) m) (oidc_models s)"
proof (induction "as" arbitrary: s)
  case Nil
  then show ?case by (simp add: ret_def bound_to_def grants_of_def)
next
  case (Cons a as)
  let ?t = "oidc_models s" and ?s1 = "s\<lparr>oidc_models := filter (\<lambda>m. \<not> bound_to {a} (oidc_models s) m) (oidc_models s)\<rparr>"
  obtain counts where run: "deleteAllForAccount a s = (Inr counts, ?s1)" using deleteAllForAccount_run by blast
  have free: "grants_free (oidc_models ?s1)" using Cons.prems by (auto simp: grants_free_def)
  have "oidc_models (snd (forA deleteAllForAccount (a # as) s)) =
      filter (\<lambda>m. \<not> bound_to (set as) (filter (\<lambda>m. \<not> bound_to {a} ?t m) ?t) m) (filter (\<lambda>m. \<not> bound_to {a} ?t m) ?t)"
    using Cons.IH [OF free] run by (simp add: bindA_def)
  also have "\<dots> = filter (\<lambda>m. \<not> bound_to (set (a # as)) ?t m) ?t"
    unfolding filter_filter using bound_to_union [OF Cons.prems, of _ "{a}" "set as"] by (intro filter_cong) auto
  finally show ?case .
qed

text \<open>
  C38 Logging out everyone who holds a role in one statement removes exactly the records that a loop of
  single force logouts over those users would remove.
\<close>

theorem role_logout_is_per_user:
  assumes "grants_free (oidc_models s)"
  shows "oidc_models (snd (deleteAllForTenantRole T role s)) =
    oidc_models (snd (forA deleteAllForAccount (role_accounts T role s) s))"
  by (simp add: forA_logout [OF assms] deleteAllForTenantRole_def deleteAndCount_models)

definition sample_user :: "uuid \<Rightarrow> TenantUserRole \<Rightarrow> tenant_user" where
  "sample_user i role =
     \<lparr>tu_id = i, tu_tenantId = ''t1'', tu_externalUserId = None, tu_email = i, tu_displayName = None,
      tu_role = role, tu_status = UserActive, tu_isPlatformOperator = False, tu_createdAt = 1, tu_updatedAt = 1\<rparr>"

theorem role_logout_is_per_user_witness:
  "oidc_models (snd (deleteAllForTenantRole ''t1'' RoleAdmin (signed_in_db\<lparr>tenant_users := [sample_user ''u1'' RoleAdmin]\<rparr>))) =
   oidc_models (snd (forA deleteAllForAccount
     (role_accounts ''t1'' RoleAdmin (signed_in_db\<lparr>tenant_users := [sample_user ''u1'' RoleAdmin]\<rparr>))
     (signed_in_db\<lparr>tenant_users := [sample_user ''u1'' RoleAdmin]\<rparr>)))"
  by (rule role_logout_is_per_user)
     (simp add: grants_free_def signed_in_db_def sample_session_def sample_model_def SESSION_MODEL_def)

section \<open>The adapter reads back what it stored\<close>

lemma upsert_columns_row [simp]: "is_row name i (upsert_columns E p n m) = is_row name i m"
  by (simp add: is_row_def upsert_columns_def)

lemma find_is_row_upsert:
  "\<exists>m. List.find (is_row name i) (oidc_models (snd (adapter_upsert E newId name i payload n s))) = Some (upsert_columns E payload n m)"
proof (cases "\<exists>m \<in> set (oidc_models s). is_row name i m")
  case True
  then obtain m where m: "List.find (is_row name i) (oidc_models s) = Some m"
    using find_None [of "is_row name i" "oidc_models s"] by auto
  then have "is_row name i m" by (auto dest: find_Some)
  with m True show ?thesis by (auto simp: adapter_upsert_def find_update_where)
next
  case False
  then have "List.find (is_row name i) (oidc_models s) = None" by (simp add: find_None)
  with False show ?thesis by (auto simp: adapter_upsert_def find_append) (simp add: is_row_def)
qed


end
