(* ===== verification/Role_Scope.thy ===== *)
theory Role_Scope
  imports Scope_Auth Oidc_Store Operation_Service
begin

text \<open>
  \<open>role-scope.repository.ts\<close> and \<open>role-scope.service.ts\<close>: the scopes a tenant role stands for. A tenant
  may override the platform default of every role but the owner's; each write is checked against the
  whole mapping it results in, and a write that takes scopes away logs the holders of the role out.
  The role in a request is one of the four, as its DTO requires.
\<close>

section \<open>Repository\<close>

fun role_name :: "TenantUserRole \<Rightarrow> string" where
  "role_name RoleOwner = ''owner''"
| "role_name RoleAdmin = ''admin''"
| "role_name RoleMember = ''member''"
| "role_name RoleReadonly = ''readonly''"

definition default_rows :: "TenantUserRole \<Rightarrow> db \<Rightarrow> string list" where
  "default_rows role s = sort (map snd (filter (\<lambda>(r, _). r = role) (role_scopes s)))"

definition findTenantOverride :: "uuid \<Rightarrow> TenantUserRole \<Rightarrow> db \<Rightarrow> string list option" where
  "findTenantOverride tenantId role s =
     map_option snd (List.find (\<lambda>(k, _). k = (tenantId, role)) (tenant_role_scopes s))"

definition findScopesForRole :: "TenantUserRole \<Rightarrow> uuid option \<Rightarrow> db \<Rightarrow> string list" where
  "findScopesForRole role tenantId s =
     (if \<not> js_truthy tenantId then default_rows role s
      else case findTenantOverride (the tenantId) role s of
             Some scopes \<Rightarrow> scopes
           | None \<Rightarrow> default_rows role s)"

text \<open>A role without default rows has no entry in the record.\<close>

definition findDefaultRoleScopes :: "db \<Rightarrow> (string \<times> string list) list" where
  "findDefaultRoleScopes s =
     map (\<lambda>role. (role_name role, default_rows role s)) (remdups (map fst (role_scopes s)))"

definition findTenantOverrides :: "uuid \<Rightarrow> db \<Rightarrow> (string \<times> string list) list" where
  "findTenantOverrides tenantId s =
     map (\<lambda>((_, role), scopes). (role_name role, scopes)) (filter (\<lambda>((t, _), _). t = tenantId) (tenant_role_scopes s))"

definition upsertTenantRoleScopes :: "uuid \<Rightarrow> TenantUserRole \<Rightarrow> string list \<Rightarrow> unit service" where
  "upsertTenantRoleScopes tenantId role scopes = (\<lambda>s.
     if \<not> (\<exists>t \<in> set (tenants s). ten_id t = tenantId) then throw (QueryFailed ''23503'' ''fk_tenant_role_scope_tenant'') s
     else modifies (\<lambda>s. s\<lparr>tenant_role_scopes :=
            (if \<exists>e \<in> set (tenant_role_scopes s). fst e = (tenantId, role)
             then update_where (\<lambda>e. fst e = (tenantId, role)) (\<lambda>e. (fst e, scopes)) (tenant_role_scopes s)
             else tenant_role_scopes s @ [((tenantId, role), scopes)])\<rparr>) s)"

definition deleteTenantRoleScopes :: "uuid \<Rightarrow> TenantUserRole \<Rightarrow> bool service" where
  "deleteTenantRoleScopes tenantId role =
     bindA (reads (\<lambda>s. count_where (\<lambda>e. fst e = (tenantId, role)) (tenant_role_scopes s) > 0)) (\<lambda>hit.
     bindA (modifies (\<lambda>s. s\<lparr>tenant_role_scopes := filter (\<lambda>e. fst e \<noteq> (tenantId, role)) (tenant_role_scopes s)\<rparr>)) (\<lambda>_.
       ret hit))"

section \<open>Mappings\<close>

datatype RoleScopeSource = FromDefault | FromOverride

fun source_name :: "RoleScopeSource \<Rightarrow> string" where
  "source_name FromDefault = ''default''"
| "source_name FromOverride = ''override''"

record RoleScopeMappingEntry =
  rsm_name :: string
  rsm_scopes :: "string list"
  rsm_source :: RoleScopeSource

definition or_empty :: "string list option \<Rightarrow> string list" where
  "or_empty x = (case x of None \<Rightarrow> [] | Some ys \<Rightarrow> ys)"

definition getDefaultRoleMapping :: "db \<Rightarrow> RoleScopeMappingEntry list" where
  "getDefaultRoleMapping s =
     map (\<lambda>role. \<lparr>rsm_name = role, rsm_scopes = or_empty (map_of (findDefaultRoleScopes s) role),
                  rsm_source = FromDefault\<rparr>) ROLE_HIERARCHY"

definition getTenantRoleMapping :: "uuid \<Rightarrow> db \<Rightarrow> RoleScopeMappingEntry list" where
  "getTenantRoleMapping tenantId s =
     map (\<lambda>role.
            case map_of (findTenantOverrides tenantId s) role of
              Some scopes \<Rightarrow> \<lparr>rsm_name = role, rsm_scopes = scopes, rsm_source = FromOverride\<rparr>
            | None \<Rightarrow> \<lparr>rsm_name = role, rsm_scopes = or_empty (map_of (findDefaultRoleScopes s) role),
                      rsm_source = FromDefault\<rparr>) ROLE_HIERARCHY"

section \<open>Checks\<close>

definition removedScopes :: "string list \<Rightarrow> string list \<Rightarrow> string list" where
  "removedScopes previous nxt =
     sort (filter (\<lambda>scope. scope \<notin> set (expandEffectiveScopes nxt)) (expandEffectiveScopes previous))"

definition assertRoleMutable :: "TenantUserRole \<Rightarrow> err + unit" where
  "assertRoleMutable role =
     (if role = RoleOwner then Inl (BadRequestBody ''role_immutable'' ''The owner role cannot be modified'') else Inr ())"

definition assertScopesAssignable :: "TenantUserRole \<Rightarrow> string list \<Rightarrow> err + unit" where
  "assertScopesAssignable role scopes =
     (case assertRoleMutable role of
        Inl e \<Rightarrow> Inl e
      | Inr _ \<Rightarrow>
          let unknown = filter (\<lambda>scope. \<not> isKnownScope scope) scopes
          in if unknown \<noteq> [] then Inl (BadRequestBody ''unknown_scope'' (''Unknown scope(s): '' @ js_join '', '' unknown))
             else if TENANT_SUPERUSER_SCOPE \<in> set scopes
             then Inl (BadRequestBody ''scope_not_assignable''
                    (TENANT_SUPERUSER_SCOPE @ '' cannot be assigned to a role other than owner''))
             else Inr ())"

record RoleScopeWriteRequest =
  rsw_tenantId :: uuid
  rsw_role :: TenantUserRole
  rsw_actorId :: string
  rsw_actorScopes :: "string list"
  rsw_actorRoles :: "string list"
  rsw_actorTokenType :: AuthTokenType

definition assertNoEscalation :: "string list \<Rightarrow> RoleScopeWriteRequest \<Rightarrow> err + unit" where
  "assertNoEscalation scopes actor =
     (if roles_isPlatformAdmin (rsw_actorRoles actor) then Inr ()
      else let escalated = filter (\<lambda>scope. scope \<notin> set (expandEffectiveScopes (rsw_actorScopes actor))) scopes
           in if escalated \<noteq> []
              then Inl (BadRequestBody ''scope_escalation'' (''Cannot grant scope(s) you do not hold: '' @ js_join '', '' escalated))
              else Inr ())"

definition mapping_scopes :: "RoleScopeMappingEntry list \<Rightarrow> string \<Rightarrow> string list" where
  "mapping_scopes mapping role = or_empty (map_of (map (\<lambda>e. (rsm_name e, rsm_scopes e)) mapping) role)"

definition hierarchy_excess :: "RoleScopeMappingEntry list \<Rightarrow> string \<Rightarrow> string \<Rightarrow> string list" where
  "hierarchy_excess mapping parent child =
     sort (filter (\<lambda>scope. scope \<notin> set (expandEffectiveScopes (mapping_scopes mapping parent)))
            (expandEffectiveScopes (mapping_scopes mapping child)))"

fun assertHierarchy_from :: "RoleScopeMappingEntry list \<Rightarrow> string list \<Rightarrow> err + unit" where
  "assertHierarchy_from mapping (parent # child # rest) =
     (let excess = hierarchy_excess mapping parent child
      in if excess \<noteq> []
         then Inl (BadRequestBody ''hierarchy_violation''
                (''Role '' @ child @ '' would hold scope(s) that '' @ parent @ '' lacks: '' @ js_join '', '' excess))
         else assertHierarchy_from mapping (child # rest))"
| "assertHierarchy_from mapping _ = Inr ()"

definition assertHierarchy :: "RoleScopeMappingEntry list \<Rightarrow> err + unit" where
  "assertHierarchy mapping = assertHierarchy_from mapping ROLE_HIERARCHY"

section \<open>Writes\<close>

record RoleScopeWriteResult =
  rsr_role :: string
  rsr_scopes :: "string list"
  rsr_source :: RoleScopeSource
  rsr_revokedRecordCount :: nat

definition revokeAffectedSessions :: "uuid \<Rightarrow> TenantUserRole \<Rightarrow> nat service" where
  "revokeAffectedSessions tenantId role =
     bindA (deleteAllForTenantRole tenantId role) (\<lambda>deleted. ret (sum_list (map snd deleted)))"

definition role_scope_audit :: "RoleScopeWriteRequest \<Rightarrow> AuditAction \<Rightarrow> (string \<times> json) list \<Rightarrow> unit service" where
  "role_scope_audit request action metadata =
     auditLog_write
       \<lparr>aud_tenantId = rsw_tenantId request, aud_actorId = rsw_actorId request,
        aud_actorType = (if rsw_actorTokenType request = ClientToken then ActorClient else ActorUser),
        aud_action = action, aud_resourceType = ''tenant_role_scope'', aud_resourceId = rsw_tenantId request,
        aud_operationId = None, aud_metadata = metadata\<rparr>"

definition json_texts :: "string list \<Rightarrow> json" where
  "json_texts xs = JArr (map JStr xs)"

text \<open>The body of the transaction; the tenant's advisory lock is held from its first statement on.\<close>

definition writeMapping_body ::
    "RoleScopeWriteRequest \<Rightarrow> RoleScopeSource \<Rightarrow> AuditAction \<Rightarrow> string list service \<Rightarrow> (RoleScopeWriteResult \<times> bool) service" where
  "writeMapping_body request source action change =
     bindA (reads (getTenantRoleMapping (rsw_tenantId request))) (\<lambda>before.
     let previousEntry = List.find (\<lambda>e. rsm_name e = role_name (rsw_role request)) before;
         previous = (case previousEntry of None \<Rightarrow> [] | Some e \<Rightarrow> rsm_scopes e) in
     bindA change (\<lambda>scopes.
     bindA (reads (getTenantRoleMapping (rsw_tenantId request))) (\<lambda>after.
     bindA (lift (assertNoEscalation scopes request)) (\<lambda>_.
     bindA (lift (assertHierarchy after)) (\<lambda>_.
     let removed = removedScopes previous scopes; narrowed = (removed \<noteq> []) in
     bindA (if narrowed then revokeAffectedSessions (rsw_tenantId request) (rsw_role request) else ret 0) (\<lambda>revoked.
     let changed = ((case previousEntry of None \<Rightarrow> FromDefault | Some e \<Rightarrow> rsm_source e) \<noteq> source
                    \<or> js_join '' '' previous \<noteq> js_join '' '' scopes) in
     bindA (whenA changed (role_scope_audit request action
              [(''role'', JStr (role_name (rsw_role request))), (''source'', JStr (source_name source)),
               (''previousScopes'', json_texts previous), (''scopes'', json_texts scopes),
               (''removedScopes'', json_texts removed), (''revokedRecordCount'', jnat revoked)])) (\<lambda>_.
       ret (\<lparr>rsr_role = role_name (rsw_role request), rsr_scopes = scopes, rsr_source = source,
             rsr_revokedRecordCount = revoked\<rparr>, narrowed))))))))"

text \<open>
  Between the commit and the second sweep other connections write too: \<open>meanwhile\<close> is what they
  committed, for instance the grant of a login that read the mapping before the commit.
\<close>

definition writeMapping ::
    "(db \<Rightarrow> db) \<Rightarrow> RoleScopeWriteRequest \<Rightarrow> RoleScopeSource \<Rightarrow> AuditAction \<Rightarrow> string list service \<Rightarrow> RoleScopeWriteResult service" where
  "writeMapping meanwhile request source action change =
     bindA (transaction (\<lambda>_. writeMapping_body request source action change)) (\<lambda>(result, narrowed).
     bindA (modifies meanwhile) (\<lambda>_.
       if \<not> narrowed then ret result
       else bindA (revokeAffectedSessions (rsw_tenantId request) (rsw_role request)) (\<lambda>late.
         if late = 0 then ret result
         else bindA (role_scope_audit request AuditRevoke
                [(''role'', JStr (role_name (rsw_role request))), (''reason'', JStr ''commit_window_sweep''),
                 (''revokedRecordCount'', jnat late)]) (\<lambda>_.
              ret (result\<lparr>rsr_revokedRecordCount := rsr_revokedRecordCount result + late\<rparr>)))))"

definition replaceRoleScopes :: "(db \<Rightarrow> db) \<Rightarrow> RoleScopeWriteRequest \<Rightarrow> string list \<Rightarrow> RoleScopeWriteResult service" where
  "replaceRoleScopes meanwhile request requested =
     (let scopes = sort (remdups requested) in
      bindA (lift (assertScopesAssignable (rsw_role request) scopes)) (\<lambda>_.
        writeMapping meanwhile request FromOverride AuditUpdate
          (bindA (upsertTenantRoleScopes (rsw_tenantId request) (rsw_role request) scopes) (\<lambda>_. ret scopes))))"

definition resetRoleScopes :: "(db \<Rightarrow> db) \<Rightarrow> RoleScopeWriteRequest \<Rightarrow> RoleScopeWriteResult service" where
  "resetRoleScopes meanwhile request =
     bindA (lift (assertRoleMutable (rsw_role request))) (\<lambda>_.
       writeMapping meanwhile request FromDefault AuditDelete
         (bindA (deleteTenantRoleScopes (rsw_tenantId request) (rsw_role request)) (\<lambda>_.
          reads (\<lambda>s. or_empty (map_of (findDefaultRoleScopes s) (role_name (rsw_role request)))))))"

section \<open>Resolution\<close>

definition role_scopes_of :: "uuid \<Rightarrow> TenantUserRole \<Rightarrow> db \<Rightarrow> string list" where
  "role_scopes_of T role s = (case findTenantOverride T role s of Some scopes \<Rightarrow> scopes | None \<Rightarrow> default_rows role s)"

lemma role_name_inj [simp]: "role_name a = role_name b \<longleftrightarrow> a = b"
  by (cases a; cases b) simp_all

lemma ROLE_HIERARCHY_roles: "ROLE_HIERARCHY = map role_name [RoleOwner, RoleAdmin, RoleMember, RoleReadonly]"
  by (simp add: ROLE_HIERARCHY_def)

lemma map_of_overrides: "map_of (findTenantOverrides T s) (role_name r) = findTenantOverride T r s"
proof -
  have "map_of (map (\<lambda>((_, role), scopes). (role_name role, scopes)) (filter (\<lambda>((t, _), _). t = T) xs)) (role_name r)
      = map_option snd (List.find (\<lambda>(k, _). k = (T, r)) xs)" for xs :: "((uuid \<times> TenantUserRole) \<times> string list) list"
    by (induction xs) auto
  then show ?thesis by (simp add: findTenantOverrides_def findTenantOverride_def)
qed

lemma map_of_defaults: "or_empty (map_of (findDefaultRoleScopes s) (role_name r)) = default_rows r s"
proof -
  have "map_of (map (\<lambda>role. (role_name role, f role)) xs) (role_name r) = (if r \<in> set xs then Some (f r) else None)"
    for xs and f :: "TenantUserRole \<Rightarrow> string list" by (induction xs) auto
  moreover have "default_rows r s = []" if "r \<notin> fst ` set (role_scopes s)"
  proof -
    have "filter (\<lambda>(ra, _). ra = r) (role_scopes s) = []" using that by (force simp: filter_empty_conv)
    then show ?thesis by (simp add: default_rows_def)
  qed
  ultimately show ?thesis by (simp add: findDefaultRoleScopes_def or_empty_def)
qed

lemma getTenantRoleMapping_roles:
  "getTenantRoleMapping T s =
     map (\<lambda>r. \<lparr>rsm_name = role_name r, rsm_scopes = role_scopes_of T r s,
               rsm_source = (if findTenantOverride T r s = None then FromDefault else FromOverride)\<rparr>)
       [RoleOwner, RoleAdmin, RoleMember, RoleReadonly]"
  unfolding getTenantRoleMapping_def ROLE_HIERARCHY_roles map_map o_def
  by (intro map_cong refl) (auto simp: map_of_overrides map_of_defaults role_scopes_of_def split: option.split)

lemma mapping_entry:
  "List.find (\<lambda>e. rsm_name e = role_name r) (getTenantRoleMapping T s) =
     Some \<lparr>rsm_name = role_name r, rsm_scopes = role_scopes_of T r s,
           rsm_source = (if findTenantOverride T r s = None then FromDefault else FromOverride)\<rparr>"
  unfolding getTenantRoleMapping_roles by (cases r) simp_all

lemma mapping_scopes_role: "mapping_scopes (getTenantRoleMapping T s) (role_name r) = role_scopes_of T r s"
  unfolding getTenantRoleMapping_roles by (cases r) (simp_all add: mapping_scopes_def or_empty_def)

text \<open>
  A sign-in is given the scopes the tenant's role mapping shows: the one-statement lookup of a role
  agrees with the mapping that is read in two queries and merged.
\<close>

theorem sign_in_scopes_match_mapping:
  assumes "T \<noteq> ''''"
  shows "findScopesForRole role (Some T) s = mapping_scopes (getTenantRoleMapping T s) (role_name role)"
  using assms by (simp add: mapping_scopes_role findScopesForRole_def role_scopes_of_def js_truthy_def)

definition sample_request :: "TenantUserRole \<Rightarrow> RoleScopeWriteRequest" where
  "sample_request role = \<lparr>rsw_tenantId = ''t1'', rsw_role = role, rsw_actorId = ''u9'',
     rsw_actorScopes = [TENANT_SUPERUSER_SCOPE], rsw_actorRoles = [], rsw_actorTokenType = UserToken\<rparr>"

definition roles_db :: db where
  "roles_db = signed_in_db\<lparr>tenant_users := [sample_user ''u1'' RoleAdmin],
     role_scopes := [(RoleOwner, TENANT_SUPERUSER_SCOPE), (RoleAdmin, ''users:manage''), (RoleAdmin, ''logs:read'')]\<rparr>"

theorem sign_in_scopes_match_mapping_witness:
  "findScopesForRole RoleAdmin (Some ''t1'') roles_db = mapping_scopes (getTenantRoleMapping ''t1'' roles_db) (role_name RoleAdmin)"
  by (rule sign_in_scopes_match_mapping) simp

section \<open>The hierarchy\<close>

definition below :: "uuid \<Rightarrow> db \<Rightarrow> TenantUserRole \<Rightarrow> TenantUserRole \<Rightarrow> bool" where
  "below T s child parent \<longleftrightarrow>
     set (expandEffectiveScopes (role_scopes_of T child s)) \<subseteq> set (expandEffectiveScopes (role_scopes_of T parent s))"

definition hierarchical :: "uuid \<Rightarrow> db \<Rightarrow> bool" where
  "hierarchical T s \<longleftrightarrow> below T s RoleAdmin RoleOwner \<and> below T s RoleMember RoleAdmin \<and> below T s RoleReadonly RoleMember"

lemma excess_empty: "hierarchy_excess (getTenantRoleMapping T s) (role_name p) (role_name c) = [] \<longleftrightarrow> below T s c p"
proof -
  have "sort xs = [] \<longleftrightarrow> xs = []" for xs :: "string list" by (metis length_0_conv length_sort)
  then show ?thesis by (auto simp: hierarchy_excess_def below_def mapping_scopes_role filter_empty_conv)
qed

lemma assertHierarchy_iff: "assertHierarchy (getTenantRoleMapping T s) = Inr () \<longleftrightarrow> hierarchical T s"
  using excess_empty [of T s RoleOwner RoleAdmin] excess_empty [of T s RoleAdmin RoleMember] excess_empty [of T s RoleMember RoleReadonly]
  by (auto simp: assertHierarchy_def ROLE_HIERARCHY_def hierarchical_def Let_def)

lemma assertNoEscalation_iff:
  "assertNoEscalation scopes rq = Inr () \<longleftrightarrow>
     roles_isPlatformAdmin (rsw_actorRoles rq) \<or> set scopes \<subseteq> set (expandEffectiveScopes (rsw_actorScopes rq))"
  by (auto simp: assertNoEscalation_def Let_def filter_empty_conv)

section \<open>What a write changes\<close>

lemma upsert_effect:
  assumes "upsertTenantRoleScopes T r scopes s = (Inr x, s1)"
  shows "role_scopes s1 = role_scopes s" "tenant_users s1 = tenant_users s" "oidc_models s1 = oidc_models s"
    "findTenantOverride T' r' s1 = (if (T', r') = (T, r) then Some scopes else findTenantOverride T' r' s)"
proof -
  from assms have s1: "s1 = s\<lparr>tenant_role_scopes :=
            (if \<exists>e \<in> set (tenant_role_scopes s). fst e = (T, r)
             then update_where (\<lambda>e. fst e = (T, r)) (\<lambda>e. (fst e, scopes)) (tenant_role_scopes s)
             else tenant_role_scopes s @ [((T, r), scopes)])\<rparr>"
    by (auto simp: upsertTenantRoleScopes_def throw_def modifies_def split: if_splits)
  then show "role_scopes s1 = role_scopes s" "tenant_users s1 = tenant_users s" "oidc_models s1 = oidc_models s" by simp_all
  have key: "(\<lambda>(k, _). k = (T', r')) = (\<lambda>e :: (uuid \<times> TenantUserRole) \<times> string list. fst e = (T', r'))" by auto
  show "findTenantOverride T' r' s1 = (if (T', r') = (T, r) then Some scopes else findTenantOverride T' r' s)"
  proof (cases "\<exists>e \<in> set (tenant_role_scopes s). fst e = (T, r)")
    case True
    then obtain e where e: "List.find (\<lambda>e. fst e = (T, r)) (tenant_role_scopes s) = Some e"
      using find_None [of "\<lambda>e. fst e = (T, r)" "tenant_role_scopes s"] by auto
    then have "fst e = (T, r)" by (auto dest: find_Some)
    moreover have "List.find (\<lambda>e. fst e = k) (update_where (\<lambda>e. fst e = (T, r)) (\<lambda>e. (fst e, scopes)) t) =
        map_option (\<lambda>e. if fst e = (T, r) then (fst e, scopes) else e) (List.find (\<lambda>e. fst e = k) t)" for k t
      by (rule find_update_where) simp
    ultimately show ?thesis
      using True e unfolding s1 findTenantOverride_def key
      by (cases "List.find (\<lambda>e. fst e = (T', r')) (tenant_role_scopes s)") (auto dest: find_Some)
  next
    case False
    then have "List.find (\<lambda>e. fst e = (T, r)) (tenant_role_scopes s) = None" by (simp add: find_None)
    with False show ?thesis
      unfolding s1 findTenantOverride_def key by (auto simp: find_append split: option.split)
  qed
qed

lemma delete_effect:
  assumes "deleteTenantRoleScopes T r s = (Inr x, s1)"
  shows "role_scopes s1 = role_scopes s" "tenant_users s1 = tenant_users s" "oidc_models s1 = oidc_models s"
    "findTenantOverride T' r' s1 = (if (T', r') = (T, r) then None else findTenantOverride T' r' s)"
proof -
  from assms have s1: "s1 = s\<lparr>tenant_role_scopes := filter (\<lambda>e. fst e \<noteq> (T, r)) (tenant_role_scopes s)\<rparr>"
    by (auto simp: deleteTenantRoleScopes_def bindA_def reads_def modifies_def ret_def)
  then show "role_scopes s1 = role_scopes s" "tenant_users s1 = tenant_users s" "oidc_models s1 = oidc_models s" by simp_all
  have "List.find (\<lambda>(k, _). k = (T', r')) (filter (\<lambda>e. fst e \<noteq> (T, r)) xs) =
      (if (T', r') = (T, r) then None else List.find (\<lambda>(k, _). k = (T', r')) xs)"
    for xs :: "((uuid \<times> TenantUserRole) \<times> string list) list"
    by (induction xs) auto
  then show "findTenantOverride T' r' s1 = (if (T', r') = (T, r) then None else findTenantOverride T' r' s)"
    by (simp add: s1 findTenantOverride_def)
qed

definition same_roles :: "db \<Rightarrow> db \<Rightarrow> bool" where
  "same_roles s s' \<longleftrightarrow> role_scopes s' = role_scopes s \<and> tenant_role_scopes s' = tenant_role_scopes s
     \<and> tenant_users s' = tenant_users s"

lemma same_roles_mapping: "same_roles s s' \<Longrightarrow> role_scopes_of T r s' = role_scopes_of T r s"
proof -
  assume "same_roles s s'"
  then have "findTenantOverride T r s' = findTenantOverride T r s" "default_rows r s' = default_rows r s"
    by (simp_all add: same_roles_def findTenantOverride_def default_rows_def)
  then show ?thesis by (auto simp: role_scopes_of_def split: option.split)
qed

lemma same_roles_trans: "same_roles s t \<Longrightarrow> same_roles t u \<Longrightarrow> same_roles s u"
  by (simp add: same_roles_def)

lemma hierarchical_cong: "(\<And>r. role_scopes_of T r s' = role_scopes_of T r s) \<Longrightarrow> hierarchical T s' = hierarchical T s"
  by (simp add: hierarchical_def below_def)

lemma revokeAffectedSessions_run:
  "\<exists>n. revokeAffectedSessions T r s =
     (Inr n, s\<lparr>oidc_models := filter (\<lambda>m. \<not> bound_to (set (role_accounts T r s)) (oidc_models s) m) (oidc_models s)\<rparr>)"
  by (simp add: revokeAffectedSessions_def deleteAllForTenantRole_def deleteAndCount_def bindA_def reads_def ret_def)

lemma role_scope_audit_run:
  "\<exists>row. role_scope_audit rq action meta s = (Inr (), s\<lparr>audit_log := audit_log s @ [row]\<rparr>)"
  unfolding role_scope_audit_def auditLog_write_def modifies_def by blast

text \<open>A write that returns has passed both checks on the mapping it left.\<close>

lemma writeMapping_body_Inr:
  assumes "writeMapping_body rq source action change s = (Inr (res, nar), s')"
  obtains scopes s1 where "change s = (Inr scopes, s1)" "rsr_scopes res = scopes"
    "assertNoEscalation scopes rq = Inr ()" "hierarchical (rsw_tenantId rq) s1" "same_roles s1 s'"
    "nar = (removedScopes (role_scopes_of (rsw_tenantId rq) (rsw_role rq) s) scopes \<noteq> [])"
proof -
  let ?T = "rsw_tenantId rq" and ?r = "rsw_role rq"
  from assms obtain scopes s1 where a: "change s = (Inr scopes, s1)"
    and e: "assertNoEscalation scopes rq = Inr ()" and h: "assertHierarchy (getTenantRoleMapping ?T s1) = Inr ()"
    and rest: "bindA (if removedScopes (role_scopes_of ?T ?r s) scopes \<noteq> [] then revokeAffectedSessions ?T ?r else ret 0) (\<lambda>revoked.
      bindA (whenA ((if findTenantOverride ?T ?r s = None then FromDefault else FromOverride) \<noteq> source
                    \<or> js_join '' '' (role_scopes_of ?T ?r s) \<noteq> js_join '' '' scopes)
              (role_scope_audit rq action
              [(''role'', JStr (role_name ?r)), (''source'', JStr (source_name source)),
               (''previousScopes'', json_texts (role_scopes_of ?T ?r s)), (''scopes'', json_texts scopes),
               (''removedScopes'', json_texts (removedScopes (role_scopes_of ?T ?r s) scopes)), (''revokedRecordCount'', jnat revoked)])) (\<lambda>_.
       ret (\<lparr>rsr_role = role_name ?r, rsr_scopes = scopes, rsr_source = source,
             rsr_revokedRecordCount = revoked\<rparr>, removedScopes (role_scopes_of ?T ?r s) scopes \<noteq> []))) s1 = (Inr (res, nar), s')"
    unfolding writeMapping_body_def bindA_reads Let_def
    by (auto simp: bindA_Inr_iff [where m = change] bindA_reads mapping_entry bindA_Inr_iff [where m = "lift x" for x] lift_Inr
        cong: if_cong)
  obtain n where n: "revokeAffectedSessions ?T ?r s1 =
     (Inr n, s1\<lparr>oidc_models := filter (\<lambda>m. \<not> bound_to (set (role_accounts ?T ?r s1)) (oidc_models s1) m) (oidc_models s1)\<rparr>)"
    using revokeAffectedSessions_run by blast
  have "rsr_scopes res = scopes \<and> same_roles s1 s' \<and> nar = (removedScopes (role_scopes_of ?T ?r s) scopes \<noteq> [])"
    using rest n
    by (auto simp: bindA_Inr_iff whenA_def role_scope_audit_def auditLog_write_def modifies_def ret_def same_roles_def split: if_splits)
  with a e h show ?thesis by (auto simp: assertHierarchy_iff intro: that)
qed

text \<open>What a write that returned has done; a write that failed has done nothing.\<close>

definition write_done :: "RoleScopeWriteRequest \<Rightarrow> db \<Rightarrow> string list \<Rightarrow> db \<Rightarrow> bool" where
  "write_done rq s scopes s' \<longleftrightarrow>
     rsw_role rq \<noteq> RoleOwner
     \<and> role_scopes_of (rsw_tenantId rq) (rsw_role rq) s' = scopes
     \<and> (\<forall>T r. (T, r) \<noteq> (rsw_tenantId rq, rsw_role rq) \<longrightarrow> role_scopes_of T r s' = role_scopes_of T r s)
     \<and> hierarchical (rsw_tenantId rq) s'
     \<and> (roles_isPlatformAdmin (rsw_actorRoles rq) \<or> set scopes \<subseteq> set (expandEffectiveScopes (rsw_actorScopes rq)))"

text \<open>Other connections may write anything but roles and users while the sweep is under way.\<close>

definition keeps_roles :: "(db \<Rightarrow> db) \<Rightarrow> bool" where
  "keeps_roles meanwhile \<longleftrightarrow> (\<forall>s. same_roles s (meanwhile s))"

lemma writeMapping_cases:
  assumes mw: "keeps_roles meanwhile"
    and run: "writeMapping meanwhile rq source action change s = (r, s')"
  shows "case r of
      Inl _ \<Rightarrow> s' = s
    | Inr res \<Rightarrow> \<exists>s1. change s = (Inr (rsr_scopes res), s1) \<and> assertNoEscalation (rsr_scopes res) rq = Inr ()
        \<and> hierarchical (rsw_tenantId rq) s1 \<and> same_roles s1 s'
        \<and> (removedScopes (role_scopes_of (rsw_tenantId rq) (rsw_role rq) s) (rsr_scopes res) \<noteq> [] \<longrightarrow>
           (\<exists>t. same_roles s1 t \<and> oidc_models s' =
              filter (\<lambda>m. \<not> bound_to (set (role_accounts (rsw_tenantId rq) (rsw_role rq) t)) (oidc_models t) m) (oidc_models t)))"
proof -
  let ?T = "rsw_tenantId rq" and ?r = "rsw_role rq"
  let ?tx = "transaction (\<lambda>_. writeMapping_body rq source action change) s"
  obtain q t where tx: "?tx = (q, t)" by fastforce
  show ?thesis
  proof (cases q)
    case (Inl e)
    with tx have "t = s" by (auto dest: transaction_error_rolls_back)
    with tx Inl run show ?thesis by (auto simp: writeMapping_def bindA_def)
  next
    case (Inr p)
    obtain res nar where p: "p = (res, nar)" by (cases p)
    with tx Inr have body: "writeMapping_body rq source action change s = (Inr (res, nar), t)"
      by (simp add: transaction_Inr_iff)
    then obtain s1 where b: "change s = (Inr (rsr_scopes res), s1)" "assertNoEscalation (rsr_scopes res) rq = Inr ()"
        "hierarchical ?T s1" "same_roles s1 t" "nar = (removedScopes (role_scopes_of ?T ?r s) (rsr_scopes res) \<noteq> [])"
      by (rule writeMapping_body_Inr) simp
    let ?u = "meanwhile t"
    have u: "same_roles s1 ?u" using mw b(4) same_roles_trans by (auto simp: keeps_roles_def)
    have rest: "(if \<not> nar then ret res
       else bindA (revokeAffectedSessions ?T ?r) (\<lambda>late.
         if late = 0 then ret res
         else bindA (role_scope_audit rq AuditRevoke
                [(''role'', JStr (role_name ?r)), (''reason'', JStr ''commit_window_sweep''),
                 (''revokedRecordCount'', jnat late)]) (\<lambda>_.
              ret (res\<lparr>rsr_revokedRecordCount := rsr_revokedRecordCount res + late\<rparr>)))) ?u = (r, s')"
      using run tx Inr p by (simp add: writeMapping_def bindA_def modifies_def)
    obtain n where n: "revokeAffectedSessions ?T ?r ?u =
       (Inr n, ?u\<lparr>oidc_models := filter (\<lambda>m. \<not> bound_to (set (role_accounts ?T ?r ?u)) (oidc_models ?u) m) (oidc_models ?u)\<rparr>)"
      using revokeAffectedSessions_run by blast
    have "\<exists>res'. r = Inr res' \<and> rsr_scopes res' = rsr_scopes res \<and> same_roles ?u s'
        \<and> (nar \<longrightarrow> oidc_models s' = filter (\<lambda>m. \<not> bound_to (set (role_accounts ?T ?r ?u)) (oidc_models ?u) m) (oidc_models ?u))"
      using rest n
      by (auto simp: bindA_def role_scope_audit_def auditLog_write_def modifies_def ret_def same_roles_def split: if_splits)
    then obtain res' where res': "r = Inr res'" "rsr_scopes res' = rsr_scopes res" "same_roles ?u s'"
      "nar \<longrightarrow> oidc_models s' = filter (\<lambda>m. \<not> bound_to (set (role_accounts ?T ?r ?u)) (oidc_models ?u) m) (oidc_models ?u)" by blast
    have "same_roles s1 s'" using u res'(3) by (rule same_roles_trans)
    with b u res' show ?thesis by auto
  qed
qed

datatype role_write = Replace RoleScopeWriteRequest "string list" | Reset RoleScopeWriteRequest

fun write_request :: "role_write \<Rightarrow> RoleScopeWriteRequest" where
  "write_request (Replace rq _) = rq"
| "write_request (Reset rq) = rq"

fun run_write :: "(db \<Rightarrow> db) \<Rightarrow> role_write \<Rightarrow> RoleScopeWriteResult service" where
  "run_write meanwhile (Replace rq scopes) = replaceRoleScopes meanwhile rq scopes"
| "run_write meanwhile (Reset rq) = resetRoleScopes meanwhile rq"

fun change_of :: "role_write \<Rightarrow> string list service" where
  "change_of (Replace rq requested) =
     bindA (upsertTenantRoleScopes (rsw_tenantId rq) (rsw_role rq) (sort (remdups requested))) (\<lambda>_. ret (sort (remdups requested)))"
| "change_of (Reset rq) =
     bindA (deleteTenantRoleScopes (rsw_tenantId rq) (rsw_role rq)) (\<lambda>_.
       reads (\<lambda>s. or_empty (map_of (findDefaultRoleScopes s) (role_name (rsw_role rq)))))"

lemma run_write_cases:
  "(\<exists>e. run_write meanwhile w s = (Inl e, s))
   \<or> rsw_role (write_request w) \<noteq> RoleOwner
     \<and> (\<exists>source action. run_write meanwhile w s = writeMapping meanwhile (write_request w) source action (change_of w) s)"
proof (cases w)
  case (Replace rq requested)
  then show ?thesis
    by (cases "assertScopesAssignable (rsw_role rq) (sort (remdups requested))")
       (auto simp: replaceRoleScopes_def Let_def throw_def assertScopesAssignable_def assertRoleMutable_def split: if_splits)
next
  case (Reset rq)
  then show ?thesis
    by (cases "rsw_role rq = RoleOwner") (auto simp: resetRoleScopes_def throw_def assertRoleMutable_def)
qed

text \<open>The change itself: the new scopes are in force for the role, and every other role keeps its own.\<close>

lemma change_of_effect:
  assumes "change_of w s = (Inr scopes, s1)"
  shows "role_scopes_of T r s1 = (if (T, r) = (rsw_tenantId (write_request w), rsw_role (write_request w)) then scopes
      else role_scopes_of T r s)" "tenant_users s1 = tenant_users s"
proof -
  show "role_scopes_of T r s1 = (if (T, r) = (rsw_tenantId (write_request w), rsw_role (write_request w)) then scopes
      else role_scopes_of T r s)"
  proof (cases w)
    case (Replace rq requested)
    with assms have up: "upsertTenantRoleScopes (rsw_tenantId rq) (rsw_role rq) scopes s = (Inr (), s1)"
      by (auto simp: bindA_Inr_iff ret_def)
    have d: "default_rows r s1 = default_rows r s" using upsert_effect(1) [OF up] by (simp add: default_rows_def)
    show ?thesis
      using upsert_effect(4) [OF up, of T r] d Replace by (auto simp: role_scopes_of_def split: option.split)
  next
    case (Reset rq)
    with assms obtain x where del: "deleteTenantRoleScopes (rsw_tenantId rq) (rsw_role rq) s = (Inr x, s1)"
      and sc: "scopes = or_empty (map_of (findDefaultRoleScopes s1) (role_name (rsw_role rq)))"
      by (auto simp: bindA_Inr_iff reads_def)
    have d: "default_rows r s1 = default_rows r s" using delete_effect(1) [OF del] by (simp add: default_rows_def)
    show ?thesis
      using delete_effect(4) [OF del, of T r] d sc Reset by (auto simp: role_scopes_of_def map_of_defaults split: option.split)
  qed
  show "tenant_users s1 = tenant_users s"
    using assms by (cases w) (auto simp: bindA_Inr_iff ret_def reads_def dest: upsert_effect(2) delete_effect(2))
qed

lemma run_write_done:
  assumes mw: "keeps_roles meanwhile" and run: "run_write meanwhile w s = (r, s')"
  shows "case r of Inl _ \<Rightarrow> s' = s | Inr res \<Rightarrow> write_done (write_request w) s (rsr_scopes res) s' \<and> tenant_users s' = tenant_users s"
  using run_write_cases [of meanwhile w s]
proof (elim disjE exE conjE)
  fix e assume "run_write meanwhile w s = (Inl e, s)"
  with run show ?thesis by auto
next
  fix source action
  assume own: "rsw_role (write_request w) \<noteq> RoleOwner"
    and "run_write meanwhile w s = writeMapping meanwhile (write_request w) source action (change_of w) s"
  with run have run': "writeMapping meanwhile (write_request w) source action (change_of w) s = (r, s')" by simp
  show ?thesis
  proof (cases r)
    case (Inl e)
    with writeMapping_cases [OF mw run'] show ?thesis by simp
  next
    case (Inr res)
    with writeMapping_cases [OF mw run'] obtain s1 where c: "change_of w s = (Inr (rsr_scopes res), s1)"
      "assertNoEscalation (rsr_scopes res) (write_request w) = Inr ()"
      "hierarchical (rsw_tenantId (write_request w)) s1" "same_roles s1 s'" by auto
    have same: "role_scopes_of T r s' = role_scopes_of T r s1" for T r using c(4) by (rule same_roles_mapping)
    have "hierarchical (rsw_tenantId (write_request w)) s'" using c(3) hierarchical_cong [of _ s' s1, OF same] by simp
    with c own same Inr change_of_effect [OF c(1)] show ?thesis
      by (auto simp: write_done_def assertNoEscalation_iff same_roles_def)
  qed
qed

section \<open>Any sequence of writes\<close>

inductive role_history :: "db \<Rightarrow> db \<Rightarrow> bool" where
  no_write: "role_history s s"
| changed: "role_history s t \<Longrightarrow> keeps_roles meanwhile \<Longrightarrow> run_write meanwhile w t = (r, u) \<Longrightarrow> role_history s u"
| other: "role_history s t \<Longrightarrow> same_roles t u \<Longrightarrow> role_history s u"

text \<open>
  C4 Whatever role changes are made, by whomever, in whatever order and with whatever else is written
  in between: the scopes of an owner never change, and in a tenant whose roles were nested at the start
  every role still has only scopes its parent role has.
\<close>

theorem role_hierarchy_kept:
  assumes "role_history s s'"
  shows "(hierarchical T s \<longrightarrow> hierarchical T s') \<and> role_scopes_of T RoleOwner s' = role_scopes_of T RoleOwner s"
  using assms
proof (induction rule: role_history.induct)
  case (no_write s)
  then show ?case by simp
next
  case (changed s t meanwhile w r u)
  show ?case
  proof (cases r)
    case (Inl e)
    with run_write_done [OF changed(2,3)] have "u = t" by simp
    with changed.IH show ?thesis by simp
  next
    case (Inr res)
    with run_write_done [OF changed(2,3)] have d: "write_done (write_request w) t (rsr_scopes res) u" by simp
    have own: "role_scopes_of T RoleOwner u = role_scopes_of T RoleOwner t" using d by (auto simp: write_done_def)
    have "hierarchical T u" if "hierarchical T t"
    proof (cases "T = rsw_tenantId (write_request w)")
      case True
      with d show ?thesis by (simp add: write_done_def)
    next
      case False
      with d have "role_scopes_of T r u = role_scopes_of T r t" for r by (auto simp: write_done_def)
      then have "hierarchical T u = hierarchical T t" by (rule hierarchical_cong)
      with that show ?thesis by simp
    qed
    with own changed.IH show ?thesis by simp
  qed
next
  case (other s t u)
  have same: "role_scopes_of T r u = role_scopes_of T r t" for r using other(2) by (rule same_roles_mapping)
  then have "hierarchical T u = hierarchical T t" by (rule hierarchical_cong)
  with other.IH same [of RoleOwner] show ?case by simp
qed

theorem role_hierarchy_kept_witness:
  "hierarchical ''t1'' (snd (run_write id (Replace (sample_request RoleAdmin) [''logs:read'']) roles_db))
   \<and> role_scopes_of ''t1'' RoleAdmin (snd (run_write id (Replace (sample_request RoleAdmin) [''logs:read'']) roles_db)) = [''logs:read'']"
proof -
  let ?run = "run_write id (Replace (sample_request RoleAdmin) [''logs:read'']) roles_db"
  have "keeps_roles id" by (simp add: keeps_roles_def same_roles_def)
  then have "role_history roles_db (snd ?run)"
    by (rule role_history.changed [OF role_history.no_write _ surjective_pairing])
  moreover have "hierarchical ''t1'' roles_db" unfolding hierarchical_def below_def by code_simp
  moreover have "role_scopes_of ''t1'' RoleAdmin (snd ?run) = [''logs:read'']" by code_simp
  ultimately show ?thesis using role_hierarchy_kept by blast
qed



end
