(* ===== verification/OAuth_Client.thy ===== *)
theory OAuth_Client
  imports Scope_Auth
begin

text \<open>
  \<open>oauth-client/\<close>: registration and maintenance of the OAuth clients of a tenant. The repository with the
  constraints of its table, the service with its checks on grants, roles and scopes, and the lookup the
  identity provider uses. The password hash (\<open>argon2\<close>) and the random bytes are parameters: a call that
  needs them is given a secret, an identifier and the hash function of its salt.
\<close>

section \<open>Repository\<close>

definition OAUTH_CLIENT_ID_PREFIX :: string where
  "OAUTH_CLIENT_ID_PREFIX = ''dtcs_''"

definition RESERVED_OAUTH_CLIENT_IDS :: "string list" where
  "RESERVED_OAUTH_CLIENT_IDS = [''dtsc-ui'', ''dtsc-platform-admin'']"

definition MACHINE_GRANT_TYPE :: string where
  "MACHINE_GRANT_TYPE = ''client_credentials''"

text \<open>The constraints of the table: one row per client id, a secret exactly on confidential clients, a positive lifetime.\<close>

definition secret_matches_kind :: "oauth_client \<Rightarrow> bool" where
  "secret_matches_kind c \<longleftrightarrow> oc_isPublic c = (oc_clientSecretHash c = None)"

definition ttl_positive :: "oauth_client \<Rightarrow> bool" where
  "ttl_positive c = (case oc_refreshTokenTtlSeconds c of None \<Rightarrow> True | Some n \<Rightarrow> 0 < n)"

definition put_oauth_clients :: "oauth_client list \<Rightarrow> unit service" where
  "put_oauth_clients t =
     (if \<not> list_all secret_matches_kind t then throw (QueryFailed ''23514'' ''chk_oauth_client_secret_matches_kind'')
      else if \<not> list_all ttl_positive t then throw (QueryFailed ''23514'' ''chk_oauth_client_refresh_token_ttl_positive'')
      else if \<not> index_ok (\<lambda>_. True) oc_clientId t then throw (QueryFailed ''23505'' ''uq_oauth_client_client_id'')
      else modifies (\<lambda>s. s\<lparr>oauth_clients := t\<rparr>))"

definition oc_findById :: "uuid \<Rightarrow> db \<Rightarrow> oauth_client option" where
  "oc_findById i s = List.find (\<lambda>c. oc_id c = i) (oauth_clients s)"

definition oc_findByClientId :: "string \<Rightarrow> db \<Rightarrow> oauth_client option" where
  "oc_findByClientId clientId s = List.find (\<lambda>c. oc_clientId c = clientId) (oauth_clients s)"

definition oc_findByTenant :: "uuid \<Rightarrow> db \<Rightarrow> oauth_client list" where
  "oc_findByTenant tenantId s = sort_key oc_createdAt (filter (\<lambda>c. oc_tenantId c = tenantId) (oauth_clients s))"

definition oc_findByTenantAndClientId :: "uuid \<Rightarrow> string \<Rightarrow> db \<Rightarrow> oauth_client option" where
  "oc_findByTenantAndClientId tenantId clientId s =
     List.find (\<lambda>c. oc_tenantId c = tenantId \<and> oc_clientId c = clientId) (oauth_clients s)"

definition oc_create :: "oauth_client \<Rightarrow> oauth_client service" where
  "oc_create c = (\<lambda>s.
     if \<exists>r \<in> set (oauth_clients s). oc_id r = oc_id c then throw (QueryFailed ''23505'' ''oauth_client_pkey'') s
     else if \<not> (\<exists>t \<in> set (tenants s). ten_id t = oc_tenantId c) then throw (QueryFailed ''23503'' ''fk_oauth_client_tenant'') s
     else bindA (put_oauth_clients (oauth_clients s @ [c])) (\<lambda>_. ret c) s)"

definition oc_save :: "oauth_client \<Rightarrow> oauth_client service" where
  "oc_save c = (\<lambda>s. bindA (put_oauth_clients (save_row oc_id c (oauth_clients s))) (\<lambda>_. ret c) s)"

definition oc_revoke :: "env \<Rightarrow> uuid \<Rightarrow> unit service" where
  "oc_revoke E i = modifies (\<lambda>s. s\<lparr>oauth_clients := update_where (\<lambda>c. oc_id c = i)
     (\<lambda>c. c\<lparr>oc_revokedAt := Some (of_js (js_now E)), oc_revokedReason := None\<rparr>) (oauth_clients s)\<rparr>)"

definition oc_revokeAllForTenant :: "env \<Rightarrow> uuid \<Rightarrow> nat service" where
  "oc_revokeAllForTenant E tenantId = (\<lambda>s.
     let hit = (\<lambda>c. oc_tenantId c = tenantId \<and> oc_revokedAt c = None)
     in bindA (modifies (\<lambda>s. s\<lparr>oauth_clients := update_where hit
                (\<lambda>c. c\<lparr>oc_revokedAt := Some (of_js (js_now E)), oc_revokedReason := Some TENANT_DEACTIVATION\<rparr>) (oauth_clients s)\<rparr>))
          (\<lambda>_. ret (count_where hit (oauth_clients s))) s)"

definition oc_restoreAllForTenant :: "uuid \<Rightarrow> nat service" where
  "oc_restoreAllForTenant tenantId = (\<lambda>s.
     let hit = (\<lambda>c. oc_tenantId c = tenantId \<and> oc_revokedReason c = Some TENANT_DEACTIVATION)
     in bindA (modifies (\<lambda>s. s\<lparr>oauth_clients := update_where hit
                (\<lambda>c. c\<lparr>oc_revokedAt := None, oc_revokedReason := None\<rparr>) (oauth_clients s)\<rparr>))
          (\<lambda>_. ret (count_where hit (oauth_clients s))) s)"

section \<open>The checks of the service\<close>

record OidcConfig =
  cfg_grantTypes :: "string list"
  cfg_scopes :: "string list"

definition requireCaller :: "AuthContext option \<Rightarrow> err + AuthContext" where
  "requireCaller auth = (case auth of None \<Rightarrow> Inl context_missing | Some a \<Rightarrow> Inr a)"

definition assertNotReserved :: "oauth_client \<Rightarrow> err + unit" where
  "assertNotReserved c =
     (if oc_clientId c \<in> set RESERVED_OAUTH_CLIENT_IDS
      then Inl (ForbiddenException ''System OAuth clients cannot be managed through tenant client APIs.'') else Inr ())"

definition requireTenantClient :: "bool \<Rightarrow> uuid \<Rightarrow> string \<Rightarrow> oauth_client service" where
  "requireTenantClient active tenantId clientId = (\<lambda>s.
     case oc_findByTenantAndClientId tenantId clientId s of
       None \<Rightarrow> throw (NotFoundException (''OAuth client '' @ quoted clientId @ '' was not found.'')) s
     | Some c \<Rightarrow> if active \<and> oc_revokedAt c \<noteq> None
                 then throw (NotFoundException (''OAuth client '' @ quoted clientId @ '' was not found.'')) s else ret c s)"

definition assertSupportedGrantTypes :: "OidcConfig \<Rightarrow> string list option \<Rightarrow> err + unit" where
  "assertSupportedGrantTypes cfg grantTypes =
     (case grantTypes of None \<Rightarrow> Inr ()
      | Some gs \<Rightarrow>
          let unsupported = filter (\<lambda>g. g \<notin> set (cfg_grantTypes cfg)) gs
          in if unsupported \<noteq> []
             then Inl (BadRequestException (''Unsupported grant type(s): '' @ js_join '', '' unsupported
                        @ ''. Supported grant type(s): '' @ js_join '', '' (cfg_grantTypes cfg) @ ''.''))
             else Inr ())"

definition hasPlatformRole :: "string list \<Rightarrow> bool" where
  "hasPlatformRole roles = list_ex (\<lambda>role. role \<in> set OAUTH_CLIENT_PLATFORM_ROLES) roles"

definition assertRoleConstraints :: "string list \<Rightarrow> string list \<Rightarrow> AuthContext \<Rightarrow> bool \<Rightarrow> string list \<Rightarrow> err + unit" where
  "assertRoleConstraints roles grantTypes caller checkAssignment previousRoles =
     (let unknown = filter (\<lambda>role. role \<notin> set OAUTH_CLIENT_ALLOWED_ROLES) roles in
      if unknown \<noteq> []
      then Inl (BadRequestException (''Unsupported role(s): '' @ js_join '', '' unknown
                 @ ''. Allowed role(s): '' @ js_join '', '' OAUTH_CLIENT_ALLOWED_ROLES @ ''.''))
      else if checkAssignment \<and> hasPlatformRole previousRoles \<noteq> hasPlatformRole roles
              \<and> \<not> roles_isPlatformAdmin (auth_roles caller)
      then Inl (ForbiddenException
                 ''Only platform-admin callers may assign or clear platform-level roles on OAuth clients.'')
      else if roles = [] then Inr ()
      else let uniqueGrantTypes = js_Set grantTypes in
        if \<not> (length uniqueGrantTypes = 1 \<and> hd uniqueGrantTypes = MACHINE_GRANT_TYPE)
        then Inl (BadRequestException (''Roles may only be assigned to clients restricted to the ''
                   @ MACHINE_GRANT_TYPE @ '' grant.''))
        else Inr ())"

definition assertAssignableScopes :: "OidcConfig \<Rightarrow> string list \<Rightarrow> AuthContext \<Rightarrow> err + unit" where
  "assertAssignableScopes cfg scopes caller =
     (if scopes = [] then Inl (BadRequestException ''At least one scope is required.'')
      else
        let allowedScopes = filter (\<lambda>scope. scope \<in> set (cfg_scopes cfg)) ASSIGNABLE_OAUTH_CLIENT_SCOPES;
            deniedScopes = snd (partitionRequestedScopes
              \<lparr>prs_requestedScopes = scopes, prs_allowedScopes = allowedScopes,
               prs_actorScopes = expandEffectiveScopes (auth_scopes caller),
               prs_isPlatformAdmin = roles_isPlatformAdmin (auth_roles caller)\<rparr>);
            unknown = filter (\<lambda>scope. scope \<notin> set ASSIGNABLE_OAUTH_CLIENT_SCOPES) deniedScopes;
            notConfigured = filter (\<lambda>scope. scope \<notin> set (cfg_scopes cfg)) deniedScopes
        in if deniedScopes = [] then Inr ()
           else if unknown \<noteq> []
           then Inl (BadRequestException (''Unsupported scope(s): '' @ js_join '', '' unknown
                      @ ''. Allowed scope(s): '' @ js_join '', '' ASSIGNABLE_OAUTH_CLIENT_SCOPES @ ''.''))
           else if notConfigured \<noteq> []
           then Inl (BadRequestException (''Scope(s) not enabled on this deployment: '' @ js_join '', '' notConfigured @ ''.''))
           else Inl (ForbiddenException (''Cannot assign scope(s) not held by the caller: '' @ js_join '', '' deniedScopes @ ''.'')))"

section \<open>The operations of the service\<close>

record CreateOAuthClientDto =
  cod_clientId :: "string option"
  cod_name :: string
  cod_scopes :: "string list"
  cod_roles :: "string list option"
  cod_redirectUris :: "string list option"
  cod_grantTypes :: "string list option"
  cod_refreshTokenTtlSeconds :: "int option"

text \<open>The inner option of the lifetime is an explicit \<open>null\<close>, which clears it.\<close>

record UpdateOAuthClientDto =
  uod_name :: "string option"
  uod_scopes :: "string list option"
  uod_roles :: "string list option"
  uod_redirectUris :: "string list option"
  uod_grantTypes :: "string list option"
  uod_refreshTokenTtlSeconds :: "int option option"

text \<open>What a call draws at random: the secret, the generated part of an identifier and the salt of the hash.\<close>

record drawn =
  rnd_secret :: string
  rnd_clientId :: string
  rnd_hash :: "string \<Rightarrow> string"

definition generateClientId :: "drawn \<Rightarrow> string" where
  "generateClientId D = OAUTH_CLIENT_ID_PREFIX @ rnd_clientId D"

definition new_client ::
    "env \<Rightarrow> drawn \<Rightarrow> uuid \<Rightarrow> uuid \<Rightarrow> CreateOAuthClientDto \<Rightarrow> AuthContext \<Rightarrow> string \<Rightarrow> string list \<Rightarrow> string list \<Rightarrow> oauth_client" where
  "new_client E D newId tenantId dto caller clientId grantTypes roles =
     \<lparr>oc_id = newId, oc_tenantId = tenantId, oc_clientId = clientId,
      oc_clientSecretHash = Some (rnd_hash D (rnd_secret D)), oc_isPublic = False, oc_name = cod_name dto,
      oc_scopes = cod_scopes dto, oc_roles = roles,
      oc_redirectUris = (case cod_redirectUris dto of None \<Rightarrow> [] | Some u \<Rightarrow> u),
      oc_postLogoutRedirectUris = [], oc_grantTypes = grantTypes,
      oc_createdBy = (if auth_tokenType caller = UserToken then Some (auth_sub caller) else None),
      oc_createdAt = db_now E, oc_refreshTokenTtlSeconds = cod_refreshTokenTtlSeconds dto,
      oc_revokedAt = None, oc_revokedReason = None\<rparr>"

definition createClient ::
    "env \<Rightarrow> OidcConfig \<Rightarrow> drawn \<Rightarrow> uuid \<Rightarrow> uuid \<Rightarrow> CreateOAuthClientDto \<Rightarrow> AuthContext option \<Rightarrow> (oauth_client \<times> string) service" where
  "createClient E cfg D newId tenantId dto auth =
     bindA (lift (requireCaller auth)) (\<lambda>caller.
     let grantTypes = (case cod_grantTypes dto of None \<Rightarrow> [MACHINE_GRANT_TYPE] | Some g \<Rightarrow> g);
         roles = (case cod_roles dto of None \<Rightarrow> [] | Some r \<Rightarrow> r) in
     bindA (lift (assertSupportedGrantTypes cfg (Some grantTypes))) (\<lambda>_.
     bindA (lift (assertRoleConstraints roles grantTypes caller (cod_roles dto \<noteq> None) [])) (\<lambda>_.
     bindA (lift (assertAssignableScopes cfg (cod_scopes dto) caller)) (\<lambda>_.
     let clientId = (case cod_clientId dto of None \<Rightarrow> generateClientId D | Some i \<Rightarrow> i) in
     bindA (reads (oc_findByClientId clientId)) (\<lambda>taken.
     bindA (require (taken = None) (ConflictException ''OAuth client ID is already in use.'')) (\<lambda>_.
     bindA (catchA (oc_create (new_client E D newId tenantId dto caller clientId grantTypes roles))
             (\<lambda>e. throw (if isUniqueConstraintViolation e (Some ''uq_oauth_client_client_id'')
                         then ConflictException ''OAuth client ID is already in use.'' else e))) (\<lambda>client.
     ret (client, rnd_secret D))))))))"

definition client_findByClientId :: "string \<Rightarrow> oauth_client service" where
  "client_findByClientId clientId =
     bindA (reads (oc_findByClientId clientId))
       (found (NotFoundException (''OAuth client with ID '' @ quoted clientId @ '' was not found.'')))"

definition apply_client_dto :: "UpdateOAuthClientDto \<Rightarrow> oauth_client \<Rightarrow> oauth_client" where
  "apply_client_dto dto c =
     c\<lparr>oc_name := (case uod_name dto of None \<Rightarrow> oc_name c | Some x \<Rightarrow> x),
       oc_scopes := (case uod_scopes dto of None \<Rightarrow> oc_scopes c | Some x \<Rightarrow> x),
       oc_roles := (case uod_roles dto of None \<Rightarrow> oc_roles c | Some x \<Rightarrow> x),
       oc_redirectUris := (case uod_redirectUris dto of None \<Rightarrow> oc_redirectUris c | Some x \<Rightarrow> x),
       oc_grantTypes := (case uod_grantTypes dto of None \<Rightarrow> oc_grantTypes c | Some x \<Rightarrow> x),
       oc_refreshTokenTtlSeconds :=
         (case uod_refreshTokenTtlSeconds dto of None \<Rightarrow> oc_refreshTokenTtlSeconds c | Some x \<Rightarrow> x)\<rparr>"

definition update_client ::
    "OidcConfig \<Rightarrow> uuid \<Rightarrow> string \<Rightarrow> UpdateOAuthClientDto \<Rightarrow> AuthContext option \<Rightarrow> oauth_client service" where
  "update_client cfg tenantId clientId dto auth =
     bindA (lift (requireCaller auth)) (\<lambda>caller.
     bindA (lift (assertSupportedGrantTypes cfg (uod_grantTypes dto))) (\<lambda>_.
     bindA (requireTenantClient True tenantId clientId) (\<lambda>client.
     bindA (lift (assertNotReserved client)) (\<lambda>_.
     let nextRoles = (case uod_roles dto of None \<Rightarrow> oc_roles client | Some r \<Rightarrow> r);
         nextGrantTypes = (case uod_grantTypes dto of None \<Rightarrow> oc_grantTypes client | Some g \<Rightarrow> g) in
     bindA (lift (assertRoleConstraints nextRoles nextGrantTypes caller (uod_roles dto \<noteq> None) (oc_roles client))) (\<lambda>_.
     bindA (lift (case uod_scopes dto of None \<Rightarrow> Inr () | Some scopes \<Rightarrow> assertAssignableScopes cfg scopes caller)) (\<lambda>_.
     oc_save (apply_client_dto dto client)))))))"

definition revokeClient :: "env \<Rightarrow> uuid \<Rightarrow> string \<Rightarrow> unit service" where
  "revokeClient E tenantId clientId =
     bindA (requireTenantClient False tenantId clientId) (\<lambda>client.
     bindA (lift (assertNotReserved client)) (\<lambda>_.
     if oc_revokedAt client \<noteq> None then ret () else oc_revoke E (oc_id client)))"

definition rotateSecret :: "drawn \<Rightarrow> uuid \<Rightarrow> string \<Rightarrow> (oauth_client \<times> string) service" where
  "rotateSecret D tenantId clientId =
     bindA (requireTenantClient True tenantId clientId) (\<lambda>client.
     bindA (lift (assertNotReserved client)) (\<lambda>_.
     bindA (require (\<not> oc_isPublic client) (BadRequestException ''Public clients do not have a client secret.'')) (\<lambda>_.
     bindA (oc_save (client\<lparr>oc_clientSecretHash := Some (rnd_hash D (rnd_secret D))\<rparr>)) (\<lambda>updated.
     ret (updated, rnd_secret D)))))"

definition reactivateClient :: "uuid \<Rightarrow> string \<Rightarrow> oauth_client service" where
  "reactivateClient tenantId clientId =
     bindA (requireTenantClient False tenantId clientId) (\<lambda>client.
     bindA (lift (assertNotReserved client)) (\<lambda>_.
     oc_save (client\<lparr>oc_revokedAt := None, oc_revokedReason := None\<rparr>)))"

definition verifyClientSecret :: "(string \<Rightarrow> string \<Rightarrow> bool) \<Rightarrow> string \<Rightarrow> string \<Rightarrow> bool service" where
  "verifyClientSecret verify clientId clientSecret =
     bindA (client_findByClientId clientId) (\<lambda>client.
       if oc_revokedAt client \<noteq> None then ret False
       else case oc_clientSecretHash client of None \<Rightarrow> ret False
            | Some h \<Rightarrow> if h = '''' then ret False else ret (verify h clientSecret))"

section \<open>The lookup of the identity provider\<close>

record OidcClientRecord =
  ocr_clientId :: string
  ocr_clientSecretHash :: "string option"
  ocr_name :: string
  ocr_tenantId :: uuid
  ocr_scopes :: "string list"
  ocr_redirectUris :: "string list"
  ocr_postLogoutRedirectUris :: "string list"
  ocr_grantTypes :: "string list"
  ocr_isPublic :: bool
  ocr_roles :: "string list"
  ocr_refreshTokenTtlSeconds :: "int option"

definition findActiveClient :: "string \<Rightarrow> OidcClientRecord option service" where
  "findActiveClient clientId =
     bindA (catchA (bindA (client_findByClientId clientId) (\<lambda>c. ret (Some c)))
              (\<lambda>e. case e of NotFoundException _ \<Rightarrow> ret None | _ \<Rightarrow> throw e)) (\<lambda>client.
     ret (case client of None \<Rightarrow> None
          | Some c \<Rightarrow> if oc_revokedAt c \<noteq> None then None
              else Some \<lparr>ocr_clientId = oc_clientId c, ocr_clientSecretHash = oc_clientSecretHash c, ocr_name = oc_name c,
                         ocr_tenantId = oc_tenantId c, ocr_scopes = oc_scopes c, ocr_redirectUris = oc_redirectUris c,
                         ocr_postLogoutRedirectUris = oc_postLogoutRedirectUris c, ocr_grantTypes = oc_grantTypes c,
                         ocr_isPublic = oc_isPublic c, ocr_roles = oc_roles c,
                         ocr_refreshTokenTtlSeconds = oc_refreshTokenTtlSeconds c\<rparr>))"

section \<open>What a history of calls may do to a client\<close>

text \<open>
  \<open>K\<close> is the set of callers of a history. A scope can be handed out when it may be assigned at all, is
  enabled, and some caller holds it or administers the platform.
\<close>

definition admin_among :: "AuthContext set \<Rightarrow> bool" where
  "admin_among K \<longleftrightarrow> (\<exists>a \<in> K. roles_isPlatformAdmin (auth_roles a))"

definition assignable :: "OidcConfig \<Rightarrow> AuthContext set \<Rightarrow> string \<Rightarrow> bool" where
  "assignable cfg K x \<longleftrightarrow> x \<in> set ASSIGNABLE_OAUTH_CLIENT_SCOPES \<and> x \<in> set (cfg_scopes cfg)
     \<and> (admin_among K \<or> (\<exists>a \<in> K. x \<in> set (expandEffectiveScopes (auth_scopes a))))"

definition machine_roles :: "oauth_client \<Rightarrow> bool" where
  "machine_roles c \<longleftrightarrow> set (oc_roles c) \<subseteq> set OAUTH_CLIENT_ALLOWED_ROLES
     \<and> (oc_roles c \<noteq> [] \<longrightarrow> set (oc_grantTypes c) = {MACHINE_GRANT_TYPE})"

definition tag_ok :: "oauth_client \<Rightarrow> bool" where
  "tag_ok c \<longleftrightarrow> (oc_revokedReason c \<noteq> None \<longrightarrow> oc_revokedAt c \<noteq> None)"

text \<open>Everything an administrator sets on a client, as opposed to its revocation.\<close>

definition settings :: "oauth_client \<Rightarrow> oauth_client" where
  "settings c = c\<lparr>oc_revokedAt := None, oc_revokedReason := None\<rparr>"

definition client_rel :: "OidcConfig \<Rightarrow> AuthContext set \<Rightarrow> oauth_client \<Rightarrow> oauth_client \<Rightarrow> bool" where
  "client_rel cfg K r r' \<longleftrightarrow>
     oc_id r' = oc_id r \<and> oc_tenantId r' = oc_tenantId r \<and> oc_clientId r' = oc_clientId r
     \<and> oc_isPublic r' = oc_isPublic r
     \<and> (machine_roles r \<longrightarrow> machine_roles r') \<and> (tag_ok r \<longrightarrow> tag_ok r')
     \<and> (hasPlatformRole (oc_roles r') \<noteq> hasPlatformRole (oc_roles r) \<longrightarrow> admin_among K)
     \<and> (\<forall>x \<in> set (oc_scopes r'). x \<in> set (oc_scopes r) \<or> assignable cfg K x)
     \<and> (oc_clientId r \<in> set RESERVED_OAUTH_CLIENT_IDS \<longrightarrow> settings r' = settings r)"

definition client_fresh :: "OidcConfig \<Rightarrow> AuthContext set \<Rightarrow> oauth_client \<Rightarrow> bool" where
  "client_fresh cfg K r \<longleftrightarrow> machine_roles r \<and> tag_ok r \<and> (hasPlatformRole (oc_roles r) \<longrightarrow> admin_among K)
     \<and> (\<forall>x \<in> set (oc_scopes r). assignable cfg K x)"

interpretation clients: keyed_table oauth_clients "client_rel cfg K" "client_fresh cfg K" oc_id for cfg K
proof
  fix r r' r'' assume "client_rel cfg K r r'" "client_rel cfg K r' r''"
  then show "client_rel cfg K r r''" unfolding client_rel_def by (intro conjI) (simp; fail | blast | metis)+
next
  fix r r' assume "client_fresh cfg K r" "client_rel cfg K r r'"
  then show "client_fresh cfg K r'" unfolding client_rel_def client_fresh_def by blast
qed (simp_all add: client_rel_def)

abbreviation client_step :: "OidcConfig \<Rightarrow> AuthContext set \<Rightarrow> db \<Rightarrow> db \<Rightarrow> bool" where
  "client_step cfg K \<equiv> keyed_step oc_id (client_rel cfg K) (client_fresh cfg K) oauth_clients"

lemma assertRoleConstraints_Inr:
  "assertRoleConstraints roles grantTypes a check prev = Inr u \<longleftrightarrow>
     set roles \<subseteq> set OAUTH_CLIENT_ALLOWED_ROLES
     \<and> (check \<and> hasPlatformRole prev \<noteq> hasPlatformRole roles \<longrightarrow> roles_isPlatformAdmin (auth_roles a))
     \<and> (roles \<noteq> [] \<longrightarrow> set grantTypes = {MACHINE_GRANT_TYPE})"
proof -
  have "length (js_Set grantTypes) = 1 \<and> hd (js_Set grantTypes) = MACHINE_GRANT_TYPE \<longleftrightarrow> set grantTypes = {MACHINE_GRANT_TYPE}"
  proof
    assume "length (js_Set grantTypes) = 1 \<and> hd (js_Set grantTypes) = MACHINE_GRANT_TYPE"
    then have "js_Set grantTypes = [MACHINE_GRANT_TYPE]" by (cases "js_Set grantTypes") auto
    then have "set (js_Set grantTypes) = {MACHINE_GRANT_TYPE}" by simp
    then show "set grantTypes = {MACHINE_GRANT_TYPE}" by simp
  next
    assume g: "set grantTypes = {MACHINE_GRANT_TYPE}"
    then have "length (js_Set grantTypes) = 1" by (simp add: js_Set_def length_remdups_card_conv)
    moreover from this g have "hd (js_Set grantTypes) = MACHINE_GRANT_TYPE"
      by (metis hd_in_set length_0_conv set_js_Set singletonD zero_neq_one)
    ultimately show "length (js_Set grantTypes) = 1 \<and> hd (js_Set grantTypes) = MACHINE_GRANT_TYPE" by simp
  qed
  then show ?thesis by (auto simp: assertRoleConstraints_def Let_def filter_empty_conv)
qed

lemma assertAssignableScopes_Inr:
  "assertAssignableScopes cfg scopes a = Inr u \<longleftrightarrow> scopes \<noteq> [] \<and> (\<forall>x \<in> set scopes. assignable cfg {a} x)"
  by (auto simp: assertAssignableScopes_def Let_def partitionRequestedScopes_filter filter_empty_conv prs_permitted_def
      assignable_def admin_among_def)

lemma assignable_mono: "assignable cfg K x \<Longrightarrow> K \<subseteq> K' \<Longrightarrow> assignable cfg K' x"
  by (auto simp: assignable_def admin_among_def)

lemma oc_create_cases:
  assumes "oc_create c s = (r, s')"
  shows "s' = s \<or> r = Inr c \<and> s' = s\<lparr>oauth_clients := oauth_clients s @ [c]\<rparr> \<and> (\<forall>x \<in> set (oauth_clients s). oc_id x \<noteq> oc_id c)"
  using assms by (auto simp: oc_create_def put_oauth_clients_def action_defs split: if_splits)

lemma oc_save_cases:
  assumes "oc_save c s = (r, s')"
  shows "s' = s \<or> r = Inr c \<and> s' = s\<lparr>oauth_clients := save_row oc_id c (oauth_clients s)\<rparr>"
  using assms by (auto simp: oc_save_def put_oauth_clients_def action_defs split: if_splits)

lemma requireTenantClient_Inr:
  "requireTenantClient active T i s = (Inr c, s') \<longleftrightarrow>
     s' = s \<and> oc_findByTenantAndClientId T i s = Some c \<and> (active \<longrightarrow> oc_revokedAt c = None)"
  by (auto simp: requireTenantClient_def ret_def throw_def split: option.splits)

lemma requireTenantClient_store [simp]: "snd (requireTenantClient active T i s) = s"
  by (auto simp: requireTenantClient_def ret_def throw_def split: option.splits)

lemma found_client:
  "oc_findByTenantAndClientId T i s = Some c \<Longrightarrow> c \<in> set (oauth_clients s) \<and> oc_tenantId c = T \<and> oc_clientId c = i"
  by (auto simp: oc_findByTenantAndClientId_def dest: find_Some)

lemma assertNotReserved_Inr: "assertNotReserved c = Inr u \<longleftrightarrow> oc_clientId c \<notin> set RESERVED_OAUTH_CLIENT_IDS"
  by (simp add: assertNotReserved_def)

lemma on_tenant_client:
  assumes run: "bindA (requireTenantClient active T i) g s = (r, s')" and s: "s' \<noteq> s"
  shows "\<exists>c. oc_findByTenantAndClientId T i s = Some c \<and> g c s = (r, s')"
proof (cases "oc_findByTenantAndClientId T i s")
  case None
  with run s show ?thesis by (simp add: requireTenantClient_def bindA_def throw_def)
next
  case (Some c)
  with run s show ?thesis by (auto simp: requireTenantClient_def bindA_def throw_def ret_def split: if_splits)
qed

text \<open>An operation on one client: it fails without a trace, or it saves a row made from the client.\<close>

lemma client_save_step:
  assumes "oc_findByTenantAndClientId T i s = Some c" and "client_rel cfg K c row" and "oc_save row s = (r, s')"
  shows "client_step cfg K s s'"
  using oc_save_cases [OF assms(3)] found_client [OF assms(1)] assms(2)
  by (auto intro: clients.keyed_same clients.keyed_save)

lemma createClient_step:
  assumes run: "createClient E cfg D newId T dto auth s = (r, s')" and K: "\<And>a. auth = Some a \<Longrightarrow> a \<in> K"
  shows "client_step cfg K s s'"
proof (cases "s' = s")
  case True
  then show ?thesis by (simp add: clients.keyed_same)
next
  case False
  from run False obtain a where a: "auth = Some a" by (cases auth) (auto simp: createClient_def requireCaller_def throw_def)
  define grants where "grants = (case cod_grantTypes dto of None \<Rightarrow> [MACHINE_GRANT_TYPE] | Some g \<Rightarrow> g)"
  define roles where "roles = (case cod_roles dto of None \<Rightarrow> [] | Some x \<Rightarrow> x)"
  from run False have ok: "assertSupportedGrantTypes cfg (Some grants) = Inr ()"
      "assertRoleConstraints roles grants a (cod_roles dto \<noteq> None) [] = Inr ()" "assertAssignableScopes cfg (cod_scopes dto) a = Inr ()"
    by (cases "assertSupportedGrantTypes cfg (Some grants)"; cases "assertRoleConstraints roles grants a (cod_roles dto \<noteq> None) []";
        cases "assertAssignableScopes cfg (cod_scopes dto) a";
        simp add: a createClient_def requireCaller_def throw_run Let_def grants_def [symmetric] roles_def [symmetric])+
  define clientId where "clientId = (case cod_clientId dto of None \<Rightarrow> generateClientId D | Some i \<Rightarrow> i)"
  define row where "row = new_client E D newId T dto a clientId grants roles"
  obtain res u where create: "oc_create row s = (res, u)" by (cases "oc_create row s")
  have "oc_findByClientId clientId s = None"
    using run False by (rule_tac ccontr) (simp add: a createClient_def requireCaller_def ok require_def throw_run
        Let_def grants_def [symmetric] roles_def [symmetric] clientId_def [symmetric] del: not_None_eq)
  then have "snd (createClient E cfg D newId T dto auth s) = snd (oc_create row s)"
    by (simp add: a createClient_def requireCaller_def ok require_def bindA_ret_snd catchA_throw_snd
        Let_def grants_def [symmetric] roles_def [symmetric] clientId_def [symmetric] row_def [symmetric] del: not_None_eq)
  with run create have "s' = u" by simp
  with oc_create_cases [OF create] False
  have row: "s' = s\<lparr>oauth_clients := oauth_clients s @ [row]\<rparr>" "\<forall>x \<in> set (oauth_clients s). oc_id x \<noteq> oc_id row" by auto
  have set: "oc_roles row = roles" "oc_grantTypes row = grants" "oc_scopes row = cod_scopes dto" "oc_revokedReason row = None"
    by (simp_all add: row_def new_client_def)
  have "hasPlatformRole roles \<longrightarrow> roles_isPlatformAdmin (auth_roles a)"
    using ok(2) by (cases "cod_roles dto") (auto simp: assertRoleConstraints_Inr roles_def hasPlatformRole_def)
  then have "client_fresh cfg K row"
    using ok K [OF a] set
    by (auto simp: client_fresh_def machine_roles_def tag_ok_def assertRoleConstraints_Inr assertAssignableScopes_Inr admin_among_def
        intro: assignable_mono [of cfg "{a}"])
  with row show ?thesis by (intro clients.keyed_append) simp_all
qed

lemma update_client_step:
  assumes run: "update_client cfg T i dto auth s = (r, s')" and K: "\<And>a. auth = Some a \<Longrightarrow> a \<in> K"
  shows "client_step cfg K s s'"
proof (cases "s' = s")
  case True
  then show ?thesis by (simp add: clients.keyed_same)
next
  case False
  from run False obtain a where a: "auth = Some a" by (cases auth) (auto simp: update_client_def requireCaller_def throw_run)
  from run False have g: "assertSupportedGrantTypes cfg (uod_grantTypes dto) = Inr ()"
    by (cases "assertSupportedGrantTypes cfg (uod_grantTypes dto)") (simp_all add: a update_client_def requireCaller_def throw_run)
  let ?body = "\<lambda>client. bindA (lift (assertNotReserved client)) (\<lambda>_.
     bindA (lift (assertRoleConstraints (case uod_roles dto of None \<Rightarrow> oc_roles client | Some r \<Rightarrow> r)
       (case uod_grantTypes dto of None \<Rightarrow> oc_grantTypes client | Some g \<Rightarrow> g) a (uod_roles dto \<noteq> None) (oc_roles client))) (\<lambda>_.
     bindA (lift (case uod_scopes dto of None \<Rightarrow> Inr () | Some scopes \<Rightarrow> assertAssignableScopes cfg scopes a)) (\<lambda>_.
     oc_save (apply_client_dto dto client))))"
  have "bindA (requireTenantClient True T i) ?body s = (r, s')"
    using run by (simp add: update_client_def requireCaller_def a g Let_def del: not_None_eq)
  from on_tenant_client [OF this False] obtain c where c: "oc_findByTenantAndClientId T i s = Some c" and run: "?body c s = (r, s')"
    by blast
  define roles where "roles = (case uod_roles dto of None \<Rightarrow> oc_roles c | Some x \<Rightarrow> x)"
  define grants where "grants = (case uod_grantTypes dto of None \<Rightarrow> oc_grantTypes c | Some x \<Rightarrow> x)"
  let ?scopes = "case uod_scopes dto of None \<Rightarrow> Inr () | Some scopes \<Rightarrow> assertAssignableScopes cfg scopes a"
  from run False have ok: "assertNotReserved c = Inr ()"
      "assertRoleConstraints roles grants a (uod_roles dto \<noteq> None) (oc_roles c) = Inr ()" "?scopes = Inr ()"
    by (cases "assertNotReserved c"; cases "assertRoleConstraints roles grants a (uod_roles dto \<noteq> None) (oc_roles c)"; cases ?scopes;
        simp add: throw_run roles_def [symmetric] grants_def [symmetric] del: not_None_eq)+
  have "hasPlatformRole roles \<noteq> hasPlatformRole (oc_roles c) \<longrightarrow> admin_among K"
    using ok(2) K [OF a] by (cases "uod_roles dto") (auto simp: assertRoleConstraints_Inr roles_def admin_among_def)
  moreover have "\<forall>x \<in> set (oc_scopes (apply_client_dto dto c)). x \<in> set (oc_scopes c) \<or> assignable cfg K x"
    using ok(3) K [OF a] by (auto simp: apply_client_dto_def assertAssignableScopes_Inr split: option.splits intro: assignable_mono [of cfg "{a}"])
  ultimately have "client_rel cfg K c (apply_client_dto dto c)"
    using ok(1,2) by (simp add: client_rel_def apply_client_dto_def machine_roles_def tag_ok_def assertNotReserved_Inr
        assertRoleConstraints_Inr roles_def [symmetric] grants_def [symmetric])
  moreover have "oc_save (apply_client_dto dto c) s = (r, s')"
    using run by (simp add: ok roles_def [symmetric] grants_def [symmetric] del: not_None_eq)
  ultimately show ?thesis by (rule client_save_step [OF c])
qed

lemma on_client_cases:
  assumes run: "bindA (requireTenantClient active T i) (\<lambda>c. bindA (lift (assertNotReserved c)) (f c)) s = (r, s')" and s: "s' \<noteq> s"
  obtains c where "oc_findByTenantAndClientId T i s = Some c" "oc_clientId c \<notin> set RESERVED_OAUTH_CLIENT_IDS" "f c () s = (r, s')"
proof -
  from on_tenant_client [OF run s] obtain c where c: "oc_findByTenantAndClientId T i s = Some c"
    and f: "bindA (lift (assertNotReserved c)) (f c) s = (r, s')" by blast
  from f s have "oc_clientId c \<notin> set RESERVED_OAUTH_CLIENT_IDS" by (auto simp: assertNotReserved_def throw_run)
  with c f that show ?thesis by (simp add: assertNotReserved_def)
qed

lemma revokeClient_step:
  assumes "revokeClient E T i s = (r, s')"
  shows "client_step cfg K s s'"
proof (cases "s' = s")
  case False
  from on_client_cases [OF assms [unfolded revokeClient_def] False] obtain c where
    c: "oc_findByTenantAndClientId T i s = Some c" "oc_clientId c \<notin> set RESERVED_OAUTH_CLIENT_IDS"
      "(if oc_revokedAt c \<noteq> None then ret () else oc_revoke E (oc_id c)) s = (r, s')" by metis
  with False have upd: "oauth_clients s' = update_where (\<lambda>x. oc_id x = oc_id c)
      (\<lambda>c. c\<lparr>oc_revokedAt := Some (of_js (js_now E)), oc_revokedReason := None\<rparr>) (oauth_clients s)"
    by (auto simp: oc_revoke_def modifies_def ret_def split: if_splits)
  show ?thesis
    by (rule clients.keyed_update [OF upd]) (simp add: client_rel_def machine_roles_def tag_ok_def settings_def)
qed (simp add: clients.keyed_same)

lemma rotateSecret_step:
  assumes "rotateSecret D T i s = (r, s')"
  shows "client_step cfg K s s'"
proof (cases "s' = s")
  case False
  from on_client_cases [OF assms [unfolded rotateSecret_def] False] obtain c where
    c: "oc_findByTenantAndClientId T i s = Some c" "oc_clientId c \<notin> set RESERVED_OAUTH_CLIENT_IDS"
    and body: "bindA (require (\<not> oc_isPublic c) (BadRequestException ''Public clients do not have a client secret.''))
      (\<lambda>_. bindA (oc_save (c\<lparr>oc_clientSecretHash := Some (rnd_hash D (rnd_secret D))\<rparr>)) (\<lambda>updated. ret (updated, rnd_secret D))) s = (r, s')"
    by metis
  let ?row = "c\<lparr>oc_clientSecretHash := Some (rnd_hash D (rnd_secret D))\<rparr>"
  from body False have "\<not> oc_isPublic c" by (auto simp: require_def throw_run)
  with body have "s' = snd (oc_save ?row s)" using bindA_ret_snd [of "oc_save ?row" "\<lambda>x. (x, rnd_secret D)" s] by (simp add: require_def)
  moreover have "client_rel cfg K c ?row" using c(2) by (simp add: client_rel_def machine_roles_def tag_ok_def)
  ultimately show ?thesis using client_save_step [OF c(1)] by (metis prod.collapse)
qed (simp add: clients.keyed_same)

lemma reactivateClient_step:
  assumes "reactivateClient T i s = (r, s')"
  shows "client_step cfg K s s'"
proof (cases "s' = s")
  case False
  from on_client_cases [OF assms [unfolded reactivateClient_def] False] obtain c where
    c: "oc_findByTenantAndClientId T i s = Some c" "oc_clientId c \<notin> set RESERVED_OAUTH_CLIENT_IDS"
      "oc_save (c\<lparr>oc_revokedAt := None, oc_revokedReason := None\<rparr>) s = (r, s')" by metis
  show ?thesis
    by (rule client_save_step [OF c(1) _ c(3)]) (use c(2) in \<open>simp add: client_rel_def machine_roles_def tag_ok_def\<close>)
qed (simp add: clients.keyed_same)

lemma cascade_steps:
  "oc_revokeAllForTenant E T s = (r, s') \<Longrightarrow> client_step cfg K s s'"
  "oc_restoreAllForTenant T s = (r, s') \<Longrightarrow> client_step cfg K s s'"
  by (auto simp: oc_revokeAllForTenant_def oc_restoreAllForTenant_def Let_def bindA_def modifies_def ret_def
      client_rel_def machine_roles_def tag_ok_def settings_def intro!: clients.keyed_update)

section \<open>Histories\<close>

datatype client_call =
    CreateClient drawn uuid uuid CreateOAuthClientDto "AuthContext option"
  | UpdateClient uuid string UpdateOAuthClientDto "AuthContext option"
  | RevokeClient uuid string
  | RotateSecret drawn uuid string
  | ReactivateClient uuid string
  | RevokeTenant uuid
  | RestoreTenant uuid

fun call_effect :: "env \<Rightarrow> OidcConfig \<Rightarrow> client_call \<Rightarrow> db \<Rightarrow> db" where
  "call_effect E cfg (CreateClient D newId T dto auth) s = snd (createClient E cfg D newId T dto auth s)"
| "call_effect E cfg (UpdateClient T i dto auth) s = snd (update_client cfg T i dto auth s)"
| "call_effect E cfg (RevokeClient T i) s = snd (revokeClient E T i s)"
| "call_effect E cfg (RotateSecret D T i) s = snd (rotateSecret D T i s)"
| "call_effect E cfg (ReactivateClient T i) s = snd (reactivateClient T i s)"
| "call_effect E cfg (RevokeTenant T) s = snd (oc_revokeAllForTenant E T s)"
| "call_effect E cfg (RestoreTenant T) s = snd (oc_restoreAllForTenant T s)"

fun call_caller :: "client_call \<Rightarrow> AuthContext option" where
  "call_caller (CreateClient D newId T dto auth) = auth"
| "call_caller (UpdateClient T i dto auth) = auth"
| "call_caller _ = None"

inductive client_history :: "OidcConfig \<Rightarrow> AuthContext set \<Rightarrow> db \<Rightarrow> db \<Rightarrow> bool" for cfg K where
  no_call: "client_history cfg K s s"
| called: "client_history cfg K s t \<Longrightarrow> set_option (call_caller call) \<subseteq> K \<Longrightarrow> client_history cfg K s (call_effect E cfg call t)"

lemma call_effect_step:
  assumes "set_option (call_caller call) \<subseteq> K"
  shows "client_step cfg K s (call_effect E cfg call s)"
proof (cases call)
  case (CreateClient D newId T dto auth)
  with assms show ?thesis by (auto intro!: createClient_step [OF prod.collapse [symmetric]])
next
  case (UpdateClient T i dto auth)
  with assms show ?thesis by (auto intro!: update_client_step [OF prod.collapse [symmetric]])
qed (auto intro: revokeClient_step [OF prod.collapse [symmetric]] rotateSecret_step [OF prod.collapse [symmetric]]
     reactivateClient_step [OF prod.collapse [symmetric]] cascade_steps [OF prod.collapse [symmetric]])

lemma client_history_step: "client_history cfg K s s' \<Longrightarrow> client_step cfg K s s'"
proof (induction rule: client_history.induct)
  case (called s t call E)
  then show ?case using call_effect_step clients.keyed.step_trans by blast
qed (simp add: clients.keyed_same)

text \<open>
  C7 No call escalates a client. Take any history of the client API and of the tenant cascade, whatever
  the order of the calls. A client found at the end either existed before, under the same tenant, or is
  new. A scope it gained is assignable, enabled and held by a caller of the history; its platform role
  changed only if a platform administrator was among the callers; a system client has the settings it
  had; and if roles were confined to machine clients at the start they still are.
\<close>

theorem no_client_escalation:
  assumes "client_history cfg K s s'" and "key_table oc_id (oauth_clients s)" and "c' \<in> set (oauth_clients s')"
  shows "(\<exists>c \<in> set (oauth_clients s). oc_id c = oc_id c' \<and> oc_tenantId c = oc_tenantId c'
       \<and> (hasPlatformRole (oc_roles c') \<noteq> hasPlatformRole (oc_roles c) \<longrightarrow> admin_among K)
       \<and> (\<forall>x \<in> set (oc_scopes c'). x \<in> set (oc_scopes c) \<or> assignable cfg K x)
       \<and> (oc_clientId c \<in> set RESERVED_OAUTH_CLIENT_IDS \<longrightarrow> settings c' = settings c)
       \<and> (machine_roles c \<longrightarrow> machine_roles c'))
     \<or> (hasPlatformRole (oc_roles c') \<longrightarrow> admin_among K) \<and> (\<forall>x \<in> set (oc_scopes c'). assignable cfg K x) \<and> machine_roles c'"
proof -
  from client_history_step [OF assms(1)] assms(2)
  have "rows_step (client_rel cfg K) (client_fresh cfg K) oauth_clients s s'" by (simp add: keyed_step_def)
  from rows_step_origin [OF this assms(3)] show ?thesis unfolding client_rel_def client_fresh_def by metis
qed

definition sample_client :: "string \<Rightarrow> string list \<Rightarrow> oauth_client" where
  "sample_client i roles =
     \<lparr>oc_id = i, oc_tenantId = ''t1'', oc_clientId = i, oc_clientSecretHash = Some ''h'', oc_isPublic = False, oc_name = i,
      oc_scopes = [''logs:read''], oc_roles = roles, oc_redirectUris = [], oc_postLogoutRedirectUris = [],
      oc_grantTypes = [MACHINE_GRANT_TYPE], oc_createdBy = None, oc_createdAt = 1, oc_refreshTokenTtlSeconds = None,
      oc_revokedAt = None, oc_revokedReason = None\<rparr>"

definition clients_db :: db where
  "clients_db = empty_db\<lparr>oauth_clients := [sample_client ''dtcs_a'' [], sample_client ''dtcs_b'' [PLATFORM_ADMIN_ROLE]]\<rparr>"

definition sample_drawn :: drawn where
  "sample_drawn = \<lparr>rnd_secret = ''s3cret'', rnd_clientId = ''00ff'', rnd_hash = (\<lambda>x. CHR ''#'' # x)\<rparr>"

definition sample_cfg :: OidcConfig where
  "sample_cfg = \<lparr>cfg_grantTypes = [MACHINE_GRANT_TYPE], cfg_scopes = OIDC_SCOPE_ALLOWLIST\<rparr>"

definition clients_manager :: AuthContext where
  "clients_manager = \<lparr>auth_sub = ''u1'', auth_externalUserId = None, auth_tokenType = UserToken, auth_clientId = None,
     auth_tenantId = Some ''t1'', auth_roles = [''admin''], auth_scope = ''clients:manage'', auth_scopes = [''clients:manage'', ''audit:read''],
     auth_jti = None\<rparr>"

definition rescope :: "string list \<Rightarrow> UpdateOAuthClientDto" where
  "rescope scopes = \<lparr>uod_name = None, uod_scopes = Some scopes, uod_roles = None, uod_redirectUris = None,
     uod_grantTypes = None, uod_refreshTokenTtlSeconds = None\<rparr>"

theorem no_client_escalation_witness:
  "let s' = call_effect sample_env sample_cfg (UpdateClient ''t1'' ''dtcs_a'' (rescope [''audit:read'']) (Some clients_manager)) clients_db;
       c' = hd (oauth_clients s')
   in oc_scopes c' = [''audit:read''] \<and> assignable sample_cfg {clients_manager} ''audit:read'' \<and> machine_roles c'"
proof -
  let ?call = "UpdateClient ''t1'' ''dtcs_a'' (rescope [''audit:read'']) (Some clients_manager)"
  let ?s = "call_effect sample_env sample_cfg ?call clients_db"
  have "client_history sample_cfg {clients_manager} clients_db ?s"
    by (rule client_history.called [OF client_history.no_call]) simp
  moreover have "key_table oc_id (oauth_clients clients_db)" by code_simp
  moreover have "hd (oauth_clients ?s) \<in> set (oauth_clients ?s)" by code_simp
  ultimately have c: "(\<exists>c \<in> set (oauth_clients clients_db). oc_id c = oc_id (hd (oauth_clients ?s)) \<and> (machine_roles c \<longrightarrow> machine_roles (hd (oauth_clients ?s)))
      \<and> (\<forall>x \<in> set (oc_scopes (hd (oauth_clients ?s))). x \<in> set (oc_scopes c) \<or> assignable sample_cfg {clients_manager} x))
    \<or> (\<forall>x \<in> set (oc_scopes (hd (oauth_clients ?s))). assignable sample_cfg {clients_manager} x) \<and> machine_roles (hd (oauth_clients ?s))"
    using no_client_escalation by blast
  have new: "oc_scopes (hd (oauth_clients ?s)) = [''audit:read'']" by code_simp
  have old: "\<forall>c \<in> set (oauth_clients clients_db). machine_roles c \<and> ''audit:read'' \<notin> set (oc_scopes c)"
    unfolding machine_roles_def by code_simp
  from c new old show ?thesis unfolding Let_def by (auto simp only: list.set insert_iff)
qed

section \<open>Secrets\<close>

text \<open>The constraints of the table hold of every stored state.\<close>

definition clients_ok :: "oauth_client list \<Rightarrow> bool" where
  "clients_ok t \<longleftrightarrow> key_table oc_id t \<and> index_ok (\<lambda>_. True) oc_clientId t \<and> list_all secret_matches_kind t \<and> list_all ttl_positive t"

lemma save_client:
  assumes ok: "clients_ok (oauth_clients s)" and c: "c \<in> set (oauth_clients s)"
    and row: "oc_id row = oc_id c" "oc_clientId row = oc_clientId c" "secret_matches_kind row" "ttl_positive row"
  shows "oc_save row s = (Inr row, s\<lparr>oauth_clients := save_row oc_id row (oauth_clients s)\<rparr>)"
    and "clients_ok (save_row oc_id row (oauth_clients s))"
    and "List.find (\<lambda>x. oc_clientId x = oc_clientId c) (save_row oc_id row (oauth_clients s)) = Some row"
    and "oc_tenantId row = oc_tenantId c \<Longrightarrow>
      List.find (\<lambda>x. oc_tenantId x = oc_tenantId c \<and> oc_clientId x = oc_clientId c) (save_row oc_id row (oauth_clients s)) = Some row"
proof -
  let ?t = "oauth_clients s" and ?t' = "save_row oc_id row (oauth_clients s)"
  have t': "?t' = map (\<lambda>r. if oc_id r = oc_id row then row else r) ?t" using c row(1) by (auto simp: save_row_def)
  have u: "x = c" if "x \<in> set ?t" "oc_id x = oc_id row" for x
    using key_table_unique [of oc_id ?t x c] ok c row(1) that by (simp add: clients_ok_def)
  have keys: "map oc_clientId ?t' = map oc_clientId ?t" unfolding t' using u row(2) by (auto simp: map_eq_conv)
  have chk: "list_all secret_matches_kind ?t'" "list_all ttl_positive ?t'"
    using ok row(3,4) by (auto simp: t' clients_ok_def list_all_iff)
  have idx: "index_ok (\<lambda>_. True) oc_clientId ?t'" using ok keys by (simp add: clients_ok_def index_ok_def)
  show "oc_save row s = (Inr row, s\<lparr>oauth_clients := ?t'\<rparr>)"
    using chk idx by (simp add: oc_save_def put_oauth_clients_def bindA_def modifies_def ret_def)
  show "clients_ok ?t'" using chk idx ok by (simp add: clients_ok_def key_table_save_row)
  have row_in: "row \<in> set ?t'" using c row(1) by (auto simp: t')
  have "inj_on oc_clientId (set ?t')" using idx by (simp add: index_ok_def distinct_map)
  then have uniq: "x = row" if "x \<in> set ?t'" "oc_clientId x = oc_clientId c" for x
    using row_in that row(2) by (simp add: inj_on_def)
  show "List.find (\<lambda>x. oc_clientId x = oc_clientId c) ?t' = Some row"
    using row(2) uniq by (intro find_unique [OF row_in]) simp_all
  assume "oc_tenantId row = oc_tenantId c"
  then show "List.find (\<lambda>x. oc_tenantId x = oc_tenantId c \<and> oc_clientId x = oc_clientId c) ?t' = Some row"
    using row(2) uniq by (intro find_unique [OF row_in]) simp_all
qed

text \<open>A state in which the client \<open>c\<close> is stored and is the one its identifier names.\<close>

definition named_client :: "oauth_client \<Rightarrow> db \<Rightarrow> bool" where
  "named_client c s \<longleftrightarrow> clients_ok (oauth_clients s) \<and> oc_findByClientId (oc_clientId c) s = Some c
     \<and> oc_findByTenantAndClientId (oc_tenantId c) (oc_clientId c) s = Some c"

lemma named_client_save:
  assumes "named_client c s" and "oc_id row = oc_id c" "oc_clientId row = oc_clientId c" "oc_tenantId row = oc_tenantId c"
    and "secret_matches_kind row" "ttl_positive row"
  shows "oc_save row s = (Inr row, s\<lparr>oauth_clients := save_row oc_id row (oauth_clients s)\<rparr>)"
    and "named_client row (s\<lparr>oauth_clients := save_row oc_id row (oauth_clients s)\<rparr>)"
proof -
  have ok: "clients_ok (oauth_clients s)" and c: "c \<in> set (oauth_clients s)"
    using assms(1) found_client by (auto simp: named_client_def)
  note save = save_client [OF ok c assms(2,3,5,6)]
  show "oc_save row s = (Inr row, s\<lparr>oauth_clients := save_row oc_id row (oauth_clients s)\<rparr>)" by (rule save(1))
  show "named_client row (s\<lparr>oauth_clients := save_row oc_id row (oauth_clients s)\<rparr>)"
    using save(2,3) save(4) [OF assms(4)] assms(3,4)
    by (simp add: named_client_def oc_findByClientId_def oc_findByTenantAndClientId_def)
qed

lemma named_client_member:
  assumes "named_client c s"
  shows "c \<in> set (oauth_clients s) \<and> secret_matches_kind c \<and> ttl_positive c"
  using assms found_client [of _ _ s c] by (auto simp: named_client_def clients_ok_def list_all_iff)

lemma verify_named:
  assumes "named_client c s"
  shows "verifyClientSecret verify (oc_clientId c) p s =
    (Inr (oc_revokedAt c = None \<and> (case oc_clientSecretHash c of None \<Rightarrow> False | Some h \<Rightarrow> h \<noteq> '''' \<and> verify h p)), s)"
  using assms by (auto simp: named_client_def verifyClientSecret_def client_findByClientId_def bindA_def reads_def found_def ret_def
      split: option.split)

lemma active_named:
  assumes "named_client c s"
  shows "fst (findActiveClient (oc_clientId c) s) = Inr None \<longleftrightarrow> oc_revokedAt c \<noteq> None"
    and "fst (findActiveClient (oc_clientId c) s) = Inr (Some r) \<Longrightarrow> ocr_roles r = oc_roles c \<and> ocr_tenantId r = oc_tenantId c"
  using assms by (auto simp: named_client_def findActiveClient_def client_findByClientId_def bindA_def catchA_def reads_def found_def ret_def
      split: if_splits)

lemma on_named:
  assumes "named_client c s" and "oc_clientId c \<notin> set RESERVED_OAUTH_CLIENT_IDS" and "active \<longrightarrow> oc_revokedAt c = None"
  shows "bindA (requireTenantClient active (oc_tenantId c) (oc_clientId c)) (\<lambda>c. bindA (lift (assertNotReserved c)) (f c)) s = f c () s"
proof -
  have "requireTenantClient active (oc_tenantId c) (oc_clientId c) s = (Inr c, s)"
    using assms by (auto simp: requireTenantClient_Inr named_client_def)
  moreover have "assertNotReserved c = Inr ()" using assms(2) by (simp add: assertNotReserved_def)
  ultimately show ?thesis by (simp add: bindA_def [of "requireTenantClient x y z" for x y z])
qed

lemma revoke_named:
  fixes E :: env
  assumes c: "named_client c s" "oc_clientId c \<notin> set RESERVED_OAUTH_CLIENT_IDS" "oc_revokedAt c = None"
  defines "row \<equiv> c\<lparr>oc_revokedAt := Some (of_js (js_now E)), oc_revokedReason := None\<rparr>"
  shows "\<exists>s'. revokeClient E (oc_tenantId c) (oc_clientId c) s = (Inr (), s') \<and> named_client row s'"
proof -
  let ?f = "\<lambda>c. c\<lparr>oc_revokedAt := Some (of_js (js_now E)), oc_revokedReason := None\<rparr>"
  let ?s = "s\<lparr>oauth_clients := save_row oc_id row (oauth_clients s)\<rparr>"
  have m: "c \<in> set (oauth_clients s)" "secret_matches_kind row" "ttl_positive row"
    using named_client_member [OF c(1)] by (simp_all add: row_def secret_matches_kind_def ttl_positive_def)
  have "update_where (\<lambda>x. oc_id x = oc_id c) ?f (oauth_clients s) = save_row oc_id row (oauth_clients s)"
    using overwrite_is_update [where f = ?f, OF _ m(1), of oc_id] c(1) by (auto simp: row_def named_client_def clients_ok_def)
  then have "revokeClient E (oc_tenantId c) (oc_clientId c) s = (Inr (), ?s)"
    unfolding revokeClient_def on_named [OF c(1,2), where active = False, simplified]
    using c(3) by (simp add: oc_revoke_def modifies_def)
  moreover have "named_client row ?s" using named_client_save(2) [OF c(1) _ _ _ m(2,3)] by (simp add: row_def)
  ultimately show ?thesis by blast
qed

lemma reactivate_named:
  assumes c: "named_client c s" "oc_clientId c \<notin> set RESERVED_OAUTH_CLIENT_IDS"
  defines "row \<equiv> c\<lparr>oc_revokedAt := None, oc_revokedReason := None\<rparr>"
  shows "\<exists>s'. reactivateClient (oc_tenantId c) (oc_clientId c) s = (Inr row, s') \<and> named_client row s'"
proof -
  have "secret_matches_kind row" "ttl_positive row"
    using named_client_member [OF c(1)] by (simp_all add: row_def secret_matches_kind_def ttl_positive_def)
  from named_client_save [OF c(1) _ _ _ this] show ?thesis
    unfolding reactivateClient_def on_named [OF c, where active = False, simplified] by (simp add: row_def)
qed

lemma rotate_named:
  fixes D :: drawn
  assumes c: "named_client c s" "oc_clientId c \<notin> set RESERVED_OAUTH_CLIENT_IDS" "oc_revokedAt c = None" "\<not> oc_isPublic c"
  defines "row \<equiv> c\<lparr>oc_clientSecretHash := Some (rnd_hash D (rnd_secret D))\<rparr>"
  shows "\<exists>s'. rotateSecret D (oc_tenantId c) (oc_clientId c) s = (Inr (row, rnd_secret D), s') \<and> named_client row s'"
proof -
  have "secret_matches_kind row" "ttl_positive row"
    using named_client_member [OF c(1)] c(4) by (simp_all add: row_def secret_matches_kind_def ttl_positive_def)
  from named_client_save [OF c(1) _ _ _ this] show ?thesis
    unfolding rotateSecret_def on_named [OF c(1,2), where active = True, simplified c(3), simplified]
    using c(4) by (simp add: row_def require_def) (simp add: bindA_def ret_def)
qed


text \<open>
  The caller of a rotation is not looked at. For a client that carries the platform role, in any tenant,
  the operation hands out a secret under which the identity provider serves that role, although only a
  platform administrator may assign the role.
\<close>

theorem rotation_hands_out_platform_role:
  assumes c: "named_client c s" "oc_clientId c \<notin> set RESERVED_OAUTH_CLIENT_IDS" "oc_revokedAt c = None" "\<not> oc_isPublic c"
    and role: "hasPlatformRole (oc_roles c)"
    and law: "verify (rnd_hash D (rnd_secret D)) (rnd_secret D)" "rnd_hash D (rnd_secret D) \<noteq> ''''"
  shows "\<exists>c1 s1 r. rotateSecret D (oc_tenantId c) (oc_clientId c) s = (Inr (c1, rnd_secret D), s1)
    \<and> fst (verifyClientSecret verify (oc_clientId c) (rnd_secret D) s1) = Inr True
    \<and> fst (findActiveClient (oc_clientId c) s1) = Inr (Some r) \<and> hasPlatformRole (ocr_roles r)"
proof -
  define c1 where "c1 = c\<lparr>oc_clientSecretHash := Some (rnd_hash D (rnd_secret D))\<rparr>"
  obtain s1 where s1: "rotateSecret D (oc_tenantId c) (oc_clientId c) s = (Inr (c1, rnd_secret D), s1)" "named_client c1 s1"
    using rotate_named [OF c] unfolding c1_def by blast
  have "fst (verifyClientSecret verify (oc_clientId c) (rnd_secret D) s1) = Inr True"
    using verify_named [OF s1(2), of verify] law c(3) by (simp add: c1_def)
  moreover obtain r where "fst (findActiveClient (oc_clientId c) s1) = Inr (Some r)" "ocr_roles r = oc_roles c"
    using s1(2) c(3) by (auto simp: named_client_def c1_def findActiveClient_def client_findByClientId_def bindA_def catchA_def reads_def
        found_def ret_def)
  ultimately show ?thesis using s1(1) role by auto
qed

lemma clients_db_named: "named_client (sample_client ''dtcs_b'' [PLATFORM_ADMIN_ROLE]) clients_db"
  unfolding named_client_def clients_ok_def index_ok_def by code_simp


theorem rotation_hands_out_platform_role_witness:
  "\<exists>c1 s1 r. rotateSecret sample_drawn ''t1'' ''dtcs_b'' clients_db = (Inr (c1, ''s3cret''), s1)
     \<and> fst (findActiveClient ''dtcs_b'' s1) = Inr (Some r) \<and> hasPlatformRole (ocr_roles r)"
proof -
  let ?c = "sample_client ''dtcs_b'' [PLATFORM_ADMIN_ROLE]"
  have "oc_clientId ?c \<notin> set RESERVED_OAUTH_CLIENT_IDS" "oc_revokedAt ?c = None" "\<not> oc_isPublic ?c" "hasPlatformRole (oc_roles ?c)"
    by (simp_all add: sample_client_def RESERVED_OAUTH_CLIENT_IDS_def hasPlatformRole_def OAUTH_CLIENT_PLATFORM_ROLES_def)
  from rotation_hands_out_platform_role [OF clients_db_named this, of "\<lambda>h p. h = CHR ''#'' # p" sample_drawn]
  show ?thesis by (auto simp: sample_drawn_def sample_client_def)
qed

end
