(* ===== verification/Encryption.thy ===== *)
theory Encryption
  imports Database "HOL-Library.Countable"
begin

text \<open>
  \<open>common/crypto/\<close> and \<open>common/agent-log-partition-key.ts\<close>: the key ring, sealing of JSON values with the
  current key, the blind index, and the keys under which an agent's log lines are stored. The cipher,
  the keyed hash and the text form of JSON are a parameter (\<open>crypto_lib\<close>); the random initialisation
  vector is an argument. A buffer is the list of its bytes.
\<close>

section \<open>Keys\<close>

record key_ring =
  kr_currentVersion :: nat
  kr_keys :: "(nat \<times> string) list"

definition getCurrentKey :: "key_ring \<Rightarrow> err + nat \<times> string" where
  "getCurrentKey R =
     (case map_of (kr_keys R) (kr_currentVersion R) of
        None \<Rightarrow> Inl (JsError (''Current encryption key version '' @ js_nat (kr_currentVersion R) @ '' is not available.''))
      | Some k \<Rightarrow> Inr (kr_currentVersion R, k))"

definition getKey :: "key_ring \<Rightarrow> nat \<Rightarrow> err + nat \<times> string" where
  "getKey R version =
     (case map_of (kr_keys R) version of
        None \<Rightarrow> Inl (JsError (''Encryption key version '' @ js_nat version @ '' is not configured.''))
      | Some k \<Rightarrow> Inr (version, k))"

text \<open>\<open>Buffer.from(value, 'hex')\<close> decodes pairs of digits up to the first that is not one; it does not throw.\<close>

definition hex_value :: "char \<Rightarrow> nat" where
  "hex_value c =
     (let n = of_char c :: nat in if n \<le> 57 then n - 48 else if n \<le> 70 then n - 55 else n - 87)"

fun from_hex :: "string \<Rightarrow> string" where
  "from_hex (a # b # rest) =
     (if hex_digit a \<and> hex_digit b then char_of (16 * hex_value a + hex_value b) # from_hex rest else [])"
| "from_hex _ = []"

definition decodeKey :: "string \<Rightarrow> nat \<Rightarrow> err + string" where
  "decodeKey value version =
     (let key = from_hex value
      in if length key \<noteq> 32
         then Inl (JsError (''Encryption key version '' @ js_nat version @ '' must be exactly 32 bytes (256 bits).''))
         else Inr key)"

text \<open>
  The parsed key file: the current version and its keys by version, in the order of the object. The
  file itself and the numeric reading of the property names are outside the model.
\<close>

record EncryptionKeyConfig =
  ekc_currentVersion :: nat
  ekc_keys :: "(nat \<times> string) list"

definition validateConfig :: "EncryptionKeyConfig \<Rightarrow> err + unit" where
  "validateConfig cfg =
     (if ekc_currentVersion cfg = 0 then Inl (JsError ''Encryption configuration requires a numeric currentVersion.'')
      else if ekc_keys cfg = [] then Inl (JsError ''Encryption configuration contains no keys.'')
      else Inr ())"

fun decode_keys :: "(nat \<times> string) list \<Rightarrow> err + (nat \<times> string) list" where
  "decode_keys [] = Inr []"
| "decode_keys ((version, encodedKey) # rest) =
     (case decodeKey encodedKey version of Inl e \<Rightarrow> Inl e
      | Inr key \<Rightarrow> (case decode_keys rest of Inl e \<Rightarrow> Inl e | Inr keys \<Rightarrow> Inr ((version, key) # keys)))"

definition loadKeys :: "EncryptionKeyConfig \<Rightarrow> err + key_ring" where
  "loadKeys cfg =
     (case validateConfig cfg of Inl e \<Rightarrow> Inl e
      | Inr _ \<Rightarrow>
        (case decode_keys (ekc_keys cfg) of Inl e \<Rightarrow> Inl e
         | Inr keys \<Rightarrow>
             if ekc_currentVersion cfg \<notin> fst ` set keys
             then Inl (JsError (''Current encryption key version '' @ js_nat (ekc_currentVersion cfg) @ '' is not defined.''))
             else Inr \<lparr>kr_currentVersion = ekc_currentVersion cfg, kr_keys = rev keys\<rparr>))"

section \<open>Sealing\<close>

text \<open>
  \<open>aes_seal key iv text\<close> is the ciphertext and the tag; \<open>aes_open key iv tag cipher\<close> throws when the tag
  does not fit.
\<close>

record crypto_lib =
  aes_seal :: "string \<Rightarrow> string \<Rightarrow> string \<Rightarrow> string \<times> string"
  aes_open :: "string \<Rightarrow> string \<Rightarrow> string \<Rightarrow> string \<Rightarrow> string option"
  hmac_hex :: "string \<Rightarrow> string \<Rightarrow> string"
  json_stringify :: "json \<Rightarrow> string"
  json_parse :: "string \<Rightarrow> json option"

definition IV_LENGTH :: nat where "IV_LENGTH = 12"
definition AUTH_TAG_LENGTH :: nat where "AUTH_TAG_LENGTH = 16"
definition BLIND_INDEX_KEY_VERSION :: nat where "BLIND_INDEX_KEY_VERSION = 1"

definition encrypt :: "crypto_lib \<Rightarrow> key_ring \<Rightarrow> string \<Rightarrow> json \<Rightarrow> err + string \<times> nat" where
  "encrypt L R iv value =
     (case getCurrentKey R of Inl e \<Rightarrow> Inl e
      | Inr (version, key) \<Rightarrow>
          let (encrypted, authTag) = aes_seal L key iv (json_stringify L value)
          in Inr (iv @ authTag @ encrypted, version))"

definition decryptWithKey :: "crypto_lib \<Rightarrow> string \<Rightarrow> string \<Rightarrow> err + json" where
  "decryptWithKey L ciphertext key =
     (if length ciphertext < IV_LENGTH + AUTH_TAG_LENGTH then Inl (JsError ''Invalid encrypted payload.'')
      else
        let iv = take IV_LENGTH ciphertext;
            authTag = take AUTH_TAG_LENGTH (drop IV_LENGTH ciphertext);
            encrypted = drop (IV_LENGTH + AUTH_TAG_LENGTH) ciphertext
        in case aes_open L key iv authTag encrypted of
             None \<Rightarrow> Inl (JsError ''Unsupported state or unable to authenticate data'')
           | Some text \<Rightarrow> (case json_parse L text of None \<Rightarrow> Inl (JsError ''SyntaxError'') | Some v \<Rightarrow> Inr v))"

definition decrypt :: "crypto_lib \<Rightarrow> key_ring \<Rightarrow> string \<Rightarrow> nat \<Rightarrow> err + json" where
  "decrypt L R ciphertext keyVersion =
     (case getKey R keyVersion of Inl e \<Rightarrow> Inl e | Inr (_, key) \<Rightarrow> decryptWithKey L ciphertext key)"

definition deriveBlindIndex :: "crypto_lib \<Rightarrow> key_ring \<Rightarrow> string \<Rightarrow> string \<Rightarrow> err + string" where
  "deriveBlindIndex L R domain value =
     (case getKey R BLIND_INDEX_KEY_VERSION of Inl e \<Rightarrow> Inl e
      | Inr (_, key) \<Rightarrow> Inr (hmac_hex L key (domain @ [CHR 0x00] @ value)))"

definition requiresRotation :: "key_ring \<Rightarrow> nat \<Rightarrow> err + bool" where
  "requiresRotation R keyVersion =
     (case getCurrentKey R of Inl e \<Rightarrow> Inl e | Inr (version, _) \<Rightarrow> Inr (keyVersion \<noteq> version))"

section \<open>Log partitions of an agent\<close>

definition AGENT_PARTITION_KEY_PREFIX :: string where
  "AGENT_PARTITION_KEY_PREFIX = ''a-''"

definition isValidAgentLogId :: "string \<Rightarrow> bool" where
  "isValidAgentLogId value \<longleftrightarrow> value \<noteq> [] \<and> length value \<le> 100
     \<and> list_all (\<lambda>c. CHR ''a'' \<le> c \<and> c \<le> CHR ''z'' \<or> js_digit c \<or> c = CHR ''-'') value"

fun connectorType_value :: "ConnectorType \<Rightarrow> string" where
  "connectorType_value Traction = ''traction''"
| "connectorType_value Credo = ''credo''"

definition formatAgentLogBindingKey :: "ConnectorType \<Rightarrow> string \<Rightarrow> err + string" where
  "formatAgentLogBindingKey type agentLogId =
     (if \<not> isValidAgentLogId agentLogId then Inl (JsError ''Agent log identifier is not Loki-safe.'')
      else Inr (connectorType_value type @ '':'' @ agentLogId))"

definition buildAgentPartitionKey :: "ConnectorType \<Rightarrow> string \<Rightarrow> err + string" where
  "buildAgentPartitionKey type agentLogId =
     (case formatAgentLogBindingKey type agentLogId of Inl e \<Rightarrow> Inl e
      | Inr _ \<Rightarrow> Inr (AGENT_PARTITION_KEY_PREFIX @ connectorType_value type @ ''-'' @ agentLogId))"

section \<open>Round trips\<close>

text \<open>What is documented of the cipher, for keys and vectors of the right length, and of the text form of JSON.\<close>

definition crypto_ok :: "crypto_lib \<Rightarrow> bool" where
  "crypto_ok L \<longleftrightarrow>
     (\<forall>key iv text. length key = 32 \<longrightarrow> length iv = IV_LENGTH \<longrightarrow>
        length (snd (aes_seal L key iv text)) = AUTH_TAG_LENGTH
        \<and> aes_open L key iv (snd (aes_seal L key iv text)) (fst (aes_seal L key iv text)) = Some text)
     \<and> (\<forall>v. json_parse L (json_stringify L v) = Some v)"

lemma decode_keys_length: "decode_keys ks = Inr keys \<Longrightarrow> (v, k) \<in> set keys \<Longrightarrow> length k = 32"
  by (induction ks arbitrary: keys rule: decode_keys.induct) (auto simp: decodeKey_def Let_def split: sum.splits if_splits)

lemma loadKeys_current:
  assumes "loadKeys cfg = Inr R"
  obtains key where "map_of (kr_keys R) (kr_currentVersion R) = Some key" "length key = 32"
proof -
  from assms obtain keys where keys: "decode_keys (ekc_keys cfg) = Inr keys" "kr_keys R = rev keys" "kr_currentVersion R \<in> fst ` set keys"
    by (force simp: loadKeys_def split: sum.splits if_splits)
  then obtain key where key: "map_of (kr_keys R) (kr_currentVersion R) = Some key"
    by (metis map_of_eq_None_iff not_None_eq set_rev)
  then have "(kr_currentVersion R, key) \<in> set keys" using keys(2) by (metis map_of_SomeD set_rev)
  with decode_keys_length [OF keys(1)] key that show ?thesis by blast
qed

lemma decrypt_sealed:
  assumes "crypto_ok L" and "length key = 32" and "length iv = IV_LENGTH"
  shows "decryptWithKey L (iv @ snd (aes_seal L key iv (json_stringify L v)) @ fst (aes_seal L key iv (json_stringify L v))) key = Inr v"
  using assms by (simp add: crypto_ok_def decryptWithKey_def Let_def)

text \<open>
  C10 A sealed value can be read back. With any key file that loads, sealing a JSON value succeeds under the current
  key, the value needs no rotation, and opening it gives it back. It still does under every later key
  file that keeps the key of that version, whatever its current version is, and such a file that keeps
  the first key gives every blind index it gave before.
\<close>

theorem sealed_value_readable:
  assumes lib: "crypto_ok L" and load: "loadKeys cfg = Inr R" and iv: "length iv = IV_LENGTH"
  shows "\<exists>ct ver. encrypt L R iv v = Inr (ct, ver) \<and> decrypt L R ct ver = Inr v \<and> requiresRotation R ver = Inr False
    \<and> (\<forall>R'. getKey R' ver = getKey R ver \<longrightarrow> decrypt L R' ct ver = Inr v)
    \<and> (\<forall>R' d x. getKey R' BLIND_INDEX_KEY_VERSION = getKey R BLIND_INDEX_KEY_VERSION \<longrightarrow>
          deriveBlindIndex L R' d x = deriveBlindIndex L R d x)"
proof -
  obtain key where key: "map_of (kr_keys R) (kr_currentVersion R) = Some key" "length key = 32" using loadKeys_current [OF load] .
  let ?ct = "iv @ snd (aes_seal L key iv (json_stringify L v)) @ fst (aes_seal L key iv (json_stringify L v))"
  have cur: "getCurrentKey R = Inr (kr_currentVersion R, key)" "getKey R (kr_currentVersion R) = Inr (kr_currentVersion R, key)"
    using key by (simp_all add: getCurrentKey_def getKey_def)
  have "encrypt L R iv v = Inr (?ct, kr_currentVersion R)" by (simp add: encrypt_def cur split: prod.split)
  moreover have "decrypt L R' ?ct (kr_currentVersion R) = Inr v" if "getKey R' (kr_currentVersion R) = getKey R (kr_currentVersion R)" for R'
    using that decrypt_sealed [OF lib key(2) iv] by (simp add: decrypt_def cur)
  moreover have "requiresRotation R (kr_currentVersion R) = Inr False" by (simp add: requiresRotation_def cur)
  ultimately show ?thesis by (auto simp: deriveBlindIndex_def)
qed

text \<open>A concrete library: text that counts, and a cipher that only adds its tag.\<close>

instance json :: countable
  by countable_datatype

definition sample_crypto :: crypto_lib where
  "sample_crypto = \<lparr>aes_seal = (\<lambda>k iv x. (x, replicate 16 (CHR ''t''))), aes_open = (\<lambda>k iv t c. if t = replicate 16 (CHR ''t'') then Some c else None),
     hmac_hex = (\<lambda>k x. x), json_stringify = (\<lambda>v. replicate (to_nat v) (CHR ''x'')), json_parse = (\<lambda>x. Some (from_nat (length x)))\<rparr>"

lemma sample_crypto_ok: "crypto_ok sample_crypto"
  by (simp add: crypto_ok_def sample_crypto_def AUTH_TAG_LENGTH_def)

definition sample_key_file :: EncryptionKeyConfig where
  "sample_key_file = \<lparr>ekc_currentVersion = 2,
     ekc_keys = [(1, concat (replicate 32 ''0f'')), (2, concat (replicate 32 ''Ab''))]\<rparr>"

theorem sealed_value_readable_witness:
  "case loadKeys sample_key_file of Inl _ \<Rightarrow> False
   | Inr R \<Rightarrow> \<exists>ct ver. encrypt sample_crypto R (replicate 12 (CHR ''i'')) (JStr ''key'') = Inr (ct, ver)
       \<and> decrypt sample_crypto R ct ver = Inr (JStr ''key'')"
proof -
  obtain R where R: "loadKeys sample_key_file = Inr R" by (cases "loadKeys sample_key_file") (simp, code_simp, blast)
  have iv: "length (replicate 12 (CHR ''i'')) = IV_LENGTH" by (simp add: IV_LENGTH_def)
  from sealed_value_readable [OF sample_crypto_ok R iv, of "JStr ''key''"] show ?thesis unfolding R by auto
qed

text \<open>
  The log keys of an agent identify it: two connectors with the same binding key or the same
  partition key are of the same type and have the same agent identifier, and neither key is ever built
  from an identifier with a character outside lower-case letters, digits and the dash.
\<close>

theorem agent_keys_injective:
  "(formatAgentLogBindingKey t a = Inr k \<and> formatAgentLogBindingKey t' a' = Inr k
      \<or> buildAgentPartitionKey t a = Inr k \<and> buildAgentPartitionKey t' a' = Inr k
    \<longrightarrow> t = t' \<and> a = a' \<and> isValidAgentLogId a)
   \<and> (isValidAgentLogId a \<longrightarrow> (\<exists>k b. formatAgentLogBindingKey t a = Inr k \<and> buildAgentPartitionKey t a = Inr b))"
  by (cases t; cases t') (auto simp: formatAgentLogBindingKey_def buildAgentPartitionKey_def split: if_splits)

theorem agent_keys_injective_witness:
  "\<exists>k. formatAgentLogBindingKey Traction ''wallet-1'' = Inr k \<and> buildAgentPartitionKey Traction ''wallet-1'' = Inr ''a-traction-wallet-1''"
proof -
  have "isValidAgentLogId ''wallet-1''" by code_simp
  with agent_keys_injective [of Traction "''wallet-1''"] obtain k where "formatAgentLogBindingKey Traction ''wallet-1'' = Inr k" by blast
  then show ?thesis by (auto simp: buildAgentPartitionKey_def AGENT_PARTITION_KEY_PREFIX_def)
qed

end
