(* ===== verification/Log_Partition.thy ===== *)
theory Log_Partition
  imports Encryption
begin

text \<open>
  \<open>log-access/agent-log-partition.cache.ts\<close> and \<open>log-access/log-partition-key.ts\<close>: the in-memory cache of
  the log partitions of a tenant's agents, and the partition keys that may reach the log store. A
  JavaScript \<open>Map\<close> is the list of its entries in insertion order.
\<close>

section \<open>Partition keys\<close>

definition lower_hex :: "char \<Rightarrow> bool" where
  "lower_hex c \<longleftrightarrow> js_digit c \<or> CHR ''a'' \<le> c \<and> c \<le> CHR ''f''"

definition isCanonicalTenantId :: "string \<Rightarrow> bool" where
  "isCanonicalTenantId v \<longleftrightarrow> length v = 36
     \<and> (\<forall>i < 36. if i \<in> {8, 13, 18, 23} then v ! i = CHR ''-'' else lower_hex (v ! i))"

definition key_char :: "char \<Rightarrow> bool" where
  "key_char c \<longleftrightarrow> CHR ''a'' \<le> c \<and> c \<le> CHR ''z'' \<or> js_digit c"

definition isSafePartitionKey :: "string \<Rightarrow> bool" where
  "isSafePartitionKey v \<longleftrightarrow> v \<noteq> [] \<and> length v \<le> 149 \<and> key_char (hd v)
     \<and> list_all (\<lambda>c. key_char c \<or> c = CHR ''-'') (tl v)"

definition deriveTenantPartitionKey :: "uuid \<Rightarrow> err + string" where
  "deriveTenantPartitionKey tenantId =
     (if \<not> isCanonicalTenantId tenantId then Inl (JsError ''tenant_id is not a canonical UUID'') else Inr (''t-'' @ tenantId))"

section \<open>The cache\<close>

definition AGENT_PARTITION_CACHE_TTL_MS :: int where
  "AGENT_PARTITION_CACHE_TTL_MS = 300000"

definition AGENT_PARTITION_CACHE_MAX_ENTRIES :: nat where
  "AGENT_PARTITION_CACHE_MAX_ENTRIES = 1000"

record AgentLogPartitionLookup =
  lk_generation :: nat
  lk_startedAt :: int

definition map_delete :: "'k \<Rightarrow> ('k \<times> 'v) list \<Rightarrow> ('k \<times> 'v) list" where
  "map_delete k m = filter (\<lambda>e. fst e \<noteq> k) m"

definition beginLookup :: "int \<Rightarrow> PartitionCache \<Rightarrow> AgentLogPartitionLookup" where
  "beginLookup now c = \<lparr>lk_generation = pc_generation c, lk_startedAt = now\<rparr>"

definition cache_get :: "int \<Rightarrow> uuid \<Rightarrow> PartitionCache \<Rightarrow> string list option \<times> PartitionCache" where
  "cache_get now tenantId c =
     (case map_of (pc_entries c) tenantId of
        None \<Rightarrow> (None, c)
      | Some (partitions, expiresAt) \<Rightarrow>
          if expiresAt \<le> now then (None, c\<lparr>pc_entries := map_delete tenantId (pc_entries c)\<rparr>) else (Some partitions, c))"

definition cache_set :: "int \<Rightarrow> uuid \<Rightarrow> string list \<Rightarrow> AgentLogPartitionLookup \<Rightarrow> PartitionCache \<Rightarrow> err + PartitionCache" where
  "cache_set now tenantId partitions lookup c =
     (let expiresAt = lk_startedAt lookup + AGENT_PARTITION_CACHE_TTL_MS in
      if expiresAt \<le> now then Inl (JsError ''Agent partition lookup exceeded the maximum staleness window.'')
      else if lk_generation lookup \<noteq> pc_generation c then Inr c
      else let others = map_delete tenantId (pc_entries c);
               kept = (if length others \<ge> AGENT_PARTITION_CACHE_MAX_ENTRIES then map_delete (fst (hd others)) others else others)
           in Inr (c\<lparr>pc_entries := kept @ [(tenantId, partitions, expiresAt)]\<rparr>))"

definition cache_invalidate :: "uuid \<Rightarrow> PartitionCache \<Rightarrow> PartitionCache" where
  "cache_invalidate tenantId c = c\<lparr>pc_generation := pc_generation c + 1, pc_entries := map_delete tenantId (pc_entries c)\<rparr>"

section \<open>Interleaved use\<close>

text \<open>
  What the handlers of one process do to the cache, one event at a time: a lookup begins, a lookup
  stores its result, a tenant is invalidated, a tenant is read, and time passes.
\<close>

datatype cache_event = Begin nat | Put nat uuid "string list" | Invalidate uuid | Get uuid | Tick nat

record cache_run =
  cr_cache :: PartitionCache
  cr_now :: int
  cr_lookups :: "nat \<Rightarrow> AgentLogPartitionLookup option"

fun cache_event_step :: "cache_event \<Rightarrow> cache_run \<Rightarrow> cache_run" where
  "cache_event_step (Begin i) r = r\<lparr>cr_lookups := (cr_lookups r)(i \<mapsto> beginLookup (cr_now r) (cr_cache r))\<rparr>"
| "cache_event_step (Put i T p) r =
     (case cr_lookups r i of None \<Rightarrow> r
      | Some lookup \<Rightarrow> (case cache_set (cr_now r) T p lookup (cr_cache r) of Inl _ \<Rightarrow> r | Inr c \<Rightarrow> r\<lparr>cr_cache := c\<rparr>))"
| "cache_event_step (Invalidate T) r = r\<lparr>cr_cache := cache_invalidate T (cr_cache r)\<rparr>"
| "cache_event_step (Get T) r = r\<lparr>cr_cache := snd (cache_get (cr_now r) T (cr_cache r))\<rparr>"
| "cache_event_step (Tick n) r = r\<lparr>cr_now := cr_now r + int n\<rparr>"

definition cache_start :: "int \<Rightarrow> cache_run" where
  "cache_start now = \<lparr>cr_cache = \<lparr>pc_entries = [], pc_generation = 0\<rparr>, cr_now = now, cr_lookups = (\<lambda>_. None)\<rparr>"

definition cache_events :: "int \<Rightarrow> cache_event list \<Rightarrow> cache_run" where
  "cache_events now evs = fold cache_event_step evs (cache_start now)"

definition invalidations :: "cache_event list \<Rightarrow> nat" where
  "invalidations evs = length (filter (\<lambda>e. case e of Invalidate _ \<Rightarrow> True | _ \<Rightarrow> False) evs)"

lemma cache_events_snoc [simp]: "cache_events now (evs @ [e]) = cache_event_step e (cache_events now evs)"
  by (simp add: cache_events_def)

lemma invalidations_append [simp]: "invalidations (a @ b) = invalidations a + invalidations b"
  by (simp add: invalidations_def)

lemma invalidations_simps [simp]: "invalidations [] = 0"
  "invalidations (e # es) = (case e of Invalidate _ \<Rightarrow> 1 | _ \<Rightarrow> 0) + invalidations es"
  by (simp_all add: invalidations_def split: cache_event.split)

lemma generation_counts: "pc_generation (cr_cache (cache_events now evs)) = invalidations evs"
proof (induction evs rule: rev_induct)
  case Nil
  then show ?case by (simp add: cache_events_def cache_start_def)
next
  case (snoc e evs)
  then show ?case
    by (cases e) (auto simp: cache_set_def cache_get_def cache_invalidate_def Let_def split: option.split sum.split prod.split)
qed

text \<open>A lookup in progress knows how many invalidations it has seen and when it began.\<close>

lemma lookup_origin:
  "cr_lookups (cache_events now evs) i = Some lk \<Longrightarrow>
   \<exists>a b. evs = a @ Begin i # b \<and> lk_generation lk = invalidations a \<and> lk_startedAt lk = cr_now (cache_events now a)"
proof (induction evs rule: rev_induct)
  case Nil
  then show ?case by (simp add: cache_events_def cache_start_def)
next
  case (snoc e evs)
  show ?case
  proof (cases "e = Begin i")
    case True
    with snoc.prems show ?thesis
      by (intro exI [of _ evs] exI [of _ "[]"]) (auto simp: beginLookup_def generation_counts)
  next
    case False
    with snoc.prems have "cr_lookups (cache_events now evs) i = Some lk"
      by (cases e) (auto split: option.splits sum.splits if_splits)
    with snoc.IH obtain a b where "evs = a @ Begin i # b" "lk_generation lk = invalidations a" "lk_startedAt lk = cr_now (cache_events now a)" by blast
    then show ?thesis by (intro exI [of _ a] exI [of _ "b @ [e]"]) simp
  qed
qed

text \<open>The events that explain an entry: a lookup, no invalidation until it stored its result, and none of its tenant since.\<close>

definition looked_up :: "int \<Rightarrow> cache_event list \<Rightarrow> uuid \<Rightarrow> string list \<Rightarrow> int \<Rightarrow> bool" where
  "looked_up now evs T p began \<longleftrightarrow> (\<exists>a i b c. evs = a @ Begin i # b @ Put i T p # c
     \<and> invalidations b = 0 \<and> Invalidate T \<notin> set c \<and> began = cr_now (cache_events now a))"

lemma looked_up_snoc: "looked_up now evs T p began \<Longrightarrow> e \<noteq> Invalidate T \<Longrightarrow> looked_up now (evs @ [e]) T p began"
proof -
  assume "looked_up now evs T p began" and e: "e \<noteq> Invalidate T"
  then obtain a i b c where "evs = a @ Begin i # b @ Put i T p # c" "invalidations b = 0" "Invalidate T \<notin> set c"
      "began = cr_now (cache_events now a)" by (auto simp: looked_up_def)
  with e show ?thesis unfolding looked_up_def by (intro exI [of _ a] exI [of _ i] exI [of _ b] exI [of _ "c @ [e]"]) simp
qed

lemma set_map_delete: "e \<in> set (map_delete k m) \<longleftrightarrow> e \<in> set m \<and> fst e \<noteq> k"
  by (auto simp: map_delete_def)

lemma entry_origin:
  "(T, p, expiresAt) \<in> set (pc_entries (cr_cache (cache_events now evs))) \<Longrightarrow>
   looked_up now evs T p (expiresAt - AGENT_PARTITION_CACHE_TTL_MS)"
proof (induction evs rule: rev_induct)
  case Nil
  then show ?case by (simp add: cache_events_def cache_start_def)
next
  case (snoc e evs)
  let ?r = "cache_events now evs"
  show ?case
  proof (cases "(T, p, expiresAt) \<in> set (pc_entries (cr_cache ?r))")
    case True
    then have "e \<noteq> Invalidate T" using snoc.prems by (auto simp: cache_invalidate_def set_map_delete)
    with looked_up_snoc [OF snoc.IH [OF True]] show ?thesis by simp
  next
    case False
    then obtain i lk where e: "e = Put i T p" and lk: "cr_lookups ?r i = Some lk" "lk_generation lk = pc_generation (cr_cache ?r)"
        "expiresAt = lk_startedAt lk + AGENT_PARTITION_CACHE_TTL_MS"
      using snoc.prems
      by (cases e) (auto simp: cache_invalidate_def cache_get_def cache_set_def set_map_delete Let_def
          split: option.splits sum.splits prod.splits if_splits)
    from lookup_origin [OF lk(1)] obtain a b where ab: "evs = a @ Begin i # b" "lk_generation lk = invalidations a"
      "lk_startedAt lk = cr_now (cache_events now a)" by blast
    then have "invalidations b = 0" using lk(2) generation_counts [of now evs] by simp
    then show ?thesis unfolding looked_up_def
      using ab e lk(3) by (intro exI [of _ a] exI [of _ i] exI [of _ b] exI [of _ "[]"]) simp
  qed
qed

lemma cache_bounded:
  "length (pc_entries (cr_cache (cache_events now evs))) \<le> AGENT_PARTITION_CACHE_MAX_ENTRIES
   \<and> distinct (map fst (pc_entries (cr_cache (cache_events now evs))))"
proof (induction evs rule: rev_induct)
  case Nil
  then show ?case by (simp add: cache_events_def cache_start_def)
next
  case (snoc e evs)
  let ?c = "cr_cache (cache_events now evs)"
  have del: "length (map_delete k m) \<le> length m" "distinct (map fst m) \<Longrightarrow> distinct (map fst (map_delete k m))" for k and m :: "(uuid \<times> string list \<times> int) list"
    by (simp_all add: map_delete_def distinct_map_filter)
  show ?case
  proof (cases e)
    case (Put i T p)
    let ?o = "map_delete T (pc_entries ?c)"
    let ?k = "if length ?o \<ge> AGENT_PARTITION_CACHE_MAX_ENTRIES then map_delete (fst (hd ?o)) ?o else ?o"
    have "length ?k < AGENT_PARTITION_CACHE_MAX_ENTRIES"
    proof (cases "length ?o \<ge> AGENT_PARTITION_CACHE_MAX_ENTRIES")
      case True
      then obtain x xs where o: "?o = x # xs" by (cases ?o) (auto simp: AGENT_PARTITION_CACHE_MAX_ENTRIES_def)
      have "length ?o \<le> AGENT_PARTITION_CACHE_MAX_ENTRIES" using snoc del(1) [of T "pc_entries ?c"] by linarith
      moreover have "length (map_delete (fst (hd ?o)) ?o) < length ?o"
        unfolding o by (simp add: map_delete_def [of "fst x"] le_imp_less_Suc)
      ultimately show ?thesis using True by simp
    qed simp
    moreover have "distinct (map fst ?k)" "T \<notin> fst ` set ?k" using snoc del(2) by (auto simp: set_map_delete)
    ultimately show ?thesis
      using snoc Put by (auto simp: cache_set_def Let_def split: option.split sum.split)
  qed (use snoc del in \<open>auto simp: cache_get_def cache_invalidate_def split: option.split intro: order_trans\<close>)
qed

text \<open>
  C11 The partition cache never answers with what an invalidation made stale. Whatever lookups, stores,
  reads and invalidations interleave, an answer of the cache was stored by a lookup that began less than
  five minutes ago, there was no invalidation between the beginning of that lookup and its store and none
  of the tenant since, and the cache never holds more than a thousand tenants.
\<close>

theorem partition_cache_fresh:
  "(fst (cache_get (cr_now (cache_events now evs)) T (cr_cache (cache_events now evs))) = Some p \<longrightarrow>
      (\<exists>began. looked_up now evs T p began \<and> cr_now (cache_events now evs) < began + AGENT_PARTITION_CACHE_TTL_MS))
   \<and> length (pc_entries (cr_cache (cache_events now evs))) \<le> AGENT_PARTITION_CACHE_MAX_ENTRIES"
proof -
  have "\<exists>began. looked_up now evs T p began \<and> cr_now (cache_events now evs) < began + AGENT_PARTITION_CACHE_TTL_MS"
    if got: "fst (cache_get (cr_now (cache_events now evs)) T (cr_cache (cache_events now evs))) = Some p"
  proof -
    from got obtain x where "map_of (pc_entries (cr_cache (cache_events now evs))) T = Some (p, x)" "cr_now (cache_events now evs) < x"
      by (auto simp: cache_get_def split: option.splits if_splits)
    with entry_origin [OF map_of_SomeD] show ?thesis by (intro exI [of _ "x - AGENT_PARTITION_CACHE_TTL_MS"]) auto
  qed
  with cache_bounded show ?thesis by blast
qed

theorem partition_cache_fresh_witness:
  "let evs = [Begin 0, Tick 10, Put 0 ''t1'' [''a-traction-w''], Tick 5]; r = cache_events 0 evs
   in fst (cache_get (cr_now r) ''t1'' (cr_cache r)) = Some [''a-traction-w''] \<and> looked_up 0 evs ''t1'' [''a-traction-w''] 0"
proof -
  let ?evs = "[Begin 0, Tick 10, Put 0 ''t1'' [''a-traction-w''], Tick 5]"
  have got: "fst (cache_get (cr_now (cache_events 0 ?evs)) ''t1'' (cr_cache (cache_events 0 ?evs))) = Some [''a-traction-w'']" by code_simp
  with partition_cache_fresh [of 0 ?evs "''t1''" "[''a-traction-w'']"]
  obtain began where l: "looked_up 0 ?evs ''t1'' [''a-traction-w''] began" by blast
  have "began = 0"
  proof -
    from l obtain a i b c where a: "?evs = a @ Begin i # b @ Put i ''t1'' [''a-traction-w''] # c" "began = cr_now (cache_events 0 a)"
      by (auto simp: looked_up_def)
    from a(1) have "a = []" by (cases a) (auto simp: Cons_eq_append_conv)
    with a(2) show ?thesis by (simp add: cache_events_def cache_start_def)
  qed
  with got l show ?thesis unfolding Let_def by simp
qed

end
