(* ===== verification/Connector_Store.thy ===== *)
theory Connector_Store
  imports Log_Partition Tenant_Access Credential_Store
begin

text \<open>
  \<open>connector/\<close> up to the creation of a connector, which needs the tenant service: the repository with
  its constraints, key rotation, lookup, update and removal. What a connector type does remotely (the
  connectivity probe, webhook registration) is a parameter, the record \<open>connector_manager\<close> of an
  implementation of \<open>AbstractConnector\<close>; its in-memory session cache (\<open>evict\<close>) is not represented.
  \<open>meanwhile\<close> is what other requests write between the validation of an update and its lock.
\<close>

section \<open>Repository\<close>

definition AGENT_LOG_ID_UNIQUE_INDEX :: string where
  "AGENT_LOG_ID_UNIQUE_INDEX = ''uq_connector_credential_agent_log_id_hash''"

definition put_connectors :: "connector_row list \<Rightarrow> unit service" where
  "put_connectors t =
     (if \<not> index_ok (\<lambda>c. ctr_active c \<and> ctr_agentLogIdHash c \<noteq> None) ctr_agentLogIdHash t
      then throw (QueryFailed ''23505'' AGENT_LOG_ID_UNIQUE_INDEX)
      else modifies (\<lambda>s. s\<lparr>connectors := t\<rparr>))"

definition connectors_findById :: "uuid \<Rightarrow> db \<Rightarrow> connector_row option" where
  "connectors_findById i s = List.find (\<lambda>c. ctr_id c = i) (connectors s)"

definition findByTenantAndIdForUpdate :: "uuid \<Rightarrow> uuid \<Rightarrow> db \<Rightarrow> connector_row option" where
  "findByTenantAndIdForUpdate tenantId i s = List.find (\<lambda>c. ctr_tenantId c = tenantId \<and> ctr_id c = i) (connectors s)"

definition newest_connectors :: "(connector_row \<Rightarrow> bool) \<Rightarrow> db \<Rightarrow> connector_row list" where
  "newest_connectors P s = sort_key (\<lambda>c. - ctr_createdAt c) (filter P (connectors s))"

definition connectors_findByTenant :: "uuid \<Rightarrow> db \<Rightarrow> connector_row list" where
  "connectors_findByTenant tenantId = newest_connectors (\<lambda>c. ctr_tenantId c = tenantId)"

definition connectors_findByTenantAndConnectorType :: "uuid \<Rightarrow> ConnectorType \<Rightarrow> db \<Rightarrow> connector_row list" where
  "connectors_findByTenantAndConnectorType tenantId type =
     newest_connectors (\<lambda>c. ctr_tenantId c = tenantId \<and> ctr_connectorType c = type)"

definition connectors_findByTenantAndConnectorTypeAndActive :: "uuid \<Rightarrow> ConnectorType \<Rightarrow> bool \<Rightarrow> db \<Rightarrow> connector_row list" where
  "connectors_findByTenantAndConnectorTypeAndActive tenantId type active =
     newest_connectors (\<lambda>c. ctr_tenantId c = tenantId \<and> ctr_connectorType c = type \<and> ctr_active c = active)"

definition findActiveByTenantAndId :: "uuid \<Rightarrow> uuid \<Rightarrow> db \<Rightarrow> connector_row option" where
  "findActiveByTenantAndId tenantId i s =
     List.find (\<lambda>c. ctr_tenantId c = tenantId \<and> ctr_id c = i \<and> ctr_active c) (connectors s)"

definition existsOtherActiveWithAgentLogIdHash :: "string \<Rightarrow> uuid \<Rightarrow> db \<Rightarrow> bool" where
  "existsOtherActiveWithAgentLogIdHash hash excludeId s =
     list_ex (\<lambda>c. ctr_agentLogIdHash c = Some hash \<and> ctr_active c \<and> ctr_id c \<noteq> excludeId) (connectors s)"

definition connectors_create :: "connector_row \<Rightarrow> connector_row service" where
  "connectors_create c = (\<lambda>s.
     if \<exists>r \<in> set (connectors s). ctr_id r = ctr_id c then throw (QueryFailed ''23505'' ''connector_credential_pkey'') s
     else if \<not> (\<exists>t \<in> set (tenants s). ten_id t = ctr_tenantId c)
     then throw (QueryFailed ''23503'' ''fk_connector_credential_tenant'') s
     else bindA (put_connectors (connectors s @ [c])) (\<lambda>_. ret c) s)"

text \<open>A connector that a credential, a connection or a credential definition refers to cannot be deleted.\<close>

definition connector_in_use :: "uuid \<Rightarrow> db \<Rightarrow> bool" where
  "connector_in_use i s \<longleftrightarrow> list_ex (\<lambda>c. cred_connectorId c = i) (credentials s)
     \<or> list_ex (\<lambda>c. conn_connectorId c = Some i) (connections s)
     \<or> list_ex (\<lambda>d. cd_connectorId d = Some i) (credential_definitions s)"

definition delete_connectors :: "(connector_row \<Rightarrow> bool) \<Rightarrow> nat service" where
  "delete_connectors P = (\<lambda>s.
     if list_ex (\<lambda>c. P c \<and> connector_in_use (ctr_id c) s) (connectors s)
     then throw (QueryFailed ''23503'' ''fk_credential_connector'') s
     else bindA (modifies (\<lambda>s. s\<lparr>connectors := filter (\<lambda>c. \<not> P c) (connectors s)\<rparr>))
            (\<lambda>_. ret (count_where P (connectors s))) s)"

definition connectors_delete :: "uuid \<Rightarrow> unit service" where
  "connectors_delete i = bindA (delete_connectors (\<lambda>c. ctr_id c = i)) (\<lambda>_. ret ())"

datatype ConnectorDeletionResult = DELETED | DEFAULT | NOT_FOUND

definition deleteUnlessDefault :: "uuid \<Rightarrow> uuid \<Rightarrow> ConnectorDeletionResult service" where
  "deleteUnlessDefault tenantId i =
     transaction (\<lambda>s. case List.find (\<lambda>t. ten_id t = tenantId \<and> ten_deletedAt t = None) (tenants s) of
         None \<Rightarrow> ret NOT_FOUND
       | Some ten \<Rightarrow>
           if jget (ten_config ten) ''default_connector'' = Some (JStr i) then ret DEFAULT
           else bindA (delete_connectors (\<lambda>c. ctr_tenantId c = tenantId \<and> ctr_id c = i)) (\<lambda>n.
                ret (if n > 0 then DELETED else NOT_FOUND)))"

text \<open>A partial entity: the columns an update sets.\<close>

record connector_updates =
  cup_endpointUrl :: "string option"
  cup_credentials :: "(string \<times> nat) option"
  cup_agentLogIdHash :: "string option option"

definition no_updates :: connector_updates where
  "no_updates = \<lparr>cup_endpointUrl = None, cup_credentials = None, cup_agentLogIdHash = None\<rparr>"

definition apply_updates :: "env \<Rightarrow> connector_updates \<Rightarrow> connector_row \<Rightarrow> connector_row" where
  "apply_updates E u c =
     c\<lparr>ctr_endpointUrl := (case cup_endpointUrl u of None \<Rightarrow> ctr_endpointUrl c | Some x \<Rightarrow> x),
       ctr_credentialsEncrypted := (case cup_credentials u of None \<Rightarrow> ctr_credentialsEncrypted c | Some x \<Rightarrow> fst x),
       ctr_keyVersion := (case cup_credentials u of None \<Rightarrow> ctr_keyVersion c | Some x \<Rightarrow> snd x),
       ctr_agentLogIdHash := (case cup_agentLogIdHash u of None \<Rightarrow> ctr_agentLogIdHash c | Some x \<Rightarrow> x),
       ctr_updatedAt := db_now E\<rparr>"

text \<open>\<open>buildUpdates\<close> runs under the row lock; next to the updates it may report something to its caller.\<close>

definition updateWithLock ::
    "env \<Rightarrow> uuid \<Rightarrow> uuid \<Rightarrow> (connector_row \<Rightarrow> err + connector_updates \<times> 'x) \<Rightarrow> (connector_row \<times> 'x) option service" where
  "updateWithLock E tenantId i buildUpdates =
     transaction (\<lambda>s. case findByTenantAndIdForUpdate tenantId i s of
         None \<Rightarrow> ret None
       | Some existing \<Rightarrow>
           bindA (lift (buildUpdates existing)) (\<lambda>(updates, info).
           bindA (if updates = no_updates then ret ()
                  else (\<lambda>s. put_connectors (update_where (\<lambda>c. ctr_tenantId c = tenantId \<and> ctr_id c = i)
                              (apply_updates E updates) (connectors s)) s)) (\<lambda>_.
           bindA (reads (findByTenantAndIdForUpdate tenantId i)) (\<lambda>row.
           ret (case row of None \<Rightarrow> None | Some c \<Rightarrow> Some (c, info))))))"

definition connectors_deactivateAllForTenant :: "env \<Rightarrow> uuid \<Rightarrow> nat service" where
  "connectors_deactivateAllForTenant E tenantId = (\<lambda>s.
     let hit = (\<lambda>c. ctr_tenantId c = tenantId \<and> ctr_active c)
     in bindA (put_connectors (update_where hit (\<lambda>c. c\<lparr>ctr_active := False, ctr_updatedAt := db_now E\<rparr>) (connectors s)))
          (\<lambda>_. ret (count_where hit (connectors s))) s)"

section \<open>What a connector type does\<close>

record HealthCheck =
  hc_healthy :: bool
  hc_message :: "string option"
  hc_agentLogId :: "string option"

record ConnectorContext =
  cctx_connectorId :: uuid
  cctx_tenantId :: uuid
  cctx_endpointUrl :: string
  cctx_credentials :: json

record connector_manager =
  mgr_check :: "string \<Rightarrow> json \<Rightarrow> err + HealthCheck"
  mgr_prepare :: "json \<Rightarrow> err + json"
  mgr_merge :: "json \<Rightarrow> json \<Rightarrow> json"
  mgr_ensure :: "ConnectorContext \<Rightarrow> err + unit"
  mgr_isRegistered :: "ConnectorContext \<Rightarrow> err + bool"

type_synonym managers = "ConnectorType \<Rightarrow> connector_manager option"

definition health_check :: "managers \<Rightarrow> ConnectorType \<Rightarrow> string \<Rightarrow> json \<Rightarrow> err + HealthCheck" where
  "health_check M type endpointUrl creds =
     (case M type of
        None \<Rightarrow> Inr \<lparr>hc_healthy = False,
          hc_message = Some (''No connectivity probe is registered for connector type '' @ connectorType_value type @ ''.''),
          hc_agentLogId = None\<rparr>
      | Some m \<Rightarrow>
          (case mgr_check m endpointUrl creds of
             Inl e \<Rightarrow> Inl e
           | Inr r \<Rightarrow> Inr (case hc_agentLogId r of
                 None \<Rightarrow> r | Some x \<Rightarrow> if isValidAgentLogId x then r else r\<lparr>hc_agentLogId := None\<rparr>)))"

definition assertHealthy :: "managers \<Rightarrow> ConnectorType \<Rightarrow> string \<Rightarrow> json \<Rightarrow> err + string option" where
  "assertHealthy M type endpointUrl creds =
     (case health_check M type endpointUrl creds of
        Inl e \<Rightarrow> Inl e
      | Inr r \<Rightarrow>
          if \<not> hc_healthy r
          then Inl (UnprocessableEntityException (''Could not verify connectivity to the connector endpoint: ''
                 @ (case hc_message r of None \<Rightarrow> ''unknown error'' | Some m \<Rightarrow> m)))
          else Inr (hc_agentLogId r))"

section \<open>Stored credentials\<close>

definition AGENT_LOG_ID_BINDING_DOMAIN :: string where
  "AGENT_LOG_ID_BINDING_DOMAIN = ''connector-agent-log-id:v1''"

definition AGENT_LOG_ID_CONFLICT_MESSAGE :: string where
  "AGENT_LOG_ID_CONFLICT_MESSAGE = ''This agent sub-wallet is already bound to another connector.''"

text \<open>The fields of an object, and setting one: an existing field keeps its place, a new one comes last.\<close>

fun json_fields :: "json \<Rightarrow> (string \<times> json) list" where
  "json_fields (JObj fs) = fs"
| "json_fields _ = []"

definition set_field :: "string \<Rightarrow> json \<Rightarrow> (string \<times> json) list \<Rightarrow> (string \<times> json) list" where
  "set_field k v fs = (if k \<in> fst ` set fs then map (\<lambda>f. if fst f = k then (k, v) else f) fs else fs @ [(k, v)])"

definition withAgentLogId :: "json \<Rightarrow> string option \<Rightarrow> json" where
  "withAgentLogId creds agentLogId =
     (let rest = filter (\<lambda>f. fst f \<noteq> ''agentLogId'') (json_fields creds)
      in JObj (case agentLogId of None \<Rightarrow> rest | Some x \<Rightarrow> rest @ [(''agentLogId'', JStr x)]))"

record vault =
  vlt_lib :: crypto_lib
  vlt_ring :: key_ring
  vlt_iv :: string

definition vault_encrypt :: "vault \<Rightarrow> json \<Rightarrow> err + string \<times> nat" where
  "vault_encrypt V value = encrypt (vlt_lib V) (vlt_ring V) (vlt_iv V) value"

definition vault_decrypt :: "vault \<Rightarrow> connector_row \<Rightarrow> err + json" where
  "vault_decrypt V c = decrypt (vlt_lib V) (vlt_ring V) (ctr_credentialsEncrypted c) (ctr_keyVersion c)"

definition hashAgentLogId :: "vault \<Rightarrow> ConnectorType \<Rightarrow> string option \<Rightarrow> err + string option" where
  "hashAgentLogId V type agentLogId =
     (case agentLogId of None \<Rightarrow> Inr None
      | Some x \<Rightarrow>
          (case formatAgentLogBindingKey type x of Inl e \<Rightarrow> Inl e
           | Inr key \<Rightarrow>
               (case deriveBlindIndex (vlt_lib V) (vlt_ring V) AGENT_LOG_ID_BINDING_DOMAIN key of
                  Inl e \<Rightarrow> Inl e | Inr h \<Rightarrow> Inr (Some h))))"

definition throwIfAgentLogIdConflict :: "err \<Rightarrow> err" where
  "throwIfAgentLogIdConflict e =
     (if isUniqueConstraintViolation e (Some AGENT_LOG_ID_UNIQUE_INDEX)
      then ConflictException AGENT_LOG_ID_CONFLICT_MESSAGE else e)"

definition rotate_updates :: "vault \<Rightarrow> connector_row \<Rightarrow> err + connector_updates \<times> unit" where
  "rotate_updates V current =
     (case requiresRotation (vlt_ring V) (ctr_keyVersion current) of
        Inl e \<Rightarrow> Inl e
      | Inr False \<Rightarrow> Inr (no_updates, ())
      | Inr True \<Rightarrow>
          (case vault_decrypt V current of Inl e \<Rightarrow> Inl e
           | Inr decrypted \<Rightarrow>
               (case vault_encrypt V decrypted of Inl e \<Rightarrow> Inl e
                | Inr enc \<Rightarrow> Inr (no_updates\<lparr>cup_credentials := Some enc\<rparr>, ()))))"

definition lazyRotateKeyIfNeeded :: "env \<Rightarrow> vault \<Rightarrow> connector_row \<Rightarrow> connector_row service" where
  "lazyRotateKeyIfNeeded E V c =
     bindA (lift (requiresRotation (vlt_ring V) (ctr_keyVersion c))) (\<lambda>needed.
       if needed
       then bindA (updateWithLock E (ctr_tenantId c) (ctr_id c) (rotate_updates V)) (\<lambda>rotated.
            ret (case rotated of None \<Rightarrow> c | Some (r, _) \<Rightarrow> r))
       else ret c)"

section \<open>Lookup\<close>

definition connector_not_found :: "uuid \<Rightarrow> string" where
  "connector_not_found i = ''Connector credential with ID '' @ quoted i @ '' was not found.''"

definition connector_findById :: "env \<Rightarrow> vault \<Rightarrow> bool \<Rightarrow> uuid \<Rightarrow> uuid \<Rightarrow> AuthContext option \<Rightarrow> connector_row service" where
  "connector_findById E V locked tenantId i auth =
     bindA (reads (if locked then findByTenantAndIdForUpdate tenantId i else connectors_findById i)) (\<lambda>row.
     case row of
       None \<Rightarrow> throw (NotFoundException (connector_not_found i))
     | Some c \<Rightarrow>
         if ctr_tenantId c \<noteq> tenantId then throw (NotFoundException (connector_not_found i))
         else bindA (lift (assertResourceTenantOrNotFound auth (ctr_tenantId c) (connector_not_found i))) (\<lambda>_.
              lazyRotateKeyIfNeeded E V c))"

fun rotate_all :: "env \<Rightarrow> vault \<Rightarrow> connector_row list \<Rightarrow> connector_row list service" where
  "rotate_all E V [] = ret []"
| "rotate_all E V (c # cs) =
     bindA (lazyRotateKeyIfNeeded E V c) (\<lambda>r. bindA (rotate_all E V cs) (\<lambda>rs. ret (r # rs)))"

definition connector_findByTenant :: "env \<Rightarrow> vault \<Rightarrow> uuid \<Rightarrow> connector_row list service" where
  "connector_findByTenant E V tenantId = bindA (reads (connectors_findByTenant tenantId)) (rotate_all E V)"

definition connector_findByTenantAndConnectorType :: "env \<Rightarrow> vault \<Rightarrow> uuid \<Rightarrow> ConnectorType \<Rightarrow> connector_row list service" where
  "connector_findByTenantAndConnectorType E V tenantId type =
     bindA (reads (connectors_findByTenantAndConnectorType tenantId type)) (rotate_all E V)"

definition connector_findByTenantAndConnectorTypeAndActive ::
    "env \<Rightarrow> vault \<Rightarrow> uuid \<Rightarrow> ConnectorType \<Rightarrow> bool \<Rightarrow> connector_row list service" where
  "connector_findByTenantAndConnectorTypeAndActive E V tenantId type active =
     bindA (reads (connectors_findByTenantAndConnectorTypeAndActive tenantId type active)) (rotate_all E V)"

definition findActiveForWebhook :: "env \<Rightarrow> vault \<Rightarrow> uuid \<Rightarrow> connector_row option service" where
  "findActiveForWebhook E V i =
     bindA (reads (connectors_findById i)) (\<lambda>row.
     case row of None \<Rightarrow> ret None
     | Some c \<Rightarrow> if \<not> ctr_active c then ret None
                 else bindA (lazyRotateKeyIfNeeded E V c) (\<lambda>r. ret (Some r)))"

section \<open>Update\<close>

definition agentPartitionCache_invalidate :: "uuid \<Rightarrow> unit service" where
  "agentPartitionCache_invalidate tenantId =
     modifies (\<lambda>s. s\<lparr>partition_cache := cache_invalidate tenantId (partition_cache s)\<rparr>)"

definition assertAgentLogIdAvailable ::
    "vault \<Rightarrow> connector_row \<Rightarrow> string option \<Rightarrow> json \<Rightarrow> db \<Rightarrow> err + string option" where
  "assertAgentLogIdAvailable V existing agentLogId existingCredentials s =
     (case hashAgentLogId V (ctr_connectorType existing) agentLogId of
        Inl e \<Rightarrow> Inl e
      | Inr hash \<Rightarrow>
          if hash = None \<and> (ctr_agentLogIdHash existing \<noteq> None \<or> jget existingCredentials ''agentLogId'' \<noteq> None)
          then Inl (UnprocessableEntityException
                 ''The connector no longer reports its agent identifier; the existing binding was kept.'')
          else if (case hash of None \<Rightarrow> False | Some h \<Rightarrow> existsOtherActiveWithAgentLogIdHash h (ctr_id existing) s)
          then Inl (ConflictException AGENT_LOG_ID_CONFLICT_MESSAGE)
          else Inr hash)"

record UpdateConnectorDto =
  ucd_endpointUrl :: "string option"
  ucd_credentials :: "json option"

definition merge_fields :: "string list \<Rightarrow> json \<Rightarrow> json \<Rightarrow> json" where
  "merge_fields ks existing updates =
     JObj (foldl (\<lambda>fs k. case jget updates k of None \<Rightarrow> fs | Some v \<Rightarrow> set_field k v fs) (json_fields existing) ks)"

definition merge_credentials :: "managers \<Rightarrow> ConnectorType \<Rightarrow> json \<Rightarrow> json \<Rightarrow> json" where
  "merge_credentials M type existing updates =
     (case M type of Some m \<Rightarrow> mgr_merge m existing updates
      | None \<Rightarrow> merge_fields [''apiKey'', ''webhookSecret''] existing updates)"

text \<open>
  The columns to write and the credentials to register the webhook with. Reads only: the store at the
  time of the availability check is \<open>s\<close>.
\<close>

definition credential_updates ::
    "vault \<Rightarrow> managers \<Rightarrow> connector_row \<Rightarrow> UpdateConnectorDto \<Rightarrow> db \<Rightarrow> err + connector_updates \<times> json option" where
  "credential_updates V M existing dto s =
     (let type = ctr_connectorType existing;
          endpointUrl = (case ucd_endpointUrl dto of None \<Rightarrow> ctr_endpointUrl existing | Some u \<Rightarrow> u);
          updates = no_updates\<lparr>cup_endpointUrl := ucd_endpointUrl dto\<rparr>
      in case ucd_credentials dto of
           Some given \<Rightarrow>
             (case vault_decrypt V existing of Inl e \<Rightarrow> Inl e
              | Inr old \<Rightarrow>
                let merged = merge_credentials M type old given in
                (case assertHealthy M type endpointUrl merged of Inl e \<Rightarrow> Inl e
                 | Inr agentLogId \<Rightarrow>
                   let toPersist = withAgentLogId merged agentLogId in
                   (case assertAgentLogIdAvailable V existing agentLogId old s of Inl e \<Rightarrow> Inl e
                    | Inr hash \<Rightarrow>
                      (case vault_encrypt V toPersist of Inl e \<Rightarrow> Inl e
                       | Inr enc \<Rightarrow> Inr (updates\<lparr>cup_agentLogIdHash := Some hash, cup_credentials := Some enc\<rparr>, Some toPersist)))))
         | None \<Rightarrow>
             if ucd_endpointUrl dto = None then Inr (updates, None)
             else
             (case vault_decrypt V existing of Inl e \<Rightarrow> Inl e
              | Inr old \<Rightarrow>
                (case assertHealthy M type endpointUrl old of Inl e \<Rightarrow> Inl e
                 | Inr agentLogId \<Rightarrow>
                   if map_option JStr agentLogId = jget old ''agentLogId'' then Inr (updates, None)
                   else
                   (case assertAgentLogIdAvailable V existing agentLogId old s of Inl e \<Rightarrow> Inl e
                    | Inr hash \<Rightarrow>
                      (case vault_encrypt V (withAgentLogId old agentLogId) of Inl e \<Rightarrow> Inl e
                       | Inr enc \<Rightarrow> Inr (updates\<lparr>cup_agentLogIdHash := Some hash, cup_credentials := Some enc\<rparr>, None))))))"

text \<open>Whether a registration that failed took effect after all; \<open>cleanup\<close> runs when it is known that it did not.\<close>

definition reconcileFailedRegistration :: "connector_manager \<Rightarrow> ConnectorContext \<Rightarrow> unit service \<Rightarrow> bool service" where
  "reconcileFailedRegistration m ctx cleanup =
     (case mgr_isRegistered m ctx of
        Inl _ \<Rightarrow> ret False
      | Inr True \<Rightarrow> ret True
      | Inr False \<Rightarrow> bindA cleanup (\<lambda>_. ret False))"

definition ensure_webhook :: "connector_manager \<Rightarrow> ConnectorContext \<Rightarrow> unit service \<Rightarrow> unit service \<Rightarrow> unit service" where
  "ensure_webhook m ctx cleanup afterwards =
     (case mgr_ensure m ctx of
        Inr _ \<Rightarrow> ret ()
      | Inl registrationError \<Rightarrow>
          bindA (reconcileFailedRegistration m ctx cleanup) (\<lambda>confirmed.
          bindA afterwards (\<lambda>_. require confirmed registrationError)))"

definition buildCredentialUpdates :: "vault \<Rightarrow> managers \<Rightarrow> connector_row \<Rightarrow> UpdateConnectorDto \<Rightarrow> connector_updates service" where
  "buildCredentialUpdates V M existing dto = (\<lambda>s.
     bindA (lift (credential_updates V M existing dto s)) (\<lambda>(updates, toPersist).
     bindA (require (updates \<noteq> no_updates)
              (BadRequestException ''At least one of endpoint_url or credentials must be provided.'')) (\<lambda>_.
     case (M (ctr_connectorType existing), toPersist) of
       (Some m, Some creds) \<Rightarrow>
         let ctx = \<lparr>cctx_connectorId = ctr_id existing, cctx_tenantId = ctr_tenantId existing,
                    cctx_endpointUrl = (case ucd_endpointUrl dto of None \<Rightarrow> ctr_endpointUrl existing | Some u \<Rightarrow> u),
                    cctx_credentials = creds\<rparr>
         in bindA (ensure_webhook m ctx (ret ()) (ret ())) (\<lambda>_. ret updates)
     | _ \<Rightarrow> ret updates)) s)"

definition connector_stale :: "connector_row \<Rightarrow> connector_row \<Rightarrow> bool" where
  "connector_stale current snapshot \<longleftrightarrow>
     ctr_endpointUrl current \<noteq> ctr_endpointUrl snapshot \<or> ctr_connectorType current \<noteq> ctr_connectorType snapshot
     \<or> ctr_active current \<noteq> ctr_active snapshot \<or> ctr_keyVersion current \<noteq> ctr_keyVersion snapshot
     \<or> ctr_credentialsEncrypted current \<noteq> ctr_credentialsEncrypted snapshot"

text \<open>
  An attempt sees its own remote answers, initialisation vector and interference, numbered by the
  attempt; the list holds the attempts that are left.
\<close>

fun update_attempts ::
    "env \<Rightarrow> (nat \<Rightarrow> vault) \<Rightarrow> (nat \<Rightarrow> managers) \<Rightarrow> (nat \<Rightarrow> db \<Rightarrow> db) \<Rightarrow> uuid \<Rightarrow> uuid \<Rightarrow> UpdateConnectorDto \<Rightarrow> nat list
       \<Rightarrow> connector_row \<Rightarrow> connector_row service" where
  "update_attempts E V M meanwhile tenantId i dto [] snapshot =
     throw (ConflictException ''Connector changed during validation. Retry the update.'')"
| "update_attempts E V M meanwhile tenantId i dto (attempt # rest) snapshot =
     bindA (buildCredentialUpdates (V attempt) (M attempt) snapshot dto) (\<lambda>updates.
     bindA (modifies (meanwhile attempt)) (\<lambda>_.
     bindA (catchA (updateWithLock E tenantId i (\<lambda>current.
              if connector_stale current snapshot then Inr (no_updates, True) else Inr (updates, False)))
             (\<lambda>e. throw (throwIfAgentLogIdConflict e))) (\<lambda>updated.
     bindA (agentPartitionCache_invalidate tenantId) (\<lambda>_.
     case updated of
       None \<Rightarrow> throw (NotFoundException (connector_not_found i))
     | Some (row, stale) \<Rightarrow>
         if stale then update_attempts E V M meanwhile tenantId i dto rest row
         else lazyRotateKeyIfNeeded E (V attempt) row))))"

definition connector_update ::
    "env \<Rightarrow> (nat \<Rightarrow> vault) \<Rightarrow> (nat \<Rightarrow> managers) \<Rightarrow> (nat \<Rightarrow> db \<Rightarrow> db) \<Rightarrow> uuid \<Rightarrow> uuid \<Rightarrow> UpdateConnectorDto \<Rightarrow> AuthContext
       \<Rightarrow> connector_row service" where
  "connector_update E V M meanwhile tenantId i dto auth =
     bindA (connector_findById E (V 0) False tenantId i (Some auth))
       (update_attempts E V M meanwhile tenantId i dto [0, 1, 2])"

section \<open>Removal and probes\<close>

definition in_use_error :: err where
  "in_use_error = ConflictException ''Cannot delete connector: credential records still reference it.''"

definition connector_delete :: "env \<Rightarrow> vault \<Rightarrow> uuid \<Rightarrow> uuid \<Rightarrow> AuthContext \<Rightarrow> unit service" where
  "connector_delete E V tenantId i auth =
     bindA (connector_findById E V False tenantId i (Some auth)) (\<lambda>_.
     bindA (reads (cred_existsByConnectorId i)) (\<lambda>hasDependents.
     bindA (require (\<not> hasDependents) in_use_error) (\<lambda>_.
     catchA (bindA (deleteUnlessDefault tenantId i) (\<lambda>result.
             bindA (agentPartitionCache_invalidate tenantId) (\<lambda>_.
             case result of
               DEFAULT \<Rightarrow> throw (ConflictException
                 ''Cannot delete the default connector. Select a different default connector in tenant settings first.'')
             | NOT_FOUND \<Rightarrow> throw (NotFoundException (connector_not_found i))
             | DELETED \<Rightarrow> ret ())))
       (\<lambda>e. if getPostgresErrorCode e = Some ''23503'' then throw in_use_error else throw e))))"

definition connector_deactivateAllForTenant :: "env \<Rightarrow> uuid \<Rightarrow> nat service" where
  "connector_deactivateAllForTenant E tenantId = (\<lambda>s.
     case connectors_deactivateAllForTenant E tenantId s of
       (res, t) \<Rightarrow> (res, snd (agentPartitionCache_invalidate tenantId t)))"

definition testConnectivity :: "env \<Rightarrow> vault \<Rightarrow> managers \<Rightarrow> uuid \<Rightarrow> uuid \<Rightarrow> AuthContext \<Rightarrow> (bool \<times> string option) service" where
  "testConnectivity E V M tenantId i auth =
     bindA (connector_findById E V False tenantId i (Some auth)) (\<lambda>c.
     bindA (lift (vault_decrypt V c)) (\<lambda>decrypted.
     bindA (lift (health_check M (ctr_connectorType c) (ctr_endpointUrl c) decrypted)) (\<lambda>r.
     ret (hc_healthy r, hc_message r))))"

section \<open>The binding of a connector to its agent\<close>

text \<open>
  A connector is bound when its stored credentials can be read and its indexed hash is the hash of the
  agent identifier they hold, none if they hold none.
\<close>

definition vault_ok :: "vault \<Rightarrow> bool" where
  "vault_ok V \<longleftrightarrow> crypto_ok (vlt_lib V) \<and> (\<exists>cfg. loadKeys cfg = Inr (vlt_ring V)) \<and> length (vlt_iv V) = IV_LENGTH"

definition same_keys :: "vault \<Rightarrow> vault \<Rightarrow> bool" where
  "same_keys V V' \<longleftrightarrow> vlt_lib V' = vlt_lib V \<and> vlt_ring V' = vlt_ring V"

definition connector_bound :: "vault \<Rightarrow> connector_row \<Rightarrow> bool" where
  "connector_bound V c \<longleftrightarrow> (\<exists>creds agentLogId. vault_decrypt V c = Inr creds
     \<and> jget creds ''agentLogId'' = map_option JStr agentLogId
     \<and> hashAgentLogId V (ctr_connectorType c) agentLogId = Inr (ctr_agentLogIdHash c))"

definition connectors_bound :: "vault \<Rightarrow> connector_row list \<Rightarrow> bool" where
  "connectors_bound V t \<longleftrightarrow> key_table ctr_id t
     \<and> index_ok (\<lambda>c. ctr_active c \<and> ctr_agentLogIdHash c \<noteq> None) ctr_agentLogIdHash t
     \<and> (\<forall>c \<in> set t. ctr_active c \<longrightarrow> connector_bound V c)"

definition bound_step :: "vault \<Rightarrow> db \<Rightarrow> db \<Rightarrow> bool" where
  "bound_step V s s' \<longleftrightarrow> (connectors_bound V (connectors s) \<longrightarrow> connectors_bound V (connectors s'))"

interpretation bound: store_preorder "bound_step V" for V
  by unfold_locales (auto simp: bound_step_def)

lemma same_keys_bound:
  assumes "same_keys V V'"
  shows "connector_bound V' c = connector_bound V c" and "hashAgentLogId V' = hashAgentLogId V" and "vault_decrypt V' = vault_decrypt V"
proof -
  from assms have V': "V' = V\<lparr>vlt_iv := vlt_iv V'\<rparr>" by (simp add: same_keys_def)
  show d: "vault_decrypt V' = vault_decrypt V" by (subst V') (simp add: fun_eq_iff vault_decrypt_def)
  show h: "hashAgentLogId V' = hashAgentLogId V" 
    using assms by (intro ext) (auto simp: hashAgentLogId_def same_keys_def split: option.split sum.split)
  show "connector_bound V' c = connector_bound V c" by (simp add: connector_bound_def d h)
qed

lemma vault_encrypt_readable:
  assumes "vault_ok V" and "vault_encrypt V v = Inr (ct, ver)"
  shows "decrypt (vlt_lib V) (vlt_ring V) ct ver = Inr v"
proof -
  from assms(1) obtain cfg where V: "crypto_ok (vlt_lib V)" "loadKeys cfg = Inr (vlt_ring V)" "length (vlt_iv V) = IV_LENGTH"
    by (auto simp: vault_ok_def)
  obtain key where key: "map_of (kr_keys (vlt_ring V)) (kr_currentVersion (vlt_ring V)) = Some key" "length key = 32"
    using loadKeys_current [OF V(2)] .
  with assms(2) have "ver = kr_currentVersion (vlt_ring V)" "ct = vlt_iv V @ snd (aes_seal (vlt_lib V) key (vlt_iv V) (json_stringify (vlt_lib V) v))
      @ fst (aes_seal (vlt_lib V) key (vlt_iv V) (json_stringify (vlt_lib V) v))"
    by (auto simp: vault_encrypt_def encrypt_def getCurrentKey_def split: prod.splits)
  with decrypt_sealed [OF V(1) key(2) V(3), of v] key(1) show ?thesis by (simp add: decrypt_def getKey_def)
qed

lemma jget_withAgentLogId [simp]: "jget (withAgentLogId creds agentLogId) ''agentLogId'' = map_option JStr agentLogId"
proof -
  have "''agentLogId'' \<notin> fst ` set (filter (\<lambda>f. fst f \<noteq> ''agentLogId'') (json_fields creds))" by auto
  then have "map_of (filter (\<lambda>f. fst f \<noteq> ''agentLogId'') (json_fields creds)) ''agentLogId'' = None" by (metis map_of_eq_None_iff)
  then show ?thesis by (simp add: withAgentLogId_def Let_def jget_def map_add_def split: option.split)
qed

lemma connector_put:
  assumes "put_connectors t s = (r, s')"
  shows "s' = s \<or> r = Inr () \<and> s' = s\<lparr>connectors := t\<rparr> \<and> index_ok (\<lambda>c. ctr_active c \<and> ctr_agentLogIdHash c \<noteq> None) ctr_agentLogIdHash t"
  using assms by (auto simp: put_connectors_def throw_def modifies_def split: if_splits)

text \<open>Under the lock: nothing happens, or the row that was read is overwritten with the updates built from it.\<close>

lemma updateWithLock_cases:
  assumes run: "updateWithLock E T i build s = (r, s')"
  obtains "s' = s"
  | c updates info where "findByTenantAndIdForUpdate T i s = Some c" "build c = Inr (updates, info)"
      "s' = s\<lparr>connectors := update_where (\<lambda>x. ctr_tenantId x = T \<and> ctr_id x = i) (apply_updates E updates) (connectors s)\<rparr>"
      "index_ok (\<lambda>c. ctr_active c \<and> ctr_agentLogIdHash c \<noteq> None) ctr_agentLogIdHash (connectors s')"
      "\<exists>row. r = Inr (Some (row, info)) \<and> findByTenantAndIdForUpdate T i s' = Some row \<or> r = Inr None"
proof (cases "findByTenantAndIdForUpdate T i s")
  case None
  with run that(1) show ?thesis by (simp add: updateWithLock_def transaction_def ret_def)
next
  case (Some c)
  show ?thesis
  proof (cases "build c")
    case (Inl e)
    with Some run that(1) show ?thesis by (simp add: updateWithLock_def transaction_def throw_def)
  next
    case (Inr p)
    obtain updates info where p: "p = (updates, info)" by (cases p)
    let ?t = "update_where (\<lambda>x. ctr_tenantId x = T \<and> ctr_id x = i) (apply_updates E updates) (connectors s)"
    show ?thesis
    proof (cases "updates = no_updates")
      case True
      then have "updateWithLock E T i build s = (Inr (Some (c, info)), s)"
        using Some Inr p by (simp add: updateWithLock_def transaction_def) (simp add: ret_def)
      with run that(1) show ?thesis by simp
    next
      case False
      obtain q u where put: "put_connectors ?t s = (q, u)" by (cases "put_connectors ?t s")
      have run': "(r, s') = (case q of Inl e \<Rightarrow> (Inl e, s)
          | Inr _ \<Rightarrow> (Inr (case findByTenantAndIdForUpdate T i u of None \<Rightarrow> None | Some c \<Rightarrow> Some (c, info)), u))"
        unfolding run [symmetric] using Some Inr p False put
        by (cases q) (simp_all add: updateWithLock_def transaction_def bindA_def [of "\<lambda>s. put_connectors (t s) s" for t] ret_def)
      show ?thesis
      proof (cases q)
        case (Inl e)
        with run' that(1) show ?thesis by simp
      next
        case (Inr x)
        with connector_put [OF put] have u: "u = s \<or> u = s\<lparr>connectors := ?t\<rparr> \<and> index_ok (\<lambda>c. ctr_active c \<and> ctr_agentLogIdHash c \<noteq> None) ctr_agentLogIdHash ?t" by simp
        from Inr run' have r: "s' = u" "r = Inr (case findByTenantAndIdForUpdate T i u of None \<Rightarrow> None | Some c \<Rightarrow> Some (c, info))" by simp_all
        show ?thesis
        proof (cases "u = s")
          case True
          with r that(1) show ?thesis by simp
        next
          case False
          with u r p \<open>build c = Inr p\<close> Some that(2) [of c updates info] show ?thesis by (simp split: option.splits)
        qed
      qed
    qed
  qed
qed

lemma findForUpdate_member:
  "findByTenantAndIdForUpdate T i s = Some c \<Longrightarrow> c \<in> set (connectors s) \<and> ctr_tenantId c = T \<and> ctr_id c = i"
  by (auto simp: findByTenantAndIdForUpdate_def dest: find_Some)

lemma apply_updates_same [simp]:
  "ctr_id (apply_updates E u c) = ctr_id c" "ctr_tenantId (apply_updates E u c) = ctr_tenantId c"
  "ctr_active (apply_updates E u c) = ctr_active c" "ctr_connectorType (apply_updates E u c) = ctr_connectorType c"
  by (simp_all add: apply_updates_def)

lemma updateWithLock_bound:
  assumes run: "updateWithLock E T i build s = (r, s')"
    and ok: "\<And>c updates info. c \<in> set (connectors s) \<Longrightarrow> build c = Inr (updates, info) \<Longrightarrow> connector_bound V c \<Longrightarrow> connector_bound V (apply_updates E updates c)"
  shows "bound_step V s s'"
  using run
proof (cases rule: updateWithLock_cases)
  case (2 c updates info)
  let ?hit = "\<lambda>x. ctr_tenantId x = T \<and> ctr_id x = i"
  note c = findForUpdate_member [OF 2(1)]
  show ?thesis unfolding bound_step_def
  proof
    assume b: "connectors_bound V (connectors s)"
    then have k: "key_table ctr_id (connectors s)" by (simp add: connectors_bound_def)
    have "connector_bound V y" if y: "y \<in> set (connectors s')" "ctr_active y" for y
    proof -
      from y(1) obtain x where x: "x \<in> set (connectors s)" "y = (if ?hit x then apply_updates E updates x else x)"
        by (auto simp: 2(3) update_where_def)
      then have x_bound: "connector_bound V x" using b y(2) by (simp add: connectors_bound_def split: if_splits)
      show ?thesis
      proof (cases "?hit x")
        case True
        with key_table_unique [OF k x(1), of c] c have "x = c" by simp
        with ok [OF x(1)] 2(2) x_bound x(2) True show ?thesis by simp
      qed (use x x_bound in auto)
    qed
    moreover have "key_table ctr_id (connectors s')" using k by (simp add: 2(3) key_table_update_where)
    ultimately show "connectors_bound V (connectors s')" using 2(4) by (simp add: connectors_bound_def)
  qed
qed (simp add: bound_step_def)

lemma bound_credentials:
  assumes "vault_ok V" and "vault_encrypt V creds = Inr enc"
    and "jget creds ''agentLogId'' = map_option JStr agentLogId" and "hashAgentLogId V (ctr_connectorType c) agentLogId = Inr hash"
    and "cup_credentials u = Some enc" and "ctr_agentLogIdHash (apply_updates E u c) = hash"
  shows "connector_bound V (apply_updates E u c)"
proof -
  obtain ct ver where enc: "enc = (ct, ver)" by (cases enc)
  have "vault_decrypt V (apply_updates E u c) = Inr creds"
    using vault_encrypt_readable [OF assms(1) assms(2) [unfolded enc]] assms(5) by (simp add: vault_decrypt_def apply_updates_def enc)
  with assms(3,4,6) show ?thesis unfolding connector_bound_def by auto
qed

lemma rotate_updates_bound:
  assumes "vault_ok V" and "rotate_updates V c = Inr (updates, info)" and "connector_bound V c"
  shows "connector_bound V (apply_updates E updates c)"
proof (cases "updates = no_updates")
  case True
  with assms(3) show ?thesis by (simp add: apply_updates_def no_updates_def connector_bound_def vault_decrypt_def)
next
  case False
  with assms(2) obtain creds enc where e: "vault_decrypt V c = Inr creds" "vault_encrypt V creds = Inr enc" "updates = no_updates\<lparr>cup_credentials := Some enc\<rparr>"
    by (auto simp: rotate_updates_def split: sum.splits bool.splits)
  from assms(3) e(1) obtain a where a: "jget creds ''agentLogId'' = map_option JStr a"
    "hashAgentLogId V (ctr_connectorType c) a = Inr (ctr_agentLogIdHash c)" by (auto simp: connector_bound_def)
  show ?thesis by (rule bound_credentials [OF assms(1) e(2) a]) (simp_all add: e(3) apply_updates_def no_updates_def)
qed

lemma lazyRotate_bound:
  assumes "vault_ok V"
  shows "keeps (bound_step V) (lazyRotateKeyIfNeeded E V c)"
proof -
  have "keeps (bound_step V) (updateWithLock E T i (rotate_updates V))" for T i
    by (intro keepsI updateWithLock_bound [OF prod.collapse [symmetric]] rotate_updates_bound [OF assms])
  then show ?thesis unfolding lazyRotateKeyIfNeeded_def by (intro bound.keeps_rules keeps_intros) auto
qed

lemma connector_findById_bound: "vault_ok V \<Longrightarrow> keeps (bound_step V) (connector_findById E V locked T i auth)"
  unfolding connector_findById_def by (intro bound.keeps_rules keeps_intros lazyRotate_bound)

lemma rotate_all_bound: "vault_ok V \<Longrightarrow> keeps (bound_step V) (rotate_all E V cs)"
  by (induction cs) (auto intro!: bound.keeps_rules lazyRotate_bound)

text \<open>
  What an update writes was checked: the agent answered at the endpoint that will be in force with
  credentials that will be in force, up to the identifier it reported.
\<close>

definition validated :: "vault \<Rightarrow> managers \<Rightarrow> connector_row \<Rightarrow> bool" where
  "validated V M c \<longleftrightarrow> (\<exists>creds stored agentLogId. assertHealthy M (ctr_connectorType c) (ctr_endpointUrl c) creds = Inr agentLogId
     \<and> vault_decrypt V c = Inr stored
     \<and> (stored = creds \<and> jget creds ''agentLogId'' = map_option JStr agentLogId \<or> stored = withAgentLogId creds agentLogId))"

lemma assertAgentLogIdAvailable_Inr:
  "assertAgentLogIdAvailable V c a creds s = Inr hash \<Longrightarrow> hashAgentLogId V (ctr_connectorType c) a = Inr hash"
  by (auto simp: assertAgentLogIdAvailable_def split: sum.splits if_splits)

lemma credential_updates_cases:
  assumes "credential_updates V M sn dto s = Inr (u, p)" and "u \<noteq> no_updates"
  obtains (keep) old a where "u = no_updates\<lparr>cup_endpointUrl := ucd_endpointUrl dto\<rparr>" "ucd_endpointUrl dto \<noteq> None"
      "vault_decrypt V sn = Inr old" "assertHealthy M (ctr_connectorType sn) (the (ucd_endpointUrl dto)) old = Inr a"
      "jget old ''agentLogId'' = map_option JStr a"
  | (replace) creds a hash enc where "u = no_updates\<lparr>cup_endpointUrl := ucd_endpointUrl dto, cup_agentLogIdHash := Some hash, cup_credentials := Some enc\<rparr>"
      "assertHealthy M (ctr_connectorType sn) (case ucd_endpointUrl dto of None \<Rightarrow> ctr_endpointUrl sn | Some x \<Rightarrow> x) creds = Inr a"
      "hashAgentLogId V (ctr_connectorType sn) a = Inr hash" "vault_encrypt V (withAgentLogId creds a) = Inr enc"
proof (cases "ucd_credentials dto")
  case (Some given)
  with assms(1) that(2) show ?thesis
    by (auto simp: credential_updates_def Let_def split: sum.splits dest!: assertAgentLogIdAvailable_Inr)
next
  case None
  have e: "ucd_endpointUrl dto \<noteq> None" using assms None by (auto simp: credential_updates_def Let_def no_updates_def split: if_splits)
  then obtain url where url: "ucd_endpointUrl dto = Some url" by auto
  from assms(1) None url obtain old a where old: "vault_decrypt V sn = Inr old" "assertHealthy M (ctr_connectorType sn) url old = Inr a"
    by (auto simp: credential_updates_def Let_def split: sum.splits)
  show ?thesis
  proof (cases "map_option JStr a = jget old ''agentLogId''")
    case True
    with assms(1) None url old have "u = no_updates\<lparr>cup_endpointUrl := ucd_endpointUrl dto\<rparr>" by (simp add: credential_updates_def Let_def)
    with that(1) url old True show ?thesis by simp
  next
    case False
    with assms(1) None url old that(2) show ?thesis
      by (auto simp: credential_updates_def Let_def split: sum.splits dest!: assertAgentLogIdAvailable_Inr)
  qed
qed

lemma updates_fit:
  assumes V: "vault_ok V" and u: "credential_updates V M sn dto s = Inr (u, p)" "u \<noteq> no_updates" and fresh: "\<not> connector_stale c sn"
  shows "connector_bound V c \<Longrightarrow> connector_bound V (apply_updates E u c)" and "validated V M (apply_updates E u c)"
proof -
  have same: "ctr_endpointUrl c = ctr_endpointUrl sn" "ctr_connectorType c = ctr_connectorType sn" "vault_decrypt V c = vault_decrypt V sn"
    using fresh by (simp_all add: connector_stale_def vault_decrypt_def)
  from u have "(connector_bound V c \<longrightarrow> connector_bound V (apply_updates E u c)) \<and> validated V M (apply_updates E u c)"
  proof (cases rule: credential_updates_cases)
    case (keep old a)
    then have "vault_decrypt V (apply_updates E u c) = vault_decrypt V c" "ctr_agentLogIdHash (apply_updates E u c) = ctr_agentLogIdHash c"
      "ctr_endpointUrl (apply_updates E u c) = the (ucd_endpointUrl dto)"
      by (auto simp: apply_updates_def no_updates_def vault_decrypt_def)
    with keep same show ?thesis by (auto simp: connector_bound_def validated_def)
  next
    case (replace creds a hash enc)
    have bound: "connector_bound V (apply_updates E u c)"
      by (rule bound_credentials [OF V replace(4)]) (use replace same in \<open>simp_all add: apply_updates_def no_updates_def\<close>)
    have "vault_decrypt V (apply_updates E u c) = Inr (withAgentLogId creds a)"
      using vault_encrypt_readable [OF V, of _ "fst enc" "snd enc"] replace(1,4) by (simp add: vault_decrypt_def apply_updates_def)
    moreover have "ctr_endpointUrl (apply_updates E u c) = (case ucd_endpointUrl dto of None \<Rightarrow> ctr_endpointUrl sn | Some x \<Rightarrow> x)"
      using replace(1) same(1) by (simp add: apply_updates_def no_updates_def split: option.split)
    ultimately have "validated V M (apply_updates E u c)" using replace(2) same(2) by (auto simp: validated_def)
    with bound show ?thesis by simp
  qed
  then show "connector_bound V c \<Longrightarrow> connector_bound V (apply_updates E u c)" and "validated V M (apply_updates E u c)" by simp_all
qed

lemma ensure_webhook_quiet: "snd (ensure_webhook m ctx (ret ()) (ret ()) s) = s"
  by (auto simp: ensure_webhook_def reconcileFailedRegistration_def bindA_def ret_def require_def throw_def
      split: sum.split bool.split)

lemma quiet_then_ret: "bindA m (\<lambda>_. ret x) s = (r, s') \<Longrightarrow> s' = snd (m s) \<and> (\<forall>u. r = Inr u \<longrightarrow> u = x)"
  by (auto simp: bindA_def ret_def split: prod.splits sum.splits)

lemma buildCredentialUpdates_Inr:
  assumes "buildCredentialUpdates V M sn dto s = (r, s')"
  shows "s' = s" and "r = Inr u \<Longrightarrow> \<exists>p. credential_updates V M sn dto s = Inr (u, p) \<and> u \<noteq> no_updates"
proof -
  have "s' = s \<and> (r = Inr u \<longrightarrow> (\<exists>p. credential_updates V M sn dto s = Inr (u, p) \<and> u \<noteq> no_updates))"
  proof (cases "credential_updates V M sn dto s")
    case (Inl e)
    with assms show ?thesis by (auto simp: buildCredentialUpdates_def throw_def)
  next
    case (Inr q)
    obtain x p where q: "q = (x, p)" by (cases q)
    show ?thesis
    proof (cases "x = no_updates")
      case True
      with Inr q assms show ?thesis by (auto simp: buildCredentialUpdates_def require_def throw_run)
    next
      case False
      then have "s' = s \<and> (\<forall>u. r = Inr u \<longrightarrow> u = x)"
        using assms Inr q ensure_webhook_quiet
        by (cases "M (ctr_connectorType sn)"; cases p)
           (auto simp: buildCredentialUpdates_def require_def Let_def ret_run dest!: quiet_then_ret)
      with Inr q False show ?thesis by auto
    qed
  qed
  then show "s' = s" and "r = Inr u \<Longrightarrow> \<exists>p. credential_updates V M sn dto s = Inr (u, p) \<and> u \<noteq> no_updates" by simp_all
qed

lemma lock_attempt_bound:
  assumes "vault_ok V" and "credential_updates V M sn dto s0 = Inr (u, p)" "u \<noteq> no_updates"
  shows "keeps (bound_step V) (updateWithLock E T i (\<lambda>current. if connector_stale current sn then Inr (no_updates, True) else Inr (u, False)))"
proof (rule keepsI, rule updateWithLock_bound [OF prod.collapse [symmetric]])
  fix c updates info
  assume b: "(if connector_stale c sn then Inr (no_updates, True) else Inr (u, False)) = Inr (updates, info)" and c: "connector_bound V c"
  have "connector_bound V (apply_updates E no_updates c)"
    using c by (simp add: apply_updates_def no_updates_def connector_bound_def vault_decrypt_def)
  with b c updates_fit(1) [OF assms] show "connector_bound V (apply_updates E updates c)" by (auto split: if_splits)
qed

lemma update_attempts_bound:
  assumes V: "\<And>n. vault_ok (V n) \<and> same_keys W (V n)" and m: "\<And>n s. bound_step W s (meanwhile n s)"
  shows "keeps (bound_step W) (update_attempts E V M meanwhile T i dto ns sn)"
proof (induction ns arbitrary: sn)
  case Nil
  then show ?case by (simp add: bound.keeps_throw)
next
  case (Cons n ns)
  have W: "bound_step W = bound_step (V n)" using V [of n] by (simp add: fun_eq_iff bound_step_def connectors_bound_def same_keys_bound(1) [of W "V n"])
  show ?case
  proof (rule keepsI)
    fix s
    obtain r s1 where b: "buildCredentialUpdates (V n) (M n) sn dto s = (r, s1)" by (cases "buildCredentialUpdates (V n) (M n) sn dto s")
    then have s1: "s1 = s" by (rule buildCredentialUpdates_Inr)
    show "bound_step W s (snd (update_attempts E V M meanwhile T i dto (n # ns) sn s))"
    proof (cases r)
      case (Inl e)
      with b s1 show ?thesis by (simp add: bindA_def [of "buildCredentialUpdates x y z w" for x y z w] bound.step_refl)
    next
      case (Inr u)
      with b buildCredentialUpdates_Inr(2) obtain p where u: "credential_updates (V n) (M n) sn dto s = Inr (u, p)" "u \<noteq> no_updates" by blast
      let ?rest = "bindA (modifies (meanwhile n)) (\<lambda>_.
        bindA (catchA (updateWithLock E T i (\<lambda>current. if connector_stale current sn then Inr (no_updates, True) else Inr (u, False)))
             (\<lambda>e. throw (throwIfAgentLogIdConflict e))) (\<lambda>updated.
        bindA (agentPartitionCache_invalidate T) (\<lambda>_.
        case updated of None \<Rightarrow> throw (NotFoundException (connector_not_found i))
        | Some (row, stale) \<Rightarrow> if stale then update_attempts E V M meanwhile T i dto ns row else lazyRotateKeyIfNeeded E (V n) row)))"
      have "keeps (bound_step W) (agentPartitionCache_invalidate T)"
        unfolding agentPartitionCache_invalidate_def by (intro bound.keeps_modifies) (simp add: bound_step_def)
      then have "keeps (bound_step W) ?rest"
        using lock_attempt_bound [OF _ u] lazyRotate_bound V [of n] Cons.IH m unfolding W
        by (intro bound.keeps_rules keeps_intros bound.keeps_modifies) (auto simp: W)
      then show ?thesis using b Inr s1 by (simp add: bindA_def [of "buildCredentialUpdates x y z w" for x y z w] keeps_def)
    qed
  qed
qed

lemma updateWithLock_row:
  assumes run: "updateWithLock E T i build s = (Inr q, s')" and c: "findByTenantAndIdForUpdate T i s = Some c"
  obtains u info row where "build c = Inr (u, info)" "q = Some (row, info)" "row = (if u = no_updates then c else apply_updates E u c)"
    "findByTenantAndIdForUpdate T i s' = Some row"
proof -
  obtain u info where b: "build c = Inr (u, info)"
    using run c by (cases "build c") (auto simp: updateWithLock_def transaction_def throw_run split: prod.splits sum.splits)
  have hit: "ctr_tenantId c = T" "ctr_id c = i" using findForUpdate_member [OF c] by simp_all
  let ?t = "update_where (\<lambda>x. ctr_tenantId x = T \<and> ctr_id x = i) (apply_updates E u) (connectors s)"
  have new: "findByTenantAndIdForUpdate T i (s\<lparr>connectors := ?t\<rparr>) = Some (apply_updates E u c)"
    using c hit by (simp add: findByTenantAndIdForUpdate_def find_update_where)
  show ?thesis
  proof (cases "u = no_updates")
    case True
    with run c b that [OF b] show ?thesis
      by (simp add: updateWithLock_def transaction_def ret_apply)
  next
    case False
    with run c b new that [OF b] show ?thesis
      by (auto simp: updateWithLock_def transaction_Inr_iff bindA_Inr_iff put_connectors_def throw_run modifies_def ret_run
          split: if_splits)
  qed
qed

lemma validated_rotate:
  assumes "vault_ok V" and "validated V M c" and "rotate_updates V c = Inr (u, info)"
  shows "validated V M (apply_updates E u c)"
proof (cases "u = no_updates")
  case True
  with assms(2) show ?thesis by (simp add: apply_updates_def no_updates_def validated_def vault_decrypt_def)
next
  case False
  with assms(3) obtain creds enc where e: "vault_decrypt V c = Inr creds" "vault_encrypt V creds = Inr enc" "u = no_updates\<lparr>cup_credentials := Some enc\<rparr>"
    by (auto simp: rotate_updates_def split: sum.splits bool.splits)
  then have "vault_decrypt V (apply_updates E u c) = vault_decrypt V c"
    using vault_encrypt_readable [OF assms(1), of creds "fst enc" "snd enc"] by (simp add: vault_decrypt_def apply_updates_def)
  with assms(2) e(3) show ?thesis by (simp add: validated_def apply_updates_def no_updates_def)
qed

lemma lazyRotate_validated:
  assumes V: "vault_ok V" and c: "validated V M c" "findByTenantAndIdForUpdate T i s = Some c"
    and run: "lazyRotateKeyIfNeeded E V c s = (Inr row, s')"
  shows "validated V M row \<and> findByTenantAndIdForUpdate T i s' = Some row"
proof -
  have id: "ctr_tenantId c = T" "ctr_id c = i" using findForUpdate_member [OF c(2)] by simp_all
  obtain needed where n: "requiresRotation (vlt_ring V) (ctr_keyVersion c) = Inr needed"
    using run by (cases "requiresRotation (vlt_ring V) (ctr_keyVersion c)") (auto simp: lazyRotateKeyIfNeeded_def throw_run)
  show ?thesis
  proof (cases needed)
    case False
    with run n c show ?thesis by (simp add: lazyRotateKeyIfNeeded_def ret_run)
  next
    case True
    with run n id obtain q where q: "updateWithLock E T i (rotate_updates V) s = (Inr q, s')" "row = (case q of None \<Rightarrow> c | Some (r, _) \<Rightarrow> r)"
      by (auto simp: lazyRotateKeyIfNeeded_def bindA_Inr_iff ret_run)
    from q(1) c(2) show ?thesis
    proof (rule updateWithLock_row)
      fix u info r
      assume r: "rotate_updates V c = Inr (u, info)" "q = Some (r, info)" "r = (if u = no_updates then c else apply_updates E u c)"
        "findByTenantAndIdForUpdate T i s' = Some r"
      with q(2) c(1) validated_rotate [OF V c(1) r(1)] show ?thesis by simp
    qed
  qed
qed

lemma update_attempts_validated:
  assumes V: "\<And>n. vault_ok (V n)" and run: "update_attempts E V M meanwhile T i dto ns sn s = (Inr row, s')"
  shows "\<exists>n \<in> set ns. validated (V n) (M n) row \<and> findByTenantAndIdForUpdate T i s' = Some row"
  using run
proof (induction ns arbitrary: sn s)
  case Nil
  then show ?case by (simp add: throw_run)
next
  case (Cons n ns)
  let ?build = "\<lambda>u current. if connector_stale current sn then Inr (no_updates, True) else Inr (u, False)"
  from Cons.prems obtain u s1 updated s2 s3 where b: "buildCredentialUpdates (V n) (M n) sn dto s = (Inr u, s1)"
    and w: "updateWithLock E T i (?build u) (meanwhile n s1) = (Inr updated, s2)"
    and s3: "agentPartitionCache_invalidate T s2 = (Inr (), s3)"
    and rest: "(case updated of None \<Rightarrow> throw (NotFoundException (connector_not_found i))
      | Some (row, stale) \<Rightarrow> if stale then update_attempts E V M meanwhile T i dto ns row else lazyRotateKeyIfNeeded E (V n) row) s3 = (Inr row, s')"
    by (auto simp: bindA_Inr_iff catchA_throw_Inr modifies_def)
  from b buildCredentialUpdates_Inr(2) obtain p where u: "credential_updates (V n) (M n) sn dto s = Inr (u, p)" "u \<noteq> no_updates" by blast
  have same: "findByTenantAndIdForUpdate T i s3 = findByTenantAndIdForUpdate T i s2"
    using s3 by (auto simp: agentPartitionCache_invalidate_def modifies_def findByTenantAndIdForUpdate_def)
  show ?case
  proof (cases "findByTenantAndIdForUpdate T i (meanwhile n s1)")
    case None
    with w rest show ?thesis by (simp add: updateWithLock_def transaction_def ret_apply throw_run)
  next
    case (Some c)
    from w Some show ?thesis
    proof (rule updateWithLock_row)
      fix x info r
      assume r: "?build u c = Inr (x, info)" "updated = Some (r, info)" "r = (if x = no_updates then c else apply_updates E x c)"
        "findByTenantAndIdForUpdate T i s2 = Some r"
      show ?thesis
      proof (cases "connector_stale c sn")
        case True
        with r Cons.IH rest show ?thesis by auto
      next
        case False
        with r u updates_fit(2) [OF V u False] have "validated (V n) (M n) r" by simp
        with lazyRotate_validated [OF V, of n "M n" r T i s3] rest r False same show ?thesis by auto
      qed
    qed
  qed
qed

text \<open>
  C9 What an update of a connector stores was verified: when \<open>update\<close> succeeds, whatever other requests
  did to the connector between its attempts, the row it returns is the stored one, its credentials can
  be decrypted, and they passed the health check against the stored endpoint in one of the three
  attempts, with the agent identifier that check reported.
\<close>

theorem connector_update_validated:
  assumes "\<And>n. vault_ok (V n)"
    and "connector_update E V M meanwhile T i dto auth s = (Inr row, s')"
  shows "findByTenantAndIdForUpdate T i s' = Some row \<and> (\<exists>n < 3. validated (V n) (M n) row)"
proof -
  from assms(2) obtain sn s1 where "update_attempts E V M meanwhile T i dto [0, 1, 2] sn s1 = (Inr row, s')"
    unfolding connector_update_def bindA_Inr_iff by blast
  from update_attempts_validated [OF assms(1) this] obtain n where "n \<in> set [0, 1, 2]" "validated (V n) (M n) row"
    "findByTenantAndIdForUpdate T i s' = Some row" by blast
  moreover from this(1) have "n < 3" by auto
  ultimately show ?thesis by blast
qed

definition sample_vault :: vault where
  "sample_vault = \<lparr>vlt_lib = sample_crypto, vlt_ring = projr (loadKeys sample_key_file), vlt_iv = replicate 12 (CHR ''i'')\<rparr>"

definition sample_manager :: connector_manager where
  "sample_manager = \<lparr>mgr_check = (\<lambda>_ _. Inr \<lparr>hc_healthy = True, hc_message = None, hc_agentLogId = None\<rparr>),
     mgr_prepare = Inr, mgr_merge = (\<lambda>_ u. u), mgr_ensure = (\<lambda>_. Inr ()), mgr_isRegistered = (\<lambda>_. Inr True)\<rparr>"

definition sample_connector :: connector_row where
  "sample_connector = \<lparr>ctr_id = ''c1'', ctr_tenantId = ''t1'', ctr_connectorType = Traction,
     ctr_credentialsEncrypted = fst (projr (vault_encrypt sample_vault (JObj []))), ctr_endpointUrl = ''http://a'', ctr_active = True,
     ctr_keyVersion = 2, ctr_agentLogIdHash = None, ctr_createdAt = 0, ctr_updatedAt = 0\<rparr>"

lemma sample_ring: "loadKeys sample_key_file = Inr (vlt_ring sample_vault)" "requiresRotation (vlt_ring sample_vault) 2 = Inr False"
proof -
  have "\<not> isl (loadKeys sample_key_file)" by code_simp
  then show "loadKeys sample_key_file = Inr (vlt_ring sample_vault)" by (simp add: sample_vault_def)
  have "requiresRotation (projr (loadKeys sample_key_file)) 2 = Inr False" by code_simp
  then show "requiresRotation (vlt_ring sample_vault) 2 = Inr False" by (simp add: sample_vault_def)
qed

lemma sample_vault_ok: "vault_ok sample_vault"
  using sample_ring(1) sample_crypto_ok by (auto simp: vault_ok_def sample_vault_def IV_LENGTH_def)

lemma sample_connector_readable: "vault_decrypt sample_vault sample_connector = Inr (JObj [])"
proof -
  obtain k where k: "getCurrentKey (vlt_ring sample_vault) = Inr (2, k)"
    using sample_ring(2) by (auto simp: requiresRotation_def split: sum.splits)
  then obtain ct where "vault_encrypt sample_vault (JObj []) = Inr (ct, 2)"
    by (cases "aes_seal sample_crypto k (vlt_iv sample_vault) (json_stringify sample_crypto (JObj []))")
       (simp add: vault_encrypt_def encrypt_def Let_def sample_vault_def)
  with vault_encrypt_readable [OF sample_vault_ok this] show ?thesis by (simp add: vault_decrypt_def sample_connector_def)
qed

theorem connector_update_validated_witness:
  "\<exists>row s'. connector_update \<lparr>js_now = 0, db_now = 5, enqueue_ok = \<lambda>_. True\<rparr> (\<lambda>_. sample_vault) (\<lambda>_ _. Some sample_manager) (\<lambda>_ s. s)
       ''t1'' ''c1'' \<lparr>ucd_endpointUrl = Some ''http://b'', ucd_credentials = None\<rparr>
       \<lparr>auth_sub = ''u'', auth_externalUserId = None, auth_tokenType = UserToken, auth_clientId = None, auth_tenantId = Some ''t1'',
        auth_roles = [], auth_scope = [], auth_scopes = [], auth_jti = None\<rparr> (empty_db\<lparr>connectors := [sample_connector]\<rparr>) = (Inr row, s')
     \<and> ctr_endpointUrl row = ''http://b'' \<and> findByTenantAndIdForUpdate ''t1'' ''c1'' s' = Some row
     \<and> validated sample_vault (\<lambda>_. Some sample_manager) row"
  (is "\<exists>row s'. ?run = (Inr row, s') \<and> _")
proof -
  let ?auth = "\<lparr>auth_sub = ''u'', auth_externalUserId = None, auth_tokenType = UserToken, auth_clientId = None, auth_tenantId = Some ''t1'',
    auth_roles = [], auth_scope = [], auth_scopes = [], auth_jti = None\<rparr>"
  let ?dto = "\<lparr>ucd_endpointUrl = Some ''http://b'', ucd_credentials = None\<rparr>"
  have id: "ctr_id sample_connector = ''c1''" "ctr_tenantId sample_connector = ''t1''" "ctr_keyVersion sample_connector = 2" by (simp_all add: sample_connector_def)
  have healthy: "assertHealthy (\<lambda>_. Some sample_manager) t u c = Inr None" for t u c
    by (simp add: assertHealthy_def health_check_def sample_manager_def)
  let ?E = "\<lparr>js_now = 0, db_now = 5, enqueue_ok = \<lambda>_. True\<rparr>"
  let ?u = "no_updates\<lparr>cup_endpointUrl := Some ''http://b''\<rparr>"
  let ?s = "empty_db\<lparr>connectors := [sample_connector]\<rparr>"
  let ?row = "apply_updates ?E ?u sample_connector"
  have u: "?u \<noteq> no_updates" "\<not> connector_stale sample_connector sample_connector" by (simp_all add: no_updates_def connector_stale_def)
  have key: "ctr_keyVersion ?row = 2" "ctr_endpointUrl ?row = ''http://b''" "ctr_agentLogIdHash ?row = None"
    by (simp_all add: apply_updates_def no_updates_def sample_connector_def)
  have find: "connector_findById ?E sample_vault False ''t1'' ''c1'' (Some ?auth) ?s = (Inr sample_connector, ?s)"
    by (simp add: connector_findById_def connectors_findById_def id lazyRotateKeyIfNeeded_def sample_ring
        assertResourceTenantOrNotFound_def js_truthy_def PLATFORM_ADMIN_ROLE_def bindA_reads ret_apply)
  have build: "buildCredentialUpdates sample_vault (\<lambda>_. Some sample_manager) sample_connector ?dto ?s = (Inr ?u, ?s)"
    using u by (simp add: buildCredentialUpdates_def credential_updates_def Let_def sample_connector_readable healthy require_def ret_apply)
  have lock: "updateWithLock ?E ''t1'' ''c1'' (\<lambda>current. if connector_stale current sample_connector then Inr (no_updates, True) else Inr (?u, False)) ?s
      = (Inr (Some (?row, False)), ?s\<lparr>connectors := [?row]\<rparr>)"
    using u key by (simp add: updateWithLock_def transaction_def findByTenantAndIdForUpdate_def id bindA_def put_connectors_def modifies_def
        update_where_def index_ok_def lift_def ret_apply reads_def)
  have "\<exists>s'. ?run = (Inr ?row, s')"
    by (simp add: connector_update_def bindA_run [where m = "connector_findById a b c d e f" for a b c d e f] find
          bindA_run [where m = "buildCredentialUpdates a b c d" for a b c d] build)
       (simp add: bindA_def lock catchA_def modifies_def agentPartitionCache_invalidate_def lazyRotateKeyIfNeeded_def
          key sample_ring ret_apply lift_def)
  with key(2) have "\<exists>row s'. ?run = (Inr row, s') \<and> ctr_endpointUrl row = ''http://b''" by blast
  then obtain row s' where run: "?run = (Inr row, s')" and e: "ctr_endpointUrl row = ''http://b''" by blast
  from connector_update_validated [OF sample_vault_ok run] e run show ?thesis by blast
qed

section \<open>Every operation keeps the binding\<close>

lemma connector_update_bound:
  assumes V: "\<And>n. vault_ok (V n) \<and> same_keys W (V n)" and m: "\<And>n s. bound_step W s (meanwhile n s)"
  shows "keeps (bound_step W) (connector_update E V M meanwhile T i dto auth)"
proof -
  have "keeps (bound_step W) (connector_findById E (V 0) False T i (Some auth))"
    using connector_findById_bound [of "V 0"] V [of 0]
    by (simp add: keeps_def bound_step_def connectors_bound_def same_keys_bound(1) [of W "V 0"])
  then show ?thesis unfolding connector_update_def
    by (intro bound.keeps_rules update_attempts_bound V m)
qed

lemma connectors_bound_filter: "connectors_bound V t \<Longrightarrow> connectors_bound V (filter Q t)"
  by (auto simp: connectors_bound_def key_table_def index_ok_def distinct_map inj_on_def)

lemma delete_connectors_bound: "keeps (bound_step V) (delete_connectors P)"
  by (rule keepsI) (auto simp: delete_connectors_def bound_step_def throw_run bindA_def modifies_def ret_apply intro: connectors_bound_filter)

lemma bound_deactivated:
  assumes b: "connectors_bound V t"
  shows "connectors_bound V (update_where hit (\<lambda>c. c\<lparr>ctr_active := False, ctr_updatedAt := n\<rparr>) t)" (is "connectors_bound V ?t")
proof -
  have "connector_bound V y" if "y \<in> set ?t" "ctr_active y" for y
    using that b by (auto simp: update_where_def connectors_bound_def split: if_splits)
  moreover have "index_ok (\<lambda>c. ctr_active c \<and> ctr_agentLogIdHash c \<noteq> None) ctr_agentLogIdHash ?t"
    by (rule index_ok_update_where) (use b in \<open>simp_all add: connectors_bound_def\<close>)
  ultimately show ?thesis using b by (simp add: connectors_bound_def key_table_update_where)
qed

lemma invalidate_bound [keeps_intros]: "keeps (bound_step V) (agentPartitionCache_invalidate T)"
  unfolding agentPartitionCache_invalidate_def by (intro bound.keeps_modifies) (simp add: bound_step_def)

lemma connector_delete_bound:
  assumes "vault_ok V"
  shows "keeps (bound_step V) (connector_delete E V T i auth)"
proof -
  have "keeps (bound_step V) (deleteUnlessDefault T i)"
    unfolding deleteUnlessDefault_def by (intro bound.keeps_rules keeps_intros delete_connectors_bound)
  then show ?thesis unfolding connector_delete_def using assms
    by (intro bound.keeps_rules keeps_intros connector_findById_bound) (auto split: ConnectorDeletionResult.split intro: bound.keeps_rules)
qed

lemma connector_deactivateAll_bound: "keeps (bound_step V) (connector_deactivateAllForTenant E T)"
proof -
  have "keeps (bound_step V) (connectors_deactivateAllForTenant E T)"
    by (rule keepsI)
       (auto simp: connectors_deactivateAllForTenant_def Let_def bindA_def put_connectors_def modifies_def throw_def ret_apply bound_step_def
        intro: bound_deactivated)
  then show ?thesis
    by (auto simp: keeps_def connector_deactivateAllForTenant_def bound_step_def agentPartitionCache_invalidate_def modifies_def split: prod.split)
qed

end
