(* ===== verification/Spec2Isabelle.thy ===== *)
theory Spec2Isabelle
  imports Operation_Wait Operation_Purge Credential_Issue Credential_Actions Tenant_User Business_Metrics Rate_Limit
    Role_Scope OAuth_Client Connector_Store
begin

text \<open>
  Verification library of the Digital Credential Common Service.
\<close>

end
